(* ===== verification/Prelude.thy ===== *)
theory Prelude
  imports Main "HOL-Library.Sublist" "HOL-Library.AList"
begin

text \<open>
  Shared vocabulary of the development: the collections of rewrite rules the
  component theories extend, JavaScript's \<open>String.prototype.split\<close> and
  \<open>Array.prototype.join\<close> for a one-character separator (used by the path
  normaliser on \<open>/\<close> and by the diff generator on the newline), and the generic
  lemmas on lists and string prefixes that the components share.
  JavaScript strings are modelled as \<^typ>\<open>string\<close>; the character encoding is not
  modelled (one \<^typ>\<open>char\<close> stands for one UTF-16 code unit).
\<close>

named_theorems path_simps "rewrite rules of the path guard"
named_theorems fs_simps "rewrite rules of the host file-system model"

subsection \<open>JavaScript split and join on one character\<close>

text \<open>
  \<open>s.split(c)\<close> for a one-character string \<open>c\<close>: the pieces between the
  occurrences of \<open>c\<close>, always at least one (\<open>"".split(c)\<close> is \<open>[""]\<close>).
\<close>

fun split_on :: "char \<Rightarrow> string \<Rightarrow> string list" where
  "split_on c [] = [[]]"
| "split_on c (x # xs) =
     (if x = c then [] # split_on c xs
      else (case split_on c xs of [] \<Rightarrow> [[x]] | p # ps \<Rightarrow> (x # p) # ps))"

text \<open>\<open>xs.join(c)\<close>: the pieces with \<open>c\<close> between neighbours.\<close>

fun join_on :: "char \<Rightarrow> string list \<Rightarrow> string" where
  "join_on c [] = []"
| "join_on c [x] = x"
| "join_on c (x # y # ys) = x @ c # join_on c (y # ys)"

lemma split_on_not_Nil [simp]: "split_on c s \<noteq> []"
  by (induction s) (auto split: list.splits)

lemma split_on_no_sep: "p \<in> set (split_on c s) \<Longrightarrow> c \<notin> set p"
proof (induction s arbitrary: p)
  case Nil
  then show ?case by simp
next
  case (Cons x xs)
  then show ?case by (auto split: if_splits list.splits)
qed

lemma split_on_free [simp]: "c \<notin> set s \<Longrightarrow> split_on c s = [s]"
  by (induction s) auto

lemma split_on_append_sep:
  "split_on c (a @ c # b) = split_on c a @ split_on c b"
proof (induction a)
  case Nil
  then show ?case by simp
next
  case (Cons x xs)
  obtain p ps where "split_on c (xs @ c # b) = p # ps"
    by (cases "split_on c (xs @ c # b)") simp_all
  moreover obtain q qs where "split_on c xs = q # qs"
    by (cases "split_on c xs") simp_all
  ultimately show ?case using Cons by (auto split: list.splits)
qed

lemma split_on_snoc_sep: "split_on c (s @ [c]) = split_on c s @ [[]]"
  using split_on_append_sep [of c s "[]"] by simp

lemma join_on_Cons:
  "join_on c (x # xs) = (if xs = [] then x else x @ c # join_on c xs)"
  by (cases xs) simp_all

lemma join_on_append:
  "xs \<noteq> [] \<Longrightarrow> ys \<noteq> [] \<Longrightarrow> join_on c (xs @ ys) = join_on c xs @ c # join_on c ys"
  by (induction xs rule: join_on.induct) (simp_all add: join_on_Cons)

text \<open>Round trip: joining the pieces gives the string back.\<close>

lemma join_split_on: "join_on c (split_on c s) = s"
proof (induction s)
  case Nil
  then show ?case by simp
next
  case (Cons x xs)
  show ?case
  proof (cases "split_on c xs")
    case Nil
    then show ?thesis by simp
  next
    case (Cons p ps)
    with Cons.IH show ?thesis by (cases ps) auto
  qed
qed

text \<open>Round trip the other way: pieces free of the separator are recovered.\<close>

lemma split_join_on:
  "xs \<noteq> [] \<Longrightarrow> \<forall>p \<in> set xs. c \<notin> set p \<Longrightarrow> split_on c (join_on c xs) = xs"
proof (induction xs rule: join_on.induct)
  case (3 c x y ys)
  then show ?case by (simp add: split_on_append_sep)
qed simp_all

subsection \<open>Prefixes of strings built around a separator\<close>

text \<open>
  A separator-free string is a prefix of \<open>y @ c # z\<close> exactly when it is a prefix
  of \<open>y\<close>: it cannot reach past the separator.
\<close>

lemma prefix_sep_free:
  "c \<notin> set x \<Longrightarrow> prefix x (y @ c # z) \<longleftrightarrow> prefix x y"
proof (induction x arbitrary: y)
  case Nil
  then show ?case by simp
next
  case (Cons a x)
  then show ?case by (cases y) auto
qed

lemma prefix_sep_cancel:
  assumes "c \<notin> set x" "c \<notin> set y"
  shows "prefix (x @ c # u) (y @ c # v) \<longleftrightarrow> x = y \<and> prefix u v"
  using assms
proof (induction x arbitrary: y)
  case Nil
  then show ?case by (cases y) auto
next
  case (Cons a x)
  then show ?case by (cases y) auto
qed

lemma prefix_sep_Nil:
  "c \<notin> set y \<Longrightarrow> \<not> prefix (x @ c # u) y"
  by (auto simp: prefix_def)


text \<open>Association lists: an update adds its pair and keeps or drops the others.\<close>

lemma dropWhile_Cons_length: "dropWhile P xs = y # ys \<Longrightarrow> length ys < length xs"
  by (metis length_dropWhile_le length_Cons Suc_le_eq)

lemma set_update_subset: "set (AList.update k v al) \<subseteq> insert (k, v) (set al)"
  by (induction al) auto

end
