(* ===== verification/Edit.thy ===== *)
theory Edit
  imports Prelude
begin

text \<open>
  The edit engine of \<open>edit_file\<close> (\<open>src/filesystem/src/index.ts\<close>, lines 396--415):
  each edit \<open>{oldText, newText}\<close> in order is checked with
  \<open>newContent.includes(oldText)\<close> and applied with
  \<open>newContent.replace(oldText, newText)\<close>. Both are ECMAScript built-ins, modelled
  here from the language specification: \<open>includes\<close> and the search of
  \<open>replace\<close> use \<open>StringIndexOf\<close> (the first occurrence, position 0 for the empty
  pattern), and the replacement string of \<open>replace\<close> is expanded by
  \<open>GetSubstitution\<close>, in which \<open>$$\<close>, \<open>$&\<close>, \<open>$`\<close> and \<open>$'\<close> are patterns
  (with a string pattern there are no capture groups, so \<open>$1\<close> or \<open>$<\<close> stay
  literal).

  The spec asks for literal substitution of the first occurrence. The lemmas
  show that the code does exactly that for replacement texts without \<open>$\<close>
  (against the reference \<open>replace_first\<close>), and that a \<open>$&\<close> in a replacement
  text is expanded to the matched text instead.
\<close>

subsection \<open>ECMAScript string operations\<close>

text \<open>\<open>StringIndexOf(s, pat, 0)\<close>: the first position at which \<open>pat\<close> occurs.\<close>

fun index_of :: "string \<Rightarrow> string \<Rightarrow> nat option" where
  "index_of [] pat = (if pat = [] then Some 0 else None)"
| "index_of (c # t) pat =
     (if prefix pat (c # t) then Some 0 else map_option Suc (index_of t pat))"

definition js_includes :: "string \<Rightarrow> string \<Rightarrow> bool" where
  "js_includes s pat \<longleftrightarrow> index_of s pat \<noteq> None"

text \<open>
  \<open>GetSubstitution(matched, str, position, [], undefined, template)\<close>.
\<close>

fun get_substitution :: "string \<Rightarrow> string \<Rightarrow> nat \<Rightarrow> string \<Rightarrow> string" where
  "get_substitution m str pos [] = []"
| "get_substitution m str pos [c] = [c]"
| "get_substitution m str pos (c # d # r) =
     (if c = CHR ''$'' \<and> d = CHR ''$'' then CHR ''$'' # get_substitution m str pos r
      else if c = CHR ''$'' \<and> d = CHR ''&'' then m @ get_substitution m str pos r
      else if c = CHR ''$'' \<and> d = CHR ''`'' then take pos str @ get_substitution m str pos r
      else if c = CHR ''$'' \<and> d = CHR 0x27
        then drop (pos + length m) str @ get_substitution m str pos r
      else c # get_substitution m str pos (d # r))"

text \<open>\<open>String.prototype.replace(searchValue, replaceValue)\<close> with two strings.\<close>

definition js_replace :: "string \<Rightarrow> string \<Rightarrow> string \<Rightarrow> string" where
  "js_replace s pat rep =
     (case index_of s pat of
        None \<Rightarrow> s
      | Some pos \<Rightarrow> take pos s @ get_substitution pat s pos rep @ drop (pos + length pat) s)"

subsection \<open>The edit loop\<close>

record edit_op =
  old_text :: string
  new_text :: string

text \<open>One entry of \<open>results\<close>: \<open>{match: true, oldText, newText}\<close> or
  \<open>{match: false, oldText, message}\<close>.\<close>

datatype edit_result =
    EditMatched string string
  | EditNotFound string string

definition not_found_message :: string where
  "not_found_message = ''Text not found in file''"

text \<open>Lines 394--415: the working content and the results, edit by edit.\<close>

fun apply_edits :: "string \<Rightarrow> edit_op list \<Rightarrow> string \<times> edit_result list" where
  "apply_edits content [] = (content, [])"
| "apply_edits content (e # es) =
     (if \<not> js_includes content (old_text e) then
        (let (c', rs) = apply_edits content es
         in (c', EditNotFound (old_text e) not_found_message # rs))
      else
        (let (c', rs) = apply_edits (js_replace content (old_text e) (new_text e)) es
         in (c', EditMatched (old_text e) (new_text e) # rs)))"

text \<open>The old text a result reports.\<close>

primrec edit_result_old :: "edit_result \<Rightarrow> string" where
  "edit_result_old (EditMatched old new) = old"
| "edit_result_old (EditNotFound old msg) = old"

subsection \<open>Reference: literal first-occurrence replacement (spec 4.3)\<close>

fun replace_first :: "string \<Rightarrow> string \<Rightarrow> string \<Rightarrow> string option" where
  "replace_first [] old new = (if old = [] then Some new else None)"
| "replace_first (c # t) old new =
     (if prefix old (c # t) then Some (new @ drop (length old) (c # t))
      else map_option (Cons c) (replace_first t old new))"

fun spec_apply_edits :: "string \<Rightarrow> edit_op list \<Rightarrow> string" where
  "spec_apply_edits w [] = w"
| "spec_apply_edits w (e # es) =
     spec_apply_edits
       (case replace_first w (old_text e) (new_text e) of None \<Rightarrow> w | Some w' \<Rightarrow> w') es"

subsection \<open>Properties of the edit engine\<close>

lemma index_of_None:
  "index_of s pat = None \<longleftrightarrow> (\<forall>i \<le> length s. \<not> prefix pat (drop i s))"
proof (induction s)
  case Nil
  then show ?case by simp
next
  case (Cons c t)
  have "(\<forall>i \<le> length (c # t). \<not> prefix pat (drop i (c # t))) \<longleftrightarrow>
        \<not> prefix pat (c # t) \<and> (\<forall>i \<le> length t. \<not> prefix pat (drop i t))"
    (is "?l \<longleftrightarrow> ?r")
  proof
    assume l: ?l
    show ?r
    proof
      show "\<not> prefix pat (c # t)" using l [rule_format, of 0] by simp
      show "\<forall>i \<le> length t. \<not> prefix pat (drop i t)"
        using l by (metis Suc_le_mono drop_Suc_Cons length_Cons)
    qed
  next
    assume r: ?r
    show ?l
    proof (intro allI impI)
      fix i assume "i \<le> length (c # t)"
      with r show "\<not> prefix pat (drop i (c # t))" by (cases i) auto
    qed
  qed
  with Cons.IH show ?case by simp
qed

lemma index_of_Some:
  "index_of s pat = Some i \<Longrightarrow>
     i \<le> length s \<and> prefix pat (drop i s) \<and> (\<forall>j < i. \<not> prefix pat (drop j s))"
proof (induction s arbitrary: i)
  case Nil
  then show ?case by (simp split: if_splits)
next
  case (Cons c t)
  show ?case
  proof (cases "prefix pat (c # t)")
    case True
    with Cons.prems show ?thesis by simp
  next
    case False
    with Cons.prems obtain k where k: "index_of t pat = Some k" "i = Suc k" by auto
    from Cons.IH [OF k(1)] k(2) False show ?thesis
      by (auto simp: less_Suc_eq_0_disj)
  qed
qed

lemma get_substitution_literal:
  "CHR ''$'' \<notin> set rep \<Longrightarrow> get_substitution m str pos rep = rep"
  by (induction m str pos rep rule: get_substitution.induct) auto

lemma replace_first_index_of:
  assumes "CHR ''$'' \<notin> set rep"
  shows "replace_first s pat rep =
    map_option (\<lambda>pos. take pos s @ rep @ drop (pos + length pat) s) (index_of s pat)"
proof (induction s)
  case Nil
  then show ?case by simp
next
  case (Cons a s)
  then show ?case by (cases "index_of s pat") auto
qed

lemma replace_first_js_replace:
  "CHR ''$'' \<notin> set rep \<Longrightarrow>
   replace_first s pat rep = (if js_includes s pat then Some (js_replace s pat rep) else None)"
  by (auto simp: replace_first_index_of js_replace_def js_includes_def get_substitution_literal)

lemma js_replace_prefix_split:
  assumes "index_of s pat = Some pos"
  shows "s = take pos s @ pat @ drop (pos + length pat) s"
proof -
  from index_of_Some [OF assms] have "prefix pat (drop pos s)" by simp
  then have "drop pos s = pat @ drop (length pat) (drop pos s)"
    by (metis append_eq_conv_conj prefix_def)
  then show ?thesis by (metis append_take_drop_id drop_drop add.commute)
qed

lemma fst_apply_edits_Cons:
  "fst (apply_edits content (e # es)) =
   fst (apply_edits (if js_includes content (old_text e)
                     then js_replace content (old_text e) (new_text e) else content) es)"
  by (simp split: prod.splits)

lemma snd_apply_edits_Cons:
  "snd (apply_edits content (e # es)) =
   (if js_includes content (old_text e) then EditMatched (old_text e) (new_text e)
    else EditNotFound (old_text e) not_found_message) #
   snd (apply_edits (if js_includes content (old_text e)
                     then js_replace content (old_text e) (new_text e) else content) es)"
  by (simp split: prod.splits)

text \<open>
  C10. Equivalence with the spec's literal semantics: when no replacement text
  contains \<open>$\<close>, the content the edit loop produces equals the reference
  \<open>spec_apply_edits\<close>, which replaces the first occurrence of each old text,
  edit after edit, by the new text verbatim and skips edits whose old text is
  absent.
\<close>

theorem apply_edits_literal_equiv:
  "\<forall>e \<in> set es. CHR ''$'' \<notin> set (new_text e) \<Longrightarrow>
   fst (apply_edits content es) = spec_apply_edits content es"
proof (induction es arbitrary: content)
  case Nil
  then show ?case by simp
next
  case (Cons e es)
  then show ?case
    by (simp del: apply_edits.simps(2) add: fst_apply_edits_Cons replace_first_js_replace)
qed

lemma apply_edits_literal_equiv_witness:
  "fst (apply_edits ''hi'' [\<lparr>old_text = ''hi'', new_text = ''bye''\<rparr>]) =
   spec_apply_edits ''hi'' [\<lparr>old_text = ''hi'', new_text = ''bye''\<rparr>]"
proof -
  have h: "\<forall>e \<in> set [\<lparr>old_text = ''hi'', new_text = ''bye''\<rparr>]. CHR ''$'' \<notin> set (new_text e)"
    by simp
  show ?thesis by (rule apply_edits_literal_equiv [OF h])
qed

text \<open>
  C11. Replacement texts are not literal: an edit whose new text is \<open>$&\<close> and
  whose old text occurs is reported as matched, yet leaves the content
  unchanged, because \<open>String.prototype.replace\<close> expands \<open>$&\<close> to the matched
  text.
\<close>

theorem js_replace_dollar_amp_noop:
  assumes "js_includes content (old_text e)" "new_text e = ''$&''"
  shows "apply_edits content [e] = (content, [EditMatched (old_text e) ''$&''])"
proof -
  from assms(1) obtain pos where pos: "index_of content (old_text e) = Some pos"
    by (auto simp: js_includes_def)
  have "js_replace content (old_text e) ''$&'' = content"
    using js_replace_prefix_split [OF pos] pos by (simp add: js_replace_def)
  with assms show ?thesis by simp
qed

lemma js_replace_dollar_amp_noop_witness:
  "apply_edits ''hi'' [\<lparr>old_text = ''hi'', new_text = ''$&''\<rparr>] = (''hi'', [EditMatched ''hi'' ''$&''])"
proof -
  have h1: "js_includes ''hi'' (old_text \<lparr>old_text = ''hi'', new_text = ''$&''\<rparr>)"
    by (simp add: js_includes_def)
  have h2: "new_text \<lparr>old_text = ''hi'', new_text = ''$&''\<rparr> = ''$&''" by simp
  show ?thesis using js_replace_dollar_amp_noop [OF h1 h2] by simp
qed

lemma index_of_Nil_pat [simp]: "index_of s [] = Some 0"
  by (cases s) simp_all

text \<open>
  C12. An edit whose \<open>oldText\<close> is empty always matches, at the start of the text:
  \<open>includes("")\<close> is true and \<open>replace("", newText)\<close> inserts \<open>newText\<close> at index 0.
  A list of such edits (with \<open>$\<close>-free replacements) reports each as matched and
  prepends the replacement texts, the last edit first.
\<close>

theorem apply_edits_empty_old_text:
  assumes "\<forall>n \<in> set ns. CHR ''$'' \<notin> set n"
  shows "apply_edits c (map (\<lambda>n. \<lparr>old_text = [], new_text = n\<rparr>) ns) =
         (concat (rev ns) @ c, map (EditMatched []) ns)"
  using assms
proof (induction ns arbitrary: c)
  case (Cons n ns)
  then have "js_replace c [] n = n @ c" by (simp add: js_replace_def get_substitution_literal)
  with Cons show ?case by (simp add: js_includes_def)
qed simp

lemma apply_edits_empty_old_text_witness:
  "apply_edits ''ab'' [\<lparr>old_text = [], new_text = ''x''\<rparr>, \<lparr>old_text = [], new_text = ''y''\<rparr>] =
   (''yxab'', [EditMatched [] ''x'', EditMatched [] ''y''])"
  using apply_edits_empty_old_text [of "[''x'', ''y'']" "''ab''"] by simp

text \<open>
  \<open>replace\<close> with a \<open>$\<close>-free replacement text substitutes exactly the
  first occurrence: the content splits as \<open>u @ old @ v\<close> with no occurrence of
  \<open>old\<close> starting inside \<open>u\<close>, and the result is \<open>u @ new @ v\<close>.
\<close>

lemma js_replace_literal_first:
  assumes "js_includes s pat" "CHR ''$'' \<notin> set rep"
  shows "\<exists>u v. s = u @ pat @ v \<and> js_replace s pat rep = u @ rep @ v \<and>
               (\<forall>j < length u. \<not> prefix pat (drop j s))"
proof -
  from assms(1) obtain pos where pos: "index_of s pat = Some pos"
    by (auto simp: js_includes_def)
  let ?u = "take pos s" and ?v = "drop (pos + length pat) s"
  have "s = ?u @ pat @ ?v" by (rule js_replace_prefix_split [OF pos])
  moreover have "js_replace s pat rep = ?u @ rep @ ?v"
    using pos assms(2) by (simp add: js_replace_def get_substitution_literal)
  moreover have "length ?u = pos" using index_of_Some [OF pos] by simp
  ultimately show ?thesis using index_of_Some [OF pos] by metis
qed

text \<open>The edit loop reports one result per edit, in the order of the edits, each
  carrying that edit's old text.\<close>

lemma apply_edits_one_result_per_edit:
  "map edit_result_old (snd (apply_edits content es)) = map old_text es"
  by (induction es arbitrary: content) (simp_all del: apply_edits.simps(2) add: snd_apply_edits_Cons)

text \<open>Edits whose old text is not found have no effect: when every result is
  \<open>match: false\<close>, the content is unchanged.\<close>

lemma apply_edits_unmatched_unchanged:
  assumes "\<forall>r \<in> set (snd (apply_edits content es)). \<exists>old msg. r = EditNotFound old msg"
  shows "fst (apply_edits content es) = content"
  using assms
proof (induction es)
  case Nil
  then show ?case by simp
next
  case (Cons e es)
  then show ?case
    by (auto simp del: apply_edits.simps(2) simp: snd_apply_edits_Cons fst_apply_edits_Cons
        split: if_splits)
qed

end
