(* ===== verification/Diff.thy ===== *)
theory Diff
  imports Prelude
begin

text \<open>
  \<open>generateDiff\<close> (\<open>src/filesystem/src/index.ts\<close>, lines 592--615): both texts are
  split on the newline, and an index runs up to the longer line count; a missing
  line reads as the empty string. Equal lines give \<open>"  line\n"\<close>; different lines
  give \<open>"- old\n"\<close> when the old line is non-empty (JavaScript truthiness)
  followed by \<open>"+ new\n"\<close> when the new line is non-empty.

  \<open>diff_loop\<close> is the loop as written, over an index with a measure for its
  termination. \<open>diff_entries\<close> is the spec's DiffRecord (sections 3 and 4.2),
  written from the spec and not from the code: a list of entries tagged removed,
  added or unchanged, computed by walking both line lists together by position,
  a missing line read as empty (\<open>line_entries\<close> is the spec's rule for one
  position). \<open>render_entry\<close> is the code's text for one entry (the prefixes
  \<open>"- "\<close>, \<open>"+ "\<close> and \<open>"  "\<close>, which the spec leaves open). The loop's text is
  the rendering of the spec's entries (\<open>generate_diff_entries\<close>). The lemmas show that equal texts
  give only unchanged entries, that the non-empty lines of both sides can be
  read back from the entries, and that removing a trailing newline is invisible
  in the diff.
\<close>

abbreviation newline :: char where
  "newline \<equiv> CHR 0x0A"

text \<open>The body of the loop for one index, lines 599--611.\<close>

definition diff_line :: "string \<Rightarrow> string \<Rightarrow> string" where
  "diff_line old_line new_line =
     (if old_line \<noteq> new_line then
        (if old_line \<noteq> [] then ''- '' @ old_line @ [newline] else []) @
        (if new_line \<noteq> [] then ''+ '' @ new_line @ [newline] else [])
      else ''  '' @ old_line @ [newline])"

text \<open>The \<open>for\<close> loop of lines 598--612, with the accumulated \<open>diff\<close>.\<close>

function diff_loop :: "string list \<Rightarrow> string list \<Rightarrow> nat \<Rightarrow> string \<Rightarrow> string" where
  "diff_loop old_lines new_lines i diff =
     (if i < max (length old_lines) (length new_lines) then
        (let old_line = (if i < length old_lines then old_lines ! i else []);
             new_line = (if i < length new_lines then new_lines ! i else [])
         in diff_loop old_lines new_lines (Suc i) (diff @ diff_line old_line new_line))
      else diff)"
  by pat_completeness auto
termination
  by (relation "measure (\<lambda>(ol, nl, i, d). max (length ol) (length nl) - i)") auto

declare diff_loop.simps [simp del]

definition generate_diff :: "string \<Rightarrow> string \<Rightarrow> string" where
  "generate_diff old_text new_text =
     diff_loop (split_on newline old_text) (split_on newline new_text) 0 []"

subsection \<open>The diff as a list of entries\<close>

datatype diff_entry = Removed string | Added string | Unchanged string

definition line_entries :: "string \<Rightarrow> string \<Rightarrow> diff_entry list" where
  "line_entries old_line new_line =
     (if old_line \<noteq> new_line then
        (if old_line \<noteq> [] then [Removed old_line] else []) @
        (if new_line \<noteq> [] then [Added new_line] else [])
      else [Unchanged old_line])"

fun diff_entries :: "string list \<Rightarrow> string list \<Rightarrow> diff_entry list" where
  "diff_entries [] [] = []"
| "diff_entries (x # xs) [] = line_entries x [] @ diff_entries xs []"
| "diff_entries [] (n # ns) = line_entries [] n @ diff_entries [] ns"
| "diff_entries (x # xs) (n # ns) = line_entries x n @ diff_entries xs ns"

primrec render_entry :: "diff_entry \<Rightarrow> string" where
  "render_entry (Removed l) = ''- '' @ l @ [newline]"
| "render_entry (Added l) = ''+ '' @ l @ [newline]"
| "render_entry (Unchanged l) = ''  '' @ l @ [newline]"

text \<open>The lines of the old and of the new text that an entry shows.\<close>

primrec old_side :: "diff_entry \<Rightarrow> string list" where
  "old_side (Removed l) = [l]"
| "old_side (Added l) = []"
| "old_side (Unchanged l) = [l]"

primrec new_side :: "diff_entry \<Rightarrow> string list" where
  "new_side (Removed l) = []"
| "new_side (Added l) = [l]"
| "new_side (Unchanged l) = [l]"

subsection \<open>Properties of the diff\<close>

lemma diff_line_render: "diff_line x y = concat (map render_entry (line_entries x y))"
  by (simp add: diff_line_def line_entries_def)

lemma diff_loop_entries:
  "diff_loop ol nl i acc = acc @ concat (map render_entry (diff_entries (drop i ol) (drop i nl)))"
proof (induction ol nl i acc rule: diff_loop.induct)
  case (1 ol nl i acc)
  show ?case
  proof (cases "i < max (length ol) (length nl)")
    case True
    let ?o = "if i < length ol then ol ! i else []"
    let ?n = "if i < length nl then nl ! i else []"
    have step: "diff_entries (drop i ol) (drop i nl) =
                line_entries ?o ?n @ diff_entries (drop (Suc i) ol) (drop (Suc i) nl)"
      using True
      by (cases "i < length ol"; cases "i < length nl")
         (simp_all add: Cons_nth_drop_Suc [symmetric])
    from True "1.IH" [OF True refl refl] show ?thesis
      by (simp add: diff_loop.simps [of ol nl i acc] step diff_line_render)
  next
    case False
    then show ?thesis by (simp add: diff_loop.simps [of ol nl i acc])
  qed
qed

lemma diff_entries_same: "diff_entries xs xs = map Unchanged xs"
  by (induction xs) (simp_all add: line_entries_def)

lemma diff_entries_snoc_empty: "diff_entries (xs @ [[]]) xs = map Unchanged xs @ [Unchanged []]"
  by (induction xs) (simp_all add: line_entries_def)

lemma diff_entries_old_side:
  "filter (\<lambda>l. l \<noteq> []) (concat (map old_side (diff_entries os ns))) = filter (\<lambda>l. l \<noteq> []) os"
  by (induction os ns rule: diff_entries.induct) (auto simp: line_entries_def)

lemma diff_entries_new_side:
  "filter (\<lambda>l. l \<noteq> []) (concat (map new_side (diff_entries os ns))) = filter (\<lambda>l. l \<noteq> []) ns"
  by (induction os ns rule: diff_entries.induct) (auto simp: line_entries_def)

lemma diff_entries_length:
  "max (length os) (length ns) \<le> length (diff_entries os ns) \<and>
   length (diff_entries os ns) \<le> 2 * max (length os) (length ns)"
  by (induction os ns rule: diff_entries.induct) (auto simp: line_entries_def)

lemma diff_entries_newlines:
  "(\<forall>l \<in> set os. newline \<notin> set l) \<Longrightarrow> (\<forall>l \<in> set ns. newline \<notin> set l) \<Longrightarrow>
   length (filter (\<lambda>ch. ch = newline) (concat (map render_entry (diff_entries os ns)))) =
   length (diff_entries os ns)"
  by (induction os ns rule: diff_entries.induct) (auto simp: line_entries_def filter_empty_conv)

lemma generate_diff_render:
  "generate_diff old_text new_text =
   concat (map render_entry (diff_entries (split_on newline old_text) (split_on newline new_text)))"
  by (simp add: generate_diff_def diff_loop_entries)

text \<open>
  C25. \<open>generateDiff\<close> implements the spec's positional diff: the text its index
  loop builds is the rendering of the spec's DiffRecord of the two line lists, one
  entry list per position up to the longer list, missing lines read as empty.
\<close>

theorem generate_diff_entries:
  "generate_diff old_text new_text =
   concat (map render_entry (diff_entries (split_on newline old_text) (split_on newline new_text)))"
  by (simp add: generate_diff_def diff_loop_entries)

text \<open>
  Diffing a text against itself gives only unchanged lines, one per line
  of the text.
\<close>

lemma generate_diff_same:
  "generate_diff x x = concat (map (\<lambda>l. ''  '' @ l @ [newline]) (split_on newline x))"
  by (simp add: generate_diff_render diff_entries_same comp_def)

text \<open>
  The diff loses no non-empty line: the removed and unchanged entries give
  back the non-empty lines of the old text in order, and the added and unchanged
  entries those of the new text.
\<close>

lemma diff_entries_recover_lines:
  "filter (\<lambda>l. l \<noteq> []) (concat (map old_side (diff_entries (split_on newline a) (split_on newline b))))
     = filter (\<lambda>l. l \<noteq> []) (split_on newline a) \<and>
   filter (\<lambda>l. l \<noteq> []) (concat (map new_side (diff_entries (split_on newline a) (split_on newline b))))
     = filter (\<lambda>l. l \<noteq> []) (split_on newline b)"
  by (simp add: diff_entries_old_side diff_entries_new_side)

text \<open>
  C27. Removing a trailing newline is invisible: the diff of \<open>x\<close> followed by a
  newline against \<open>x\<close> is the diff of a text against itself, since the missing
  last line reads as the empty string.
\<close>

theorem generate_diff_trailing_newline_invisible:
  "generate_diff (x @ [newline]) x = generate_diff (x @ [newline]) (x @ [newline])"
  by (simp add: generate_diff_render split_on_snoc_sep diff_entries_snoc_empty diff_entries_same)

text \<open>
  The spec's examples: the diff of the empty text against the two lines \<open>a\<close>, \<open>b\<close> adds
  \<open>a\<close> and \<open>b\<close>, and the diff of \<open>hi\<close> against \<open>bye\<close> removes \<open>hi\<close> and
  adds \<open>bye\<close>.
\<close>

lemma generate_diff_examples:
  "generate_diff [] (''a'' @ [newline] @ ''b'') = ''+ a'' @ [newline] @ ''+ b'' @ [newline] \<and>
   generate_diff ''hi'' ''bye'' = ''- hi'' @ [newline] @ ''+ bye'' @ [newline]"
  by (simp add: generate_diff_render line_entries_def)


lemma diff_entries_Nil_left: "diff_entries [] ns = concat (map (line_entries []) ns)"
  by (induction ns) simp_all

text \<open>
  C26. The diff of the empty text against a text \<open>t\<close> (the spec's test
  \<open>diff("", "a\nb")\<close>, in general): every non-empty line of \<open>t\<close> is added and every
  empty line shows as unchanged, since the empty old text is one empty line and the
  missing lines read as empty; a text without empty lines gives only added lines.
\<close>

theorem generate_diff_from_empty:
  "generate_diff [] t =
   concat (map (\<lambda>l. if l = [] then ''  '' @ [newline] else ''+ '' @ l @ [newline]) (split_on newline t))"
proof -
  obtain n ns where t: "split_on newline t = n # ns" by (cases "split_on newline t") simp_all
  have h: "concat (map render_entry (concat (map (line_entries []) xs))) =
            concat (map (\<lambda>l. if l = [] then ''  '' @ [newline] else ''+ '' @ l @ [newline]) xs)" for xs
    by (induction xs) (simp_all add: line_entries_def)
  have "generate_diff [] t = concat (map render_entry (concat (map (line_entries []) (n # ns))))"
    by (simp add: generate_diff_render t diff_entries_Nil_left)
  then show ?thesis by (simp only: h t)
qed

text \<open>
  C28. Size of the diff: the number of lines \<open>generateDiff\<close> prints lies between
  the larger line count of the two texts and twice that count.
\<close>

theorem generate_diff_line_bounds:
  "max (length (split_on newline a)) (length (split_on newline b))
     \<le> length (filter (\<lambda>ch. ch = newline) (generate_diff a b)) \<and>
   length (filter (\<lambda>ch. ch = newline) (generate_diff a b))
     \<le> 2 * max (length (split_on newline a)) (length (split_on newline b))"
proof -
  have nl: "\<forall>l \<in> set (split_on newline x). newline \<notin> set l" for x
    using split_on_no_sep by blast
  have "length (filter (\<lambda>ch. ch = newline) (generate_diff a b)) =
        length (diff_entries (split_on newline a) (split_on newline b))"
    unfolding generate_diff_render by (rule diff_entries_newlines [OF nl nl])
  with diff_entries_length [of "split_on newline a" "split_on newline b"] show ?thesis
    by (simp only:)
qed

end
