(* ===== verification/PathGuard.thy ===== *)
theory PathGuard
  imports Prelude
begin

text \<open>
  The path guard of \<open>src/filesystem/src/index.ts\<close>: \<open>isPathAllowed\<close> (lines 56--59)
  resolves its argument with Node's \<open>path.resolve\<close> and accepts it when the
  resolved string \<open>startsWith\<close> one of the allowed directories, themselves the
  command-line arguments passed through \<open>path.resolve\<close> (line 31).
  \<open>path.resolve\<close> and \<open>path.dirname\<close> belong to Node's POSIX path module, not to
  this repository; they are modelled from their published behaviour: a path is
  split on \<open>/\<close>, empty and \<open>.\<close> segments are dropped, \<open>..\<close> removes the last
  kept segment (never climbing above the root), and the result is \<open>/\<close> followed by
  the kept segments joined with \<open>/\<close>. The working directory \<open>process.cwd()\<close> is a
  parameter. Symbolic links are not resolved by \<open>path.resolve\<close>, so none are
  modelled.

  The spec's contract for the guard is a full-segment prefix test
  (\<open>segment_allowed\<close>); the code's test is a raw string prefix test. The lemmas
  characterise exactly which paths the code accepts, show that it accepts every
  path the contract accepts, and exhibit a sibling directory that it accepts
  and the contract rejects.
\<close>

type_synonym path = "string list"

subsection \<open>Node's path.resolve and path.dirname (POSIX)\<close>

text \<open>One segment of \<open>normalizeString\<close> with \<open>allowAboveRoot = false\<close>.\<close>

definition seg_step :: "path \<Rightarrow> string \<Rightarrow> path" where
  "seg_step res s =
     (if s = [] \<or> s = ''.'' then res
      else if s = ''..'' then butlast res
      else res @ [s])"

definition normalize_string :: "string \<Rightarrow> path" where
  "normalize_string p = foldl seg_step [] (split_on CHR ''/'' p)"

text \<open>The string form of a normalised absolute path: \<open>/\<close> and the joined segments.\<close>

definition render :: "path \<Rightarrow> string" where
  "render segs = CHR ''/'' # join_on CHR ''/'' segs"

text \<open>
  \<open>path.resolve(p)\<close> with one argument: an absolute \<open>p\<close> is normalised on its own,
  a relative one (or the empty string) after the working directory.
\<close>

definition resolve_segs :: "string \<Rightarrow> string \<Rightarrow> path" where
  "resolve_segs cwd p =
     (let tail = (if p = [] then [] else p @ ''/'')
      in if p \<noteq> [] \<and> hd p = CHR ''/'' then normalize_string tail
         else normalize_string (cwd @ ''/'' @ tail))"

definition resolve :: "string \<Rightarrow> string \<Rightarrow> string" where
  "resolve cwd p = render (resolve_segs cwd p)"

text \<open>
  \<open>path.dirname(p)\<close>: the loop scans from the last index down to index 1 for a
  slash that follows a non-slash character; trailing slashes are skipped.
\<close>

fun dirname_scan :: "string \<Rightarrow> nat \<Rightarrow> bool \<Rightarrow> nat option" where
  "dirname_scan p 0 matched_slash = None"
| "dirname_scan p (Suc i) matched_slash =
     (if p ! Suc i = CHR ''/'' then
        (if matched_slash then dirname_scan p i True else Some (Suc i))
      else dirname_scan p i False)"

definition dirname :: "string \<Rightarrow> string" where
  "dirname p =
     (if p = [] then ''.''
      else
        (let has_root = (hd p = CHR ''/'')
         in case dirname_scan p (length p - 1) True of
              None \<Rightarrow> (if has_root then ''/'' else ''.'')
            | Some e \<Rightarrow> (if has_root \<and> e = 1 then ''//'' else take e p)))"

subsection \<open>The guard\<close>

text \<open>\<open>allowedDirectories\<close>, line 31: the arguments, each resolved.\<close>

definition allowed_directories :: "string \<Rightarrow> string list \<Rightarrow> string list" where
  "allowed_directories cwd argv = map (resolve cwd) argv"

text \<open>\<open>isPathAllowed\<close>, lines 56--59.\<close>

definition is_path_allowed :: "string list \<Rightarrow> string \<Rightarrow> string \<Rightarrow> bool" where
  "is_path_allowed allowed cwd file_path =
     (let resolved_path = resolve cwd file_path
      in list_ex (\<lambda>dir. prefix dir resolved_path) allowed)"

text \<open>The spec's contract (section 4.1): a full-path-segment prefix match.\<close>

definition segment_allowed :: "string list \<Rightarrow> string \<Rightarrow> string \<Rightarrow> bool" where
  "segment_allowed allowed cwd file_path =
     list_ex (\<lambda>dir. prefix (normalize_string dir) (resolve_segs cwd file_path)) allowed"

text \<open>A segment as \<open>normalizeString\<close> keeps it.\<close>

definition wf_seg :: "string \<Rightarrow> bool" where
  "wf_seg s \<longleftrightarrow> s \<noteq> [] \<and> s \<noteq> ''.'' \<and> s \<noteq> ''..'' \<and> CHR ''/'' \<notin> set s"

definition wf_path :: "path \<Rightarrow> bool" where
  "wf_path segs \<longleftrightarrow> list_all wf_seg segs"

text \<open>The normal form of an absolute path string: the root, or \<open>/\<close> followed by
  well-formed segments.\<close>

definition normal_form :: "string \<Rightarrow> bool" where
  "normal_form s \<longleftrightarrow> s = ''/'' \<or> (hd s = CHR ''/'' \<and> list_all wf_seg (split_on CHR ''/'' (tl s)))"

subsection \<open>Normal forms\<close>

lemma wf_path_append [simp]: "wf_path (xs @ ys) \<longleftrightarrow> wf_path xs \<and> wf_path ys"
  by (simp add: wf_path_def)

lemma wf_path_Cons [simp]: "wf_path (x # xs) \<longleftrightarrow> wf_seg x \<and> wf_path xs"
  by (simp add: wf_path_def)

lemma wf_path_Nil [simp]: "wf_path []"
  by (simp add: wf_path_def)

lemma wf_path_butlast: "wf_path xs \<Longrightarrow> wf_path (butlast xs)"
  by (metis append_butlast_last_id butlast.simps(1) wf_path_append)

lemma wf_path_seg_step:
  "wf_path res \<Longrightarrow> CHR ''/'' \<notin> set s \<Longrightarrow> wf_path (seg_step res s)"
  by (auto simp: seg_step_def wf_seg_def wf_path_butlast)

lemma wf_path_foldl_seg_step:
  "wf_path res \<Longrightarrow> \<forall>s \<in> set ss. CHR ''/'' \<notin> set s \<Longrightarrow> wf_path (foldl seg_step res ss)"
  by (induction ss arbitrary: res) (simp_all add: wf_path_seg_step)

lemma wf_path_normalize_string [path_simps]: "wf_path (normalize_string p)"
  unfolding normalize_string_def
  by (rule wf_path_foldl_seg_step) (auto dest: split_on_no_sep)

lemma wf_path_resolve_segs [path_simps]: "wf_path (resolve_segs cwd p)"
  by (simp add: resolve_segs_def Let_def path_simps)

lemma foldl_seg_step_wf:
  "wf_path ss \<Longrightarrow> foldl seg_step res ss = res @ ss"
  by (induction ss arbitrary: res) (auto simp: seg_step_def wf_seg_def)

lemma wf_path_no_sep: "wf_path segs \<Longrightarrow> \<forall>p \<in> set segs. CHR ''/'' \<notin> set p"
  by (auto simp: wf_path_def wf_seg_def list_all_iff)

text \<open>Round trip: normalising the string form of a normal path gives it back.\<close>

lemma normalize_render [path_simps]:
  assumes "wf_path segs"
  shows "normalize_string (render segs) = segs"
proof (cases "segs = []")
  case True
  then show ?thesis by (simp add: normalize_string_def render_def seg_step_def)
next
  case False
  have "split_on CHR ''/'' (render segs) = [] # segs"
    using False assms by (simp add: render_def split_join_on wf_path_no_sep)
  with assms show ?thesis
    by (simp add: normalize_string_def seg_step_def foldl_seg_step_wf)
qed

lemma normalize_string_snoc_sep:
  "normalize_string (p @ ''/'') = normalize_string p"
  using split_on_append_sep [of "CHR ''/''" p "[]"]
  by (simp add: normalize_string_def seg_step_def)

lemma render_Cons_hd [simp]: "render segs \<noteq> [] \<and> hd (render segs) = CHR ''/''"
  by (simp add: render_def)

lemma resolve_segs_render [path_simps]:
  "wf_path segs \<Longrightarrow> resolve_segs cwd (render segs) = segs"
  by (simp add: resolve_segs_def normalize_string_snoc_sep normalize_render)

lemma resolve_segs_resolve [path_simps]:
  "resolve_segs cwd (resolve cwd p) = resolve_segs cwd p"
  by (simp add: resolve_def path_simps)

subsection \<open>What the string-prefix test accepts\<close>

text \<open>
  For normalised paths, a raw string prefix of the rendered form is: all but the
  last segment of the root agree with the path, and the root's last segment is a
  string prefix of the path's segment at that position.
\<close>

lemma prefix_join_on_iff:
  assumes "wf_path rs" "wf_path s"
  shows "prefix (join_on CHR ''/'' rs) (join_on CHR ''/'' s) \<longleftrightarrow>
    rs = [] \<or> (prefix (butlast rs) s \<and> length rs \<le> length s \<and>
                prefix (last rs) (s ! (length rs - 1)))"
  using assms
proof (induction rs arbitrary: s)
  case Nil
  then show ?case by simp
next
  case (Cons x xs)
  have x: "x \<noteq> []" "CHR ''/'' \<notin> set x" using Cons.prems by (auto simp: wf_seg_def)
  show ?case
  proof (cases s)
    case Nil
    with x show ?thesis by (simp add: join_on_Cons)
  next
    case (Cons y ys)
    have y: "CHR ''/'' \<notin> set y" using Cons Cons.prems by (auto simp: wf_seg_def)
    show ?thesis
    proof (cases "xs = []")
      case True
      with x Cons show ?thesis by (cases ys) (auto simp: join_on_Cons prefix_sep_free)
    next
      case False
      show ?thesis
      proof (cases "ys = []")
        case True
        with False x y Cons show ?thesis by (auto simp: join_on_Cons prefix_sep_Nil)
      next
        case ys: False
        have "prefix (join_on CHR ''/'' (x # xs)) (join_on CHR ''/'' s) \<longleftrightarrow>
              x = y \<and> prefix (join_on CHR ''/'' xs) (join_on CHR ''/'' ys)"
          using False ys x y Cons by (simp add: join_on_Cons prefix_sep_cancel)
        also have "\<dots> \<longleftrightarrow> x = y \<and> (prefix (butlast xs) ys \<and> length xs \<le> length ys \<and>
                prefix (last xs) (ys ! (length xs - 1)))"
          using Cons.IH [of ys] Cons.prems \<open>s = y # ys\<close> False by auto
        also have "\<dots> \<longleftrightarrow> prefix (butlast (x # xs)) s \<and> length (x # xs) \<le> length s \<and>
                prefix (last (x # xs)) (s ! (length (x # xs) - 1))"
          using False \<open>s = y # ys\<close> by (cases xs) auto
        finally show ?thesis by simp
      qed
    qed
  qed
qed

lemma prefix_render_iff:
  assumes "wf_path rs" "wf_path s"
  shows "prefix (render rs) (render s) \<longleftrightarrow>
    rs = [] \<or> (prefix (butlast rs) s \<and> length rs \<le> length s \<and>
                prefix (last rs) (s ! (length rs - 1)))"
  using prefix_join_on_iff [OF assms] by (simp add: render_def)

lemma join_on_snoc_append:
  "join_on c (ys @ [a]) @ x = join_on c (ys @ [a @ x])"
  by (induction ys) (simp_all add: join_on_Cons)

lemma render_append_last:
  "rs \<noteq> [] \<Longrightarrow> render rs @ x = render (butlast rs @ [last rs @ x])"
  using join_on_snoc_append [of "CHR ''/''" "butlast rs" "last rs" x]
  by (simp add: render_def)

lemma list_ex_allowed_directories:
  "list_ex P (allowed_directories cwd argv) \<longleftrightarrow> (\<exists>d \<in> set argv. P (resolve cwd d))"
  by (simp add: allowed_directories_def list_ex_iff)

lemma segment_allowed_resolved:
  "segment_allowed (allowed_directories cwd argv) cwd p \<longleftrightarrow>
     (\<exists>d \<in> set argv. prefix (resolve_segs cwd d) (resolve_segs cwd p))"
  by (simp add: segment_allowed_def list_ex_allowed_directories resolve_def path_simps)

lemma prefix_render_append: "prefix (render xs) (render (xs @ ys))"
  by (cases "xs = [] \<or> ys = []") (auto simp: render_def join_on_append)

subsection \<open>Properties of the guard\<close>

text \<open>
  C8. The exact acceptance condition of \<open>isPathAllowed\<close>: a path is accepted iff
  for some argument directory \<open>d\<close>, with both resolved to segment lists, \<open>d\<close>
  is the root, or all of \<open>d\<close>'s segments but the last are the leading segments of
  the path and \<open>d\<close>'s last segment is a string prefix of the path's segment at
  that position.
\<close>

theorem is_path_allowed_iff:
  "is_path_allowed (allowed_directories cwd argv) cwd p \<longleftrightarrow>
     (\<exists>d \<in> set argv.
        let rs = resolve_segs cwd d; s = resolve_segs cwd p
        in rs = [] \<or> (prefix (butlast rs) s \<and> length rs \<le> length s \<and>
                      prefix (last rs) (s ! (length rs - 1))))"
  by (simp add: is_path_allowed_def list_ex_allowed_directories resolve_def Let_def
      prefix_render_iff path_simps)

text \<open>
  C7. The guard accepts sibling directories: for an allowed directory \<open>/\<dots>/a\<close>
  the path \<open>/\<dots>/ax\<close> (a different directory whose name extends \<open>a\<close>) is
  accepted by \<open>isPathAllowed\<close>, although the spec's full-segment match rejects it.
\<close>

theorem sibling_directory_accepted:
  assumes "wf_path rs" "rs \<noteq> []" "x \<noteq> []" "wf_seg (last rs @ x)"
  shows "is_path_allowed [render rs] cwd (render rs @ x) \<and>
         \<not> segment_allowed [render rs] cwd (render rs @ x)"
proof -
  let ?s = "butlast rs @ [last rs @ x]"
  have wf: "wf_path ?s" using assms by (simp add: wf_path_butlast)
  have eq: "resolve_segs cwd (render rs @ x) = ?s"
    using assms wf by (simp add: render_append_last path_simps)
  have len: "length ?s = length rs" using assms by simp
  have "render ?s = render rs @ x" using assms by (simp add: render_append_last)
  then have "prefix (render rs) (render ?s)" by simp
  moreover have "\<not> prefix rs ?s"
  proof
    assume "prefix rs ?s"
    with len have "rs = ?s" by (metis prefix_length_le prefix_length_prefix prefix_order.eq_iff prefix_order.order_refl)
    then have "last rs = last rs @ x" by (metis last_snoc)
    with assms(3) show False by simp
  qed
  ultimately show ?thesis
    using assms eq by (simp add: is_path_allowed_def segment_allowed_def resolve_def path_simps)
qed

lemma sibling_directory_accepted_witness:
  "is_path_allowed [''/home/alice''] ''/'' ''/home/alice-evil'' \<and>
   \<not> segment_allowed [''/home/alice''] ''/'' ''/home/alice-evil''"
proof -
  have "is_path_allowed [render [''home'', ''alice'']] ''/'' (render [''home'', ''alice''] @ ''-evil'') \<and>
        \<not> segment_allowed [render [''home'', ''alice'']] ''/'' (render [''home'', ''alice''] @ ''-evil'')"
    by (rule sibling_directory_accepted) (simp_all add: wf_seg_def)
  then show ?thesis by (simp add: render_def)
qed

text \<open>
  C9. The guard is never stricter than the spec: every path inside an allowed
  directory in the sense of full path segments (after \<open>.\<close> and \<open>..\<close> are
  resolved) is accepted by \<open>isPathAllowed\<close>.
\<close>

theorem segment_allowed_imp_is_path_allowed:
  assumes "segment_allowed (allowed_directories cwd argv) cwd p"
  shows "is_path_allowed (allowed_directories cwd argv) cwd p"
proof -
  from assms obtain d where d: "d \<in> set argv"
    and pre: "prefix (resolve_segs cwd d) (resolve_segs cwd p)"
    by (auto simp: segment_allowed_resolved)
  then have "prefix (render (resolve_segs cwd d)) (render (resolve_segs cwd p))"
    by (metis prefix_def prefix_render_append)
  with d show ?thesis
    by (auto simp: is_path_allowed_def list_ex_allowed_directories resolve_def)
qed

lemma segment_allowed_imp_is_path_allowed_witness:
  "is_path_allowed (allowed_directories ''/'' [''/sandbox'']) ''/'' ''/sandbox/a/../b.txt''"
proof -
  have h: "segment_allowed (allowed_directories ''/'' [''/sandbox'']) ''/'' ''/sandbox/a/../b.txt''"
    by (simp add: segment_allowed_def allowed_directories_def resolve_def resolve_segs_def
        normalize_string_def seg_step_def render_def)
  show ?thesis by (rule segment_allowed_imp_is_path_allowed [OF h])
qed

text \<open>
  Resolving is idempotent: a path already produced by \<open>path.resolve\<close> is its
  own resolution, so the guard and the file-system calls see the same path.
\<close>

lemma resolve_idempotent: "resolve cwd (resolve cwd p) = resolve cwd p"
  by (simp add: resolve_def path_simps)


lemma normal_form_resolve: "normal_form (resolve c p)"
proof (cases "resolve_segs c p = []")
  case True
  then show ?thesis by (simp add: normal_form_def resolve_def render_def)
next
  case False
  have "wf_path (resolve_segs c p)" by (rule wf_path_resolve_segs)
  moreover from this have "split_on CHR ''/'' (join_on CHR ''/'' (resolve_segs c p)) = resolve_segs c p"
    using False by (intro split_join_on) (auto dest: wf_path_no_sep)
  ultimately show ?thesis by (simp add: normal_form_def resolve_def render_def wf_path_def)
qed

text \<open>
  Both sides of the guard's comparison are in normal form: \<open>path.resolve\<close>
  yields the root \<open>/\<close> or \<open>/\<close> followed by segments that are non-empty, free of
  \<open>/\<close> and neither \<open>.\<close> nor \<open>..\<close>, and so does every allowed directory.
\<close>

lemma resolve_normal_form:
  "normal_form (resolve c p) \<and> list_all normal_form (allowed_directories c argv)"
  by (simp add: normal_form_resolve allowed_directories_def list_all_iff)

end
