(* ===== verification/HostFs.thy ===== *)
theory HostFs
  imports PathGuard
begin

text \<open>
  The host file system that the handlers of \<open>src/filesystem/src/index.ts\<close> call
  through \<open>fs/promises\<close> and \<open>existsSync\<close>. It is not code of this repository; it
  is modelled from the POSIX and Node.js semantics of the calls the code makes.
  The store is an association list from absolute paths (segment lists) to nodes,
  a plain file with its text or a directory; the root \<open>[]\<close> is a directory.
  Symbolic links, permissions and timestamps are not modelled.

  Path strings are resolved the way the kernel does it (\<open>walk\<close>): component
  by component from the root or the working directory, where every component
  that is followed by another one must exist as a directory; \<open>..\<close> goes to the
  parent. Unlike \<open>path.resolve\<close>, this fails on a missing intermediate
  component, but where it succeeds it yields the lexical resolution
  (\<open>fs_path_resolve_segs\<close>). A path ending in \<open>/\<close> or \<open>/.\<close> after a named
  component must name a directory (\<open>dir_suffix\<close>).

  \<open>fs.mkdir(p, {recursive: true})\<close> is Node's \<open>MKDirp\<close> algorithm on the raw
  string: try \<open>mkdir(p)\<close>; on ENOENT create the string before the last \<open>/\<close>
  first and try again; on EEXIST accept an existing directory. The retry after
  the parent was created is taken once (\<open>mkdir_retry\<close>): the parent then exists
  as a directory, so the retried call cannot fail with ENOENT again. A failure
  returns the error with the store reached so far: the directories made before it
  are not removed.

  The lemmas give the frame of each call (what it may change), read-after-write,
  the invariant \<open>wf_fs\<close> of the store and its preservation by every call that
  changes the store, and the postcondition of the recursive \<open>mkdir\<close>.
\<close>

datatype node = File string | Dir

type_synonym fs = "(path \<times> node) list"

datatype fs_error = ENOENT | ENOTDIR | EISDIR | EEXIST | EINVAL | EBUSY | ENOTEMPTY

definition lookup :: "fs \<Rightarrow> path \<Rightarrow> node option" where
  "lookup st = map_of st"

definition fs_put :: "path \<Rightarrow> node \<Rightarrow> fs \<Rightarrow> fs" where
  "fs_put k n st = AList.update k n st"

subsection \<open>Path resolution by the kernel\<close>

fun walk :: "fs \<Rightarrow> path \<Rightarrow> string list \<Rightarrow> fs_error + path" where
  "walk st cur [] = Inr cur"
| "walk st cur (s # rest) =
     (if s = [] \<or> s = ''.'' then walk st cur rest
      else
        (let nxt = (if s = ''..'' then butlast cur else cur @ [s])
         in if list_all (\<lambda>r. r = [] \<or> r = ''.'') rest then Inr nxt
            else (case lookup st nxt of
                    Some Dir \<Rightarrow> walk st nxt rest
                  | Some (File _) \<Rightarrow> Inl ENOTDIR
                  | None \<Rightarrow> Inl ENOENT)))"

text \<open>The walk of a path string, relative ones from the working directory.\<close>

definition fs_walk :: "fs \<Rightarrow> string \<Rightarrow> string \<Rightarrow> fs_error + path" where
  "fs_walk st cwd p =
     (if p = [] then Inl ENOENT
      else walk st (if hd p = CHR ''/'' then [] else normalize_string cwd) (split_on CHR ''/'' p))"

text \<open>The empty and \<open>.\<close> components after the last named one. A path that ends in
  \<open>/\<close> or \<open>/.\<close> after a named component names a directory: the kernel refuses a
  file there (ENOTDIR), and a \<open>.\<close> requires the directory to exist (ENOENT).\<close>

definition trailing_segs :: "string \<Rightarrow> string list" where
  "trailing_segs p = takeWhile (\<lambda>r. r = [] \<or> r = ''.'') (rev (split_on CHR ''/'' p))"

definition dir_suffix :: "string \<Rightarrow> bool" where
  "dir_suffix p \<longleftrightarrow>
     trailing_segs p \<noteq> [] \<and> \<not> list_all (\<lambda>r. r = [] \<or> r = ''.'') (split_on CHR ''/'' p)"

text \<open>The target of a path string.\<close>

definition fs_path :: "fs \<Rightarrow> string \<Rightarrow> string \<Rightarrow> fs_error + path" where
  "fs_path st cwd p =
     (case fs_walk st cwd p of
        Inl e \<Rightarrow> Inl e
      | Inr t \<Rightarrow>
          (if \<not> dir_suffix p then Inr t
           else (case lookup st t of
                   Some (File _) \<Rightarrow> Inl ENOTDIR
                 | Some Dir \<Rightarrow> Inr t
                 | None \<Rightarrow> (if ''.'' \<in> set (trailing_segs p) then Inl ENOENT else Inr t))))"

subsection \<open>The calls\<close>

text \<open>\<open>fs.readFile(p, 'utf8')\<close>.\<close>

definition fs_read_file :: "fs \<Rightarrow> string \<Rightarrow> string \<Rightarrow> fs_error + string" where
  "fs_read_file st cwd p =
     (case fs_path st cwd p of
        Inl e \<Rightarrow> Inl e
      | Inr t \<Rightarrow> (case lookup st t of
                   None \<Rightarrow> Inl ENOENT
                 | Some Dir \<Rightarrow> Inl EISDIR
                 | Some (File c) \<Rightarrow> Inr c))"

text \<open>\<open>fs.writeFile(p, content)\<close>: creates or truncates a plain file; a new file
  cannot be named with a trailing \<open>/\<close> (EISDIR).\<close>

definition fs_write_file :: "fs \<Rightarrow> string \<Rightarrow> string \<Rightarrow> string \<Rightarrow> fs_error + fs" where
  "fs_write_file st cwd p content =
     (case fs_path st cwd p of
        Inl e \<Rightarrow> Inl e
      | Inr t \<Rightarrow>
          (if t = [] \<or> lookup st t = Some Dir then Inl EISDIR
           else if lookup st (butlast t) \<noteq> Some Dir then Inl ENOENT
           else if dir_suffix p then Inl EISDIR
           else Inr (fs_put t (File content) st)))"

text \<open>One \<open>mkdir(2)\<close> call.\<close>

definition mkdir_once :: "fs \<Rightarrow> string \<Rightarrow> string \<Rightarrow> fs_error + fs" where
  "mkdir_once st cwd p =
     (case fs_path st cwd p of
        Inl e \<Rightarrow> Inl e
      | Inr t \<Rightarrow>
          (if t = [] \<or> lookup st t \<noteq> None then Inl EEXIST
           else if lookup st (butlast t) \<noteq> Some Dir then Inl ENOENT
           else Inr (fs_put t Dir st)))"

text \<open>\<open>stat\<close> of a path, as \<open>MKDirp\<close> uses it to accept an existing directory.\<close>

definition fs_stat :: "fs \<Rightarrow> string \<Rightarrow> string \<Rightarrow> fs_error + node" where
  "fs_stat st cwd p =
     (case fs_path st cwd p of
        Inl e \<Rightarrow> Inl e
      | Inr t \<Rightarrow> (case lookup st t of None \<Rightarrow> Inl ENOENT | Some n \<Rightarrow> Inr n))"

text \<open>The outcome of the recursive \<open>mkdir\<close>: the store it leaves, with the error
  when it fails. A failure does not undo the directories made before it.\<close>

type_synonym mkdir_result = "(fs_error \<times> fs) + fs"

definition mkdir_store :: "mkdir_result \<Rightarrow> fs" where
  "mkdir_store r = (case r of Inl (e, st) \<Rightarrow> st | Inr st \<Rightarrow> st)"

definition mkdirp_exists :: "fs \<Rightarrow> string \<Rightarrow> string \<Rightarrow> bool \<Rightarrow> fs_error \<Rightarrow> mkdir_result" where
  "mkdirp_exists st cwd p outermost orig =
     (case fs_stat st cwd p of
        Inl e \<Rightarrow> Inl (e, st)
      | Inr Dir \<Rightarrow> Inr st
      | Inr (File _) \<Rightarrow> Inl (if orig = EEXIST \<and> \<not> outermost then ENOTDIR else EEXIST, st))"

definition mkdir_retry :: "fs \<Rightarrow> string \<Rightarrow> string \<Rightarrow> bool \<Rightarrow> mkdir_result" where
  "mkdir_retry st cwd p outermost =
     (case mkdir_once st cwd p of
        Inr st' \<Rightarrow> Inr st'
      | Inl e \<Rightarrow> (if e = ENOENT \<or> e = ENOTDIR then Inl (e, st) else mkdirp_exists st cwd p outermost e))"

text \<open>The index of the last \<open>/\<close> of a string.\<close>

definition last_slash :: "string \<Rightarrow> nat option" where
  "last_slash p =
     (let k = length (takeWhile (\<lambda>c. c \<noteq> CHR ''/'') (rev p))
      in if k < length p then Some (length p - 1 - k) else None)"

function mkdirp :: "fs \<Rightarrow> string \<Rightarrow> string \<Rightarrow> bool \<Rightarrow> mkdir_result" where
  "mkdirp st cwd p outermost =
     (case mkdir_once st cwd p of
        Inr st' \<Rightarrow> Inr st'
      | Inl e \<Rightarrow>
          (if e = ENOENT then
             (case last_slash p of
                None \<Rightarrow> (if outermost then mkdirp_exists st cwd p outermost EEXIST else Inr st)
              | Some i \<Rightarrow>
                  (case mkdirp st cwd (take i p) False of
                     Inl r \<Rightarrow> Inl r
                   | Inr st2 \<Rightarrow> mkdir_retry st2 cwd p outermost))
           else if e = ENOTDIR then Inl (e, st)
           else mkdirp_exists st cwd p outermost e))"
  by pat_completeness auto
termination
  by (relation "measure (\<lambda>(st, cwd, p, outermost). length p)")
     (auto simp: last_slash_def Let_def split: if_splits)

declare mkdirp.simps [simp del]

text \<open>\<open>fs.mkdir(p, {recursive: true})\<close>.\<close>

definition fs_mkdir_recursive :: "fs \<Rightarrow> string \<Rightarrow> string \<Rightarrow> mkdir_result" where
  "fs_mkdir_recursive st cwd p = mkdirp st cwd p True"

text \<open>\<open>existsSync(p)\<close>.\<close>

definition fs_exists :: "fs \<Rightarrow> string \<Rightarrow> string \<Rightarrow> bool" where
  "fs_exists st cwd p =
     (case fs_path st cwd p of Inl e \<Rightarrow> False | Inr t \<Rightarrow> lookup st t \<noteq> None)"

text \<open>
  \<open>fs.rename(src, dst)\<close> is \<open>rename(2)\<close>: every entry at or below the source
  moves below the destination. An existing destination is replaced, a file by a
  file or a directory by a directory that must be empty (\<open>ENOTEMPTY\<close>); a file
  does not replace a directory (\<open>EISDIR\<close>) nor a directory a file
  (\<open>ENOTDIR\<close>), and a file is not moved to a name with a trailing \<open>/\<close>
  (\<open>ENOTDIR\<close>). The \<open>move_file\<close> handler checks the destination with
  \<open>existsSync\<close> first, but that check can be bypassed.
\<close>

definition remove_entry :: "path \<Rightarrow> fs \<Rightarrow> fs" where
  "remove_entry d st = filter (\<lambda>(k, n). k \<noteq> d) st"

definition has_children :: "fs \<Rightarrow> path \<Rightarrow> bool" where
  "has_children st d = list_ex (\<lambda>(k, n). k \<noteq> [] \<and> butlast k = d) st"

definition move_entries :: "path \<Rightarrow> path \<Rightarrow> fs \<Rightarrow> fs" where
  "move_entries src dst st =
     map (\<lambda>(k, n). if prefix src k then (dst @ drop (length src) k, n) else (k, n)) st"

definition fs_rename :: "fs \<Rightarrow> string \<Rightarrow> string \<Rightarrow> string \<Rightarrow> fs_error + fs" where
  "fs_rename st cwd src dst =
     (case (fs_path st cwd src, fs_path st cwd dst) of
        (Inl e, _) \<Rightarrow> Inl e
      | (_, Inl e) \<Rightarrow> Inl e
      | (Inr s, Inr d) \<Rightarrow>
          (if lookup st s = None then Inl ENOENT
           else if dir_suffix dst \<and> lookup st s \<noteq> Some Dir then Inl ENOTDIR
           else if s = [] \<or> d = [] then Inl EBUSY
           else if lookup st (butlast d) \<noteq> Some Dir then Inl ENOENT
           else if s = d then Inr st
           else if strict_prefix s d then Inl EINVAL
           else (case (lookup st s, lookup st d) of
                   (_, None) \<Rightarrow> Inr (move_entries s d st)
                 | (Some (File _), Some (File _)) \<Rightarrow> Inr (move_entries s d (remove_entry d st))
                 | (Some Dir, Some Dir) \<Rightarrow>
                     (if has_children st d then Inl ENOTEMPTY
                      else Inr (move_entries s d (remove_entry d st)))
                 | (Some Dir, Some (File _)) \<Rightarrow> Inl ENOTDIR
                 | (_, Some _) \<Rightarrow> Inl EISDIR)))"

text \<open>\<open>fs.readdir(p, {withFileTypes: true})\<close>: names and whether each is a directory.\<close>

definition fs_readdir :: "fs \<Rightarrow> string \<Rightarrow> string \<Rightarrow> fs_error + (string \<times> bool) list" where
  "fs_readdir st cwd p =
     (case fs_path st cwd p of
        Inl e \<Rightarrow> Inl e
      | Inr t \<Rightarrow>
          (case lookup st t of
             None \<Rightarrow> Inl ENOENT
           | Some (File _) \<Rightarrow> Inl ENOTDIR
           | Some Dir \<Rightarrow>
               Inr (map (\<lambda>(k, n). (last k, n = Dir))
                      (filter (\<lambda>(k, n). k \<noteq> [] \<and> butlast k = t) st))))"

subsection \<open>Frames of the calls\<close>

text \<open>A store that differs from another only by new directories.\<close>

definition grows_dirs :: "fs \<Rightarrow> fs \<Rightarrow> bool" where
  "grows_dirs st st' \<longleftrightarrow>
     (\<forall>q. lookup st' q \<noteq> lookup st q \<longrightarrow> lookup st q = None \<and> lookup st' q = Some Dir)"

text \<open>Well-formed stores: one entry per path, the root is a directory, and the parent
  of every other entry is a directory.\<close>

definition wf_fs :: "fs \<Rightarrow> bool" where
  "wf_fs st \<longleftrightarrow>
     distinct (map fst st) \<and> lookup st [] = Some Dir \<and>
     list_all (\<lambda>(k, n). k = [] \<or> lookup st (butlast k) = Some Dir) st"

lemma lookup_fs_put [fs_simps]: "lookup (fs_put k n st) q = (if q = k then Some n else lookup st q)"
  by (simp add: lookup_def fs_put_def update_conv')

lemma seg_step_trivial: "s = [] \<or> s = ''.'' \<Longrightarrow> seg_step cur s = cur"
  by (auto simp: seg_step_def)

lemma foldl_seg_step_trivial:
  "list_all (\<lambda>r. r = [] \<or> r = ''.'') rs \<Longrightarrow> foldl seg_step cur rs = cur"
  by (induction rs arbitrary: cur) (auto simp: seg_step_trivial)

lemma walk_foldl: "walk st cur ss = Inr t \<Longrightarrow> t = foldl seg_step cur ss"
proof (induction st cur ss rule: walk.induct)
  case (1 st cur)
  then show ?case by simp
next
  case (2 st cur s rest)
  let ?nxt = "if s = ''..'' then butlast cur else cur @ [s]"
  show ?case
  proof (cases "s = [] \<or> s = ''.''")
    case True
    with 2 show ?thesis by (simp add: seg_step_trivial)
  next
    case False
    then have step: "seg_step cur s = ?nxt" by (auto simp: seg_step_def)
    show ?thesis
    proof (cases "list_all (\<lambda>r. r = [] \<or> r = ''.'') rest")
      case True
      with False "2.prems" step show ?thesis by (simp add: foldl_seg_step_trivial)
    next
      case rest: False
      with False "2.prems" have d: "lookup st ?nxt = Some Dir" and w: "walk st ?nxt rest = Inr t"
        by (cases "s = ''..''"; auto simp: Let_def split: option.splits node.splits)+
      have "t = foldl seg_step ?nxt rest"
        using "2.IH"(2) [OF False refl rest d refl w] .
      with step show ?thesis by simp
    qed
  qed
qed

lemma normalize_string_append_sep:
  "normalize_string (a @ CHR ''/'' # b) = foldl seg_step (normalize_string a) (split_on CHR ''/'' b)"
  by (simp add: normalize_string_def split_on_append_sep)

lemma fs_path_walk: "fs_path st cwd p = Inr t \<Longrightarrow> fs_walk st cwd p = Inr t"
  by (auto simp: fs_path_def split: sum.splits if_splits option.splits node.splits)

lemma fs_path_no_suffix: "\<not> dir_suffix p \<Longrightarrow> fs_path st cwd p = fs_walk st cwd p"
  by (simp add: fs_path_def split: sum.splits)

lemma fs_path_dir: "fs_walk st cwd p = Inr t \<Longrightarrow> lookup st t = Some Dir \<Longrightarrow> fs_path st cwd p = Inr t"
  by (simp add: fs_path_def)

lemma fs_path_file_no_suffix:
  "fs_path st cwd p = Inr t \<Longrightarrow> lookup st t = Some (File c) \<Longrightarrow> \<not> dir_suffix p"
  by (auto simp: fs_path_def split: sum.splits if_splits option.splits node.splits)

lemma dir_suffix_named_last:
  "\<not> (last (split_on CHR ''/'' p) = [] \<or> last (split_on CHR ''/'' p) = ''.'') \<Longrightarrow> \<not> dir_suffix p"
  by (simp add: dir_suffix_def trailing_segs_def takeWhile_eq_Nil_iff hd_rev)

lemma dir_suffix_free: "CHR ''/'' \<notin> set q \<Longrightarrow> \<not> dir_suffix q"
  by (simp add: dir_suffix_def trailing_segs_def)

lemma dir_suffix_root_child: "CHR ''/'' \<notin> set name \<Longrightarrow> \<not> dir_suffix (CHR ''/'' # name)"
  by (simp add: dir_suffix_def trailing_segs_def)

lemma fs_walk_resolve_segs:
  assumes "fs_walk st cwd p = Inr t"
  shows "t = resolve_segs cwd p"
proof -
  have p: "p \<noteq> []" using assms by (auto simp: fs_walk_def split: if_splits)
  show ?thesis
  proof (cases "hd p = CHR ''/''")
    case True
    with assms p have "t = foldl seg_step [] (split_on CHR ''/'' p)"
      by (auto simp: fs_walk_def dest: walk_foldl)
    moreover have "resolve_segs cwd p = normalize_string p"
      using True p by (simp add: resolve_segs_def normalize_string_snoc_sep)
    ultimately show ?thesis by (simp add: normalize_string_def)
  next
    case False
    with assms p have "t = foldl seg_step (normalize_string cwd) (split_on CHR ''/'' p)"
      by (auto simp: fs_walk_def dest: walk_foldl)
    moreover have "resolve_segs cwd p = normalize_string (cwd @ CHR ''/'' # p)"
      using False p normalize_string_snoc_sep [of "cwd @ CHR ''/'' # p"]
      by (simp add: resolve_segs_def)
    ultimately show ?thesis by (simp add: normalize_string_append_sep)
  qed
qed

lemma fs_path_resolve_segs: "fs_path st cwd p = Inr t \<Longrightarrow> t = resolve_segs cwd p"
  by (rule fs_walk_resolve_segs [OF fs_path_walk])


lemma grows_dirs_refl [intro]: "grows_dirs st st"
  by (simp add: grows_dirs_def)

lemma grows_dirs_trans [trans]: "grows_dirs st1 st2 \<Longrightarrow> grows_dirs st2 st3 \<Longrightarrow> grows_dirs st1 st3"
  unfolding grows_dirs_def by (metis option.distinct(1))

lemma mkdir_once_grows: "mkdir_once st cwd p = Inr st' \<Longrightarrow> grows_dirs st st'"
  by (auto simp: mkdir_once_def grows_dirs_def fs_simps split: sum.splits if_splits)

lemma mkdir_store_simps [simp]: "mkdir_store (Inl (e, st)) = st" "mkdir_store (Inr st) = st"
  by (simp_all add: mkdir_store_def)

lemma mkdirp_exists_same: "mkdir_store (mkdirp_exists st cwd p b e) = st"
  by (auto simp: mkdirp_exists_def split: sum.splits node.splits)

text \<open>A relation that holds between a store and the store a recursive \<open>mkdir\<close>
  leaves holds on both of its outcomes.\<close>

lemma mkdir_result_rel:
  assumes "R st (mkdir_store r)"
  shows "r = Inr st' \<Longrightarrow> R st st'" "r = Inl (e, st') \<Longrightarrow> R st st'"
  using assms by simp_all

lemma mkdirp_exists_stores:
  "mkdirp_exists st cwd p b e = Inr st' \<Longrightarrow> st' = st"
  "mkdirp_exists st cwd p b e = Inl (e', st') \<Longrightarrow> st' = st"
  using mkdirp_exists_same [of st cwd p b e] by simp_all

text \<open>A relation that contains every \<open>mkdir(2)\<close> call relates the store before the
  recursive \<open>mkdir\<close> to the store it leaves, whether it succeeds or fails.\<close>

lemma mkdirp_rel:
  assumes refl: "\<And>st. R st st" and trans: "\<And>a b c. R a b \<Longrightarrow> R b c \<Longrightarrow> R a c"
    and once: "\<And>st cwd p st'. mkdir_once st cwd p = Inr st' \<Longrightarrow> R st st'"
  shows "R st (mkdir_store (mkdirp st cwd p b))"
proof (induction st cwd p b rule: mkdirp.induct)
  case (1 st cwd p b)
  have retry: "R st2 (mkdir_store (mkdir_retry st2 cwd p b))" for st2
    by (auto simp: mkdir_retry_def mkdirp_exists_same refl dest: once split: sum.splits)
  show ?case
  proof (cases "mkdir_once st cwd p")
    case (Inr st1)
    then show ?thesis by (simp add: mkdirp.simps [of st cwd p b] once)
  next
    case (Inl e)
    show ?thesis
    proof (cases "e = ENOENT \<and> last_slash p \<noteq> None")
      case True
      then obtain i where i: "last_slash p = Some i" by auto
      have ih: "R st (mkdir_store (mkdirp st cwd (take i p) False))"
        using "1.IH" [OF Inl _ i] True by simp
      show ?thesis
      proof (cases "mkdirp st cwd (take i p) False")
        case (Inl r)
        with ih \<open>mkdir_once st cwd p = Inl e\<close> True i show ?thesis
          by (simp add: mkdirp.simps [of st cwd p b])
      next
        case (Inr st2)
        with ih have "R st st2" by simp
        with Inr \<open>mkdir_once st cwd p = Inl e\<close> True i retry [of st2] show ?thesis
          by (simp add: mkdirp.simps [of st cwd p b] trans)
      qed
    next
      case False
      with Inl show ?thesis
        by (auto simp: mkdirp.simps [of st cwd p b] mkdirp_exists_same refl)
    qed
  qed
qed

lemma mkdirp_store_grows: "grows_dirs st (mkdir_store (mkdirp st cwd p b))"
  by (rule mkdirp_rel [where R = grows_dirs]) (auto intro: grows_dirs_trans mkdir_once_grows)

lemma mkdirp_grows: "mkdirp st cwd p b = Inr st' \<Longrightarrow> grows_dirs st st'"
  using mkdirp_store_grows [of st cwd p b] by simp

lemma fs_write_file_changes:
  "fs_write_file st cwd p c = Inr st' \<Longrightarrow> lookup st' q \<noteq> lookup st q \<Longrightarrow> q = resolve_segs cwd p"
  by (auto simp: fs_write_file_def fs_simps dest: fs_path_resolve_segs split: sum.splits if_splits)

lemma lookup_move_entries:
  "lookup (move_entries s d st) q \<noteq> lookup st q \<Longrightarrow> prefix s q \<or> prefix d q"
proof (induction st)
  case Nil
  then show ?case by (simp add: move_entries_def lookup_def)
next
  case (Cons kn st)
  obtain k n where kn: "kn = (k, n)" by (cases kn)
  show ?case
  proof (cases "prefix s k")
    case True
    with Cons kn show ?thesis
      by (auto simp: move_entries_def lookup_def split: if_splits)
  next
    case False
    with Cons kn show ?thesis
      by (auto simp: move_entries_def lookup_def split: if_splits)
  qed
qed

lemma lookup_remove_entry: "lookup (remove_entry d st) q = (if q = d then None else lookup st q)"
  by (induction st) (auto simp: lookup_def remove_entry_def)

lemma fs_rename_changes:
  assumes "fs_rename st cwd src dst = Inr st'" "lookup st' q \<noteq> lookup st q"
  shows "prefix (resolve_segs cwd src) q \<or> prefix (resolve_segs cwd dst) q"
proof -
  from assms(1) obtain s d where s: "fs_path st cwd src = Inr s" and d: "fs_path st cwd dst = Inr d"
    by (auto simp: fs_rename_def split: sum.splits)
  have "st' = st \<or> st' = move_entries s d st \<or> st' = move_entries s d (remove_entry d st)"
    using assms(1) s d
    by (auto simp: fs_rename_def split: if_splits option.splits node.splits)
  then have "prefix s q \<or> prefix d q"
  proof (elim disjE)
    assume "st' = move_entries s d (remove_entry d st)"
    with assms(2) show ?thesis
      by (metis lookup_remove_entry lookup_move_entries prefix_order.refl)
  qed (use assms(2) lookup_move_entries in auto)
  with fs_path_resolve_segs [OF s] fs_path_resolve_segs [OF d] show ?thesis by simp
qed

lemma walk_mono:
  "walk st cur ss = Inr t \<Longrightarrow> (\<forall>q. lookup st q = Some Dir \<longrightarrow> lookup st' q = Some Dir) \<Longrightarrow>
   walk st' cur ss = Inr t"
proof (induction st cur ss rule: walk.induct)
  case (2 st cur s rest)
  then show ?case
    by (auto simp: Let_def split: if_splits option.splits node.splits)
qed simp

lemma fs_walk_mono:
  "fs_walk st cwd p = Inr t \<Longrightarrow> (\<forall>q. lookup st q = Some Dir \<longrightarrow> lookup st' q = Some Dir) \<Longrightarrow>
   fs_walk st' cwd p = Inr t"
  by (auto simp: fs_walk_def intro: walk_mono split: if_splits)

text \<open>A store that keeps the directories resolves a path to the same target, when the
  target of a path with a trailing \<open>/\<close> is a directory or is unchanged.\<close>

lemma fs_path_mono:
  assumes "fs_path st cwd p = Inr t" "\<forall>q. lookup st q = Some Dir \<longrightarrow> lookup st' q = Some Dir"
    and "dir_suffix p \<Longrightarrow> lookup st' t = Some Dir \<or> lookup st' t = lookup st t"
  shows "fs_path st' cwd p = Inr t"
proof -
  have "fs_walk st' cwd p = Inr t" using fs_walk_mono [OF fs_path_walk [OF assms(1)] assms(2)] .
  with assms show ?thesis
    by (auto simp: fs_path_def split: sum.splits if_splits option.splits node.splits)
qed

lemma fs_write_file_no_suffix: "fs_write_file st cwd p c = Inr st' \<Longrightarrow> \<not> dir_suffix p"
  by (auto simp: fs_write_file_def split: sum.splits if_splits)

lemma fs_read_after_write:
  assumes "fs_write_file st cwd p c = Inr st'"
  shows "fs_read_file st' cwd p = Inr c"
proof -
  from assms obtain t where t: "fs_path st cwd p = Inr t" and nd: "lookup st t \<noteq> Some Dir"
    and st': "st' = fs_put t (File c) st"
    by (auto simp: fs_write_file_def split: sum.splits if_splits)
  have "fs_path st' cwd p = Inr t"
    using t by (rule fs_path_mono) (use nd st' fs_write_file_no_suffix [OF assms] in \<open>auto simp: fs_simps\<close>)
  with st' show ?thesis by (simp add: fs_read_file_def fs_simps)
qed


subsection \<open>Well-formedness of the store\<close>

lemma wf_lookup_iff: "wf_fs st \<Longrightarrow> lookup st k = Some n \<longleftrightarrow> (k, n) \<in> set st"
  by (auto simp: wf_fs_def lookup_def)

lemma wf_parent: "wf_fs st \<Longrightarrow> lookup st k \<noteq> None \<Longrightarrow> k \<noteq> [] \<Longrightarrow> lookup st (butlast k) = Some Dir"
  by (auto simp: wf_fs_def list_all_iff lookup_def dest!: map_of_SomeD)

lemma wf_ancestor:
  "wf_fs st \<Longrightarrow> lookup st k \<noteq> None \<Longrightarrow> strict_prefix a k \<Longrightarrow> lookup st a = Some Dir"
proof (induction k rule: rev_induct)
  case Nil
  then show ?case by simp
next
  case (snoc x k)
  have k: "lookup st k = Some Dir" using wf_parent [OF snoc.prems(1,2)] by simp
  from snoc.prems(3) have "prefix a k"
    by (metis prefix_order.less_le prefix_snoc strict_prefix_def)
  then show ?case
    using k snoc.IH [OF snoc.prems(1)] by (cases "a = k") (auto simp: prefix_order.less_le)
qed

lemma wf_fs_put:
  assumes "wf_fs st" "k \<noteq> []" "lookup st (butlast k) = Some Dir" "lookup st k \<noteq> Some Dir \<or> n = Dir"
  shows "wf_fs (fs_put k n st)"
proof -
  have "distinct (map fst (fs_put k n st))"
    using assms(1) by (simp add: wf_fs_def fs_put_def distinct_update)
  moreover have "lookup (fs_put k n st) (butlast k') = Some Dir"
    if "(k', n') \<in> set (fs_put k n st)" "k' \<noteq> []" for k' n'
  proof -
    from that(1) have "k' = k \<or> (k', n') \<in> set st"
      using set_update_subset [of k n st] by (auto simp: fs_put_def)
    then have "lookup st (butlast k') = Some Dir"
      using assms(1,3) that(2) by (auto simp: wf_fs_def list_all_iff)
    then show ?thesis using assms(2,4) by (auto simp: fs_simps)
  qed
  moreover have "lookup (fs_put k n st) [] = Some Dir"
    using assms(1,2) by (simp add: wf_fs_def fs_simps)
  ultimately show ?thesis by (auto simp: wf_fs_def list_all_iff)
qed

text \<open>On a well-formed store, a path that reads as a file can be rewritten with any
  content.\<close>

lemma fs_write_existing:
  assumes "wf_fs st" "fs_read_file st cwd p = Inr c"
  shows "\<exists>t. fs_path st cwd p = Inr t \<and> lookup st t = Some (File c) \<and>
             (\<forall>x. fs_write_file st cwd p x = Inr (fs_put t (File x) st))"
proof -
  from assms(2) obtain t where t: "fs_path st cwd p = Inr t" and lk: "lookup st t = Some (File c)"
    by (auto simp: fs_read_file_def split: sum.splits option.splits node.splits)
  have "t \<noteq> []" using assms(1) lk by (auto simp: wf_fs_def)
  with assms(1) lk have "lookup st (butlast t) = Some Dir" by (simp add: wf_parent)
  with t lk \<open>t \<noteq> []\<close> fs_path_file_no_suffix [OF t lk] show ?thesis
    by (simp add: fs_write_file_def)
qed

lemma mkdir_once_wf: "mkdir_once st cwd p = Inr st' \<Longrightarrow> wf_fs st \<Longrightarrow> wf_fs st'"
  by (auto simp: mkdir_once_def intro!: wf_fs_put split: sum.splits if_splits)

lemma mkdirp_store_wf: "wf_fs st \<Longrightarrow> wf_fs (mkdir_store (mkdirp st cwd p b))"
  using mkdirp_rel [where R = "\<lambda>a b. wf_fs a \<longrightarrow> wf_fs b"] mkdir_once_wf by blast

lemma mkdirp_wf: "mkdirp st cwd p b = Inr st' \<Longrightarrow> wf_fs st \<Longrightarrow> wf_fs st'"
  using mkdirp_store_wf [of st cwd p b] by simp

lemma fs_mkdir_recursive_wf: "wf_fs st \<Longrightarrow> wf_fs (mkdir_store (fs_mkdir_recursive st cwd p))"
  by (simp add: fs_mkdir_recursive_def mkdirp_store_wf)

lemma fs_write_file_wf: "fs_write_file st cwd p c = Inr st' \<Longrightarrow> wf_fs st \<Longrightarrow> wf_fs st'"
  by (auto simp: fs_write_file_def intro!: wf_fs_put split: sum.splits if_splits)

lemma move_entries_map:
  "move_entries s d st = map (\<lambda>(k, n). (if prefix s k then d @ drop (length s) k else k, n)) st"
  by (induction st) (auto simp: move_entries_def)

lemma wf_no_key_below:
  "wf_fs st \<Longrightarrow> lookup st d = None \<Longrightarrow> (k, n) \<in> set st \<Longrightarrow> \<not> prefix d k"
  using wf_ancestor [of st k d] wf_lookup_iff [of st k n]
  by (metis option.distinct(1) option.simps(3) prefix_order.le_less)

lemma move_entries_wf:
  assumes wf: "wf_fs st" and s: "s \<noteq> []" "lookup st s \<noteq> None" and d: "lookup st d = None"
    and pd: "lookup st (butlast d) = Some Dir" "d \<noteq> []" and sd: "\<not> prefix s d"
  shows "wf_fs (move_entries s d st)"
proof -
  let ?f = "\<lambda>k. if prefix s k then d @ drop (length s) k else k"
  have set_eq: "set (move_entries s d st) = (\<lambda>(k, n). (?f k, n)) ` set st"
    by (simp add: move_entries_map)
  have keys: "map fst (move_entries s d st) = map ?f (map fst st)"
    by (induction st) (auto simp: move_entries_map)
  have inj: "inj_on ?f (fst ` set st)"
  proof (rule inj_onI)
    fix k1 k2 assume k: "k1 \<in> fst ` set st" "k2 \<in> fst ` set st" "?f k1 = ?f k2"
    have below: "\<not> prefix d k" if "k \<in> fst ` set st" for k
      using that wf_no_key_below [OF wf d] by auto
    show "k1 = k2"
      using k below [OF k(1)] below [OF k(2)]
      by (auto split: if_splits elim!: prefixE)
  qed
  have d0: "distinct (map fst st)" using wf by (simp add: wf_fs_def)
  have dist: "distinct (map fst (move_entries s d st))"
    unfolding keys by (rule distinct_map [THEN iffD2]) (use d0 inj in simp)
  have mem: "(?f k, n) \<in> set (move_entries s d st)" if "(k, n) \<in> set st" for k n
    unfolding set_eq by (rule image_eqI [OF _ that]) simp
  have wf': "wf_fs st'" if "st' = move_entries s d st"
    "\<And>k n. (k, n) \<in> set st' \<Longrightarrow> k = [] \<or> (butlast k, Dir) \<in> set st'" "([], Dir) \<in> set st'" for st'
  proof -
    have "lookup st' k = Some n \<longleftrightarrow> (k, n) \<in> set st'" for k n
      using dist that(1) by (simp add: lookup_def)
    with that dist show ?thesis by (auto simp: wf_fs_def list_all_iff)
  qed
  show ?thesis
  proof (rule wf' [OF refl])
    show "([], Dir) \<in> set (move_entries s d st)"
      using mem [of "[]" Dir] wf s(1) by (simp add: wf_fs_def lookup_def map_of_SomeD)
  next
    fix k' n' assume "(k', n') \<in> set (move_entries s d st)"
    then obtain k where kn: "(k, n') \<in> set st" and k': "k' = ?f k" using set_eq by auto
    show "k' = [] \<or> (butlast k', Dir) \<in> set (move_entries s d st)"
    proof (cases "prefix s k")
      case True
      then obtain r where r: "k = s @ r" by (auto elim: prefixE)
      show ?thesis
      proof (cases "r = []")
        case True
        have "\<not> prefix s (butlast d)"
          using sd pd(2) by (metis prefix_order.order_trans prefixeq_butlast)
        with mem [of "butlast d" Dir] pd(1) wf True r k' show ?thesis
          by (simp add: wf_lookup_iff)
      next
        case False
        have "(butlast k, Dir) \<in> set st"
          using wf_parent [OF wf, of k] kn wf r s(1) by (auto simp: wf_lookup_iff)
        moreover have "butlast k = s @ butlast r" using False r by (simp add: butlast_append)
        ultimately show ?thesis
          using mem [of "butlast k" Dir] False r k' by (simp add: butlast_append)
      qed
    next
      case False
      show ?thesis
      proof (cases "k = []")
        case nonroot: False
        have "(butlast k, Dir) \<in> set st"
          using wf_parent [OF wf, of k] kn wf nonroot by (auto simp: wf_lookup_iff)
        moreover have "\<not> prefix s (butlast k)"
          using False by (metis prefix_order.order_trans prefixeq_butlast)
        ultimately show ?thesis using mem [of "butlast k" Dir] False k' by simp
      qed (use k' False in simp)
    qed
  qed
qed

lemma remove_entry_wf:
  assumes wf: "wf_fs st" and d: "d \<noteq> []" and nc: "\<not> has_children st d"
  shows "wf_fs (remove_entry d st)"
proof -
  have set: "set (remove_entry d st) = {(k, n) \<in> set st. k \<noteq> d}"
    by (auto simp: remove_entry_def)
  have "distinct (map fst (remove_entry d st))"
    using wf by (simp add: wf_fs_def remove_entry_def distinct_map_filter)
  moreover have "lookup (remove_entry d st) (butlast k) = Some Dir"
    if "(k, n) \<in> set st" "k \<noteq> []" for k n
  proof -
    have "lookup st (butlast k) = Some Dir" using wf that by (auto simp: wf_fs_def list_all_iff)
    moreover have "butlast k \<noteq> d" using nc that by (auto simp: has_children_def list_ex_iff)
    ultimately show ?thesis by (simp add: lookup_remove_entry)
  qed
  moreover have "lookup (remove_entry d st) [] = Some Dir"
    using wf d by (simp add: wf_fs_def lookup_remove_entry)
  ultimately show ?thesis by (auto simp: wf_fs_def list_all_iff set)
qed

lemma file_no_children:
  assumes wf: "wf_fs st" and f: "lookup st d = Some (File c)"
  shows "\<not> has_children st d"
proof
  assume "has_children st d"
  then obtain k n where "(k, n) \<in> set st" "k \<noteq> []" "butlast k = d"
    by (auto simp: has_children_def list_ex_iff)
  with wf have "lookup st d = Some Dir" by (metis wf_lookup_iff wf_parent option.distinct(1))
  with f show False by simp
qed

lemma wf_descendant_child:
  assumes wf: "wf_fs st" and s: "lookup st s \<noteq> None" and ds: "strict_prefix d s"
  shows "has_children st d"
proof -
  let ?c = "take (Suc (length d)) s"
  have len: "length d < length s" using ds by (simp add: strict_prefix_def prefix_length_less)
  have pc: "prefix ?c s" by (simp add: take_is_prefix)
  have bc: "butlast ?c = d"
    using ds len by (auto simp: butlast_take strict_prefix_def prefix_def)
  have "lookup st ?c \<noteq> None"
  proof (cases "?c = s")
    case False
    with pc have "strict_prefix ?c s" by (simp add: prefix_order.less_le)
    with wf s show ?thesis by (simp add: wf_ancestor)
  qed (use s in simp)
  then obtain n where "(?c, n) \<in> set st" by (auto simp: wf_lookup_iff [OF wf])
  moreover have "?c \<noteq> []" using len by (cases s) auto
  ultimately show ?thesis
    using bc unfolding has_children_def list_ex_iff by (intro bexI [of _ "(?c, n)"]) simp_all
qed

text \<open>The successful renames to a different path: onto a new entry, or replacing an
  entry without children.\<close>

lemma rename_target_cases:
  assumes wf: "wf_fs st" and r: "fs_rename st c src dst = Inr st'"
    and s: "fs_path st c src = Inr s" and d: "fs_path st c dst = Inr d" and sd: "s \<noteq> d"
  shows "(lookup st d = None \<and> st' = move_entries s d st) \<or>
         (\<not> has_children st d \<and> st' = move_entries s d (remove_entry d st))"
  using r s d sd
  by (auto simp: fs_rename_def file_no_children [OF wf] split: if_splits option.splits node.splits)

lemma fs_rename_wf: "fs_rename st cwd src dst = Inr st' \<Longrightarrow> wf_fs st \<Longrightarrow> wf_fs st'"
proof -
  assume r: "fs_rename st cwd src dst = Inr st'" and wf: "wf_fs st"
  from r obtain s d where s: "fs_path st cwd src = Inr s" and d: "fs_path st cwd dst = Inr d"
    by (auto simp: fs_rename_def split: sum.splits)
  from r s d have c: "lookup st s \<noteq> None" "s \<noteq> []" "d \<noteq> []" "lookup st (butlast d) = Some Dir"
    by (auto simp: fs_rename_def split: if_splits)
  show "wf_fs st'"
  proof (cases "s = d")
    case True
    with r s d wf show ?thesis by (simp add: fs_rename_def split: if_splits)
  next
    case False
    with r s d have sd: "\<not> prefix s d" by (auto simp: fs_rename_def prefix_order.less_le split: if_splits)
    from rename_target_cases [OF wf r s d False] consider
        (new) "lookup st d = None" "st' = move_entries s d st"
      | (over) "\<not> has_children st d" "st' = move_entries s d (remove_entry d st)"
      by metis
    then show ?thesis
    proof cases
      case new
      then show ?thesis using move_entries_wf [OF wf c(2,1) new(1) c(4,3) sd] by simp
    next
      case over
      let ?st1 = "remove_entry d st"
      have "butlast d \<noteq> d" using c(3) by (cases d rule: rev_cases) auto
      moreover have "lookup ?st1 s \<noteq> None" "lookup ?st1 d = None" "lookup ?st1 (butlast d) = Some Dir"
        using c False \<open>butlast d \<noteq> d\<close> by (auto simp: lookup_remove_entry)
      moreover have "wf_fs ?st1" by (rule remove_entry_wf [OF wf c(3) over(1)])
      ultimately show ?thesis
        using move_entries_wf [of ?st1 s d] c(2,3) sd over(2) by simp
    qed
  qed
qed


subsection \<open>Postcondition of the recursive mkdir\<close>

lemma mkdir_once_stat: "mkdir_once st c p = Inr st' \<Longrightarrow> fs_stat st' c p = Inr Dir"
proof -
  assume m: "mkdir_once st c p = Inr st'"
  then obtain t where t: "fs_path st c p = Inr t" and n: "lookup st t = None" and st': "st' = fs_put t Dir st"
    by (auto simp: mkdir_once_def split: sum.splits if_splits)
  have "fs_path st' c p = Inr t"
    using t by (rule fs_path_mono) (use n st' in \<open>auto simp: fs_simps\<close>)
  with st' show ?thesis by (simp add: fs_stat_def fs_simps)
qed

lemma mkdirp_exists_stat: "mkdirp_exists st c p b e = Inr st' \<Longrightarrow> fs_stat st' c p = Inr Dir"
  by (auto simp: mkdirp_exists_def split: sum.splits node.splits)

lemma mkdirp_outermost_stat: "mkdirp st c p True = Inr st' \<Longrightarrow> fs_stat st' c p = Inr Dir"
  by (auto simp: mkdirp.simps [of st c p True] mkdir_retry_def mkdir_once_stat mkdirp_exists_stat
      split: sum.splits if_splits option.splits)


subsection \<open>Postcondition of rename\<close>

lemma lookup_move_entries_dst:
  "lookup st d = None \<Longrightarrow> lookup (move_entries s d st) d = lookup st s"
proof (induction st)
  case Nil
  then show ?case by (simp add: move_entries_def lookup_def)
next
  case (Cons kn st)
  obtain k n where kn: "kn = (k, n)" by (cases kn)
  have "(if prefix s k then d @ drop (length s) k else k) = d \<longleftrightarrow> k = s"
    using Cons.prems kn by (auto simp: lookup_def elim!: prefixE split: if_splits)
  with Cons kn show ?case by (auto simp: move_entries_def lookup_def split: if_splits)
qed

lemma lookup_move_entries_src:
  "\<not> prefix d s \<Longrightarrow> lookup (move_entries s d st) s = None"
  by (induction st) (auto simp: move_entries_def lookup_def elim!: prefixE split: if_splits)

lemma fs_rename_moves:
  assumes wf: "wf_fs st" and r: "fs_rename st c src dst = Inr st'"
  shows "lookup st' (resolve_segs c dst) = lookup st (resolve_segs c src) \<and>
         (resolve_segs c src \<noteq> resolve_segs c dst \<longrightarrow> lookup st' (resolve_segs c src) = None)"
proof -
  from r obtain s d where s: "fs_path st c src = Inr s" and d: "fs_path st c dst = Inr d"
    by (auto simp: fs_rename_def split: sum.splits)
  have rs: "resolve_segs c src = s" "resolve_segs c dst = d"
    using fs_path_resolve_segs [OF s] fs_path_resolve_segs [OF d] by simp_all
  show ?thesis
  proof (cases "s = d")
    case True
    with r s d rs show ?thesis by (simp add: fs_rename_def split: if_splits)
  next
    case False
    from r s d False have ex: "lookup st s \<noteq> None" and nsp: "\<not> strict_prefix s d"
      by (auto simp: fs_rename_def split: if_splits)
    have nds: "\<not> prefix d s"
    proof
      assume "prefix d s"
      with False have "strict_prefix d s" by (simp add: prefix_order.less_le)
      with wf ex have "lookup st d = Some Dir" by (rule wf_ancestor)
      moreover have "has_children st d"
        using wf ex \<open>strict_prefix d s\<close> by (rule wf_descendant_child)
      ultimately show False using rename_target_cases [OF wf r s d False] by auto
    qed
    from rename_target_cases [OF wf r s d False] consider
        (new) "lookup st d = None" "st' = move_entries s d st"
      | (over) "st' = move_entries s d (remove_entry d st)"
      by metis
    then show ?thesis
    proof cases
      case new
      then show ?thesis using rs nds by (simp add: lookup_move_entries_dst lookup_move_entries_src)
    next
      case over
      then show ?thesis using rs nds False
        by (simp add: lookup_move_entries_dst lookup_move_entries_src lookup_remove_entry)
    qed
  qed
qed

end
