(* ===== verification/Dispatcher.thy ===== *)
theory Dispatcher
  imports Edit Diff HostFs
begin

text \<open>
  The \<open>CallToolRequest\<close> handler of \<open>src/filesystem/src/index.ts\<close> (lines 306--587):
  a \<open>switch\<close> on the tool name with one case per tool, each calling
  \<open>isPathAllowed\<close> on its path arguments and then the host file system. An
  \<open>McpError\<close> thrown inside (permission denied, existing move destination, unknown
  tool) is re-thrown to the client as a protocol error, the \<open>Inl\<close> of the result;
  any other error (a failed file-system call) becomes a result marked
  \<open>isError\<close>, \<open>ToolError\<close>. A failed call keeps the effects of the calls made
  before it (the directories \<open>write_file\<close> created before \<open>writeFile\<close> failed stay).

  The arguments arrive decoded into \<open>tool_call\<close>, one constructor per tool;
  the results that the code serialises with \<open>JSON.stringify\<close> are kept as
  structured payloads. The \<open>glob\<close> package used by \<open>search_files\<close> is a parameter:
  any function from pattern, ignore list and store to a list of matches.
\<close>

record config =
  allowed :: "string list"
  cwd :: string

datatype error_code = PermissionDenied | InvalidRequest | MethodNotFound | ResourceNotFound

datatype mcp_error = McpError error_code string

datatype read_entry =
    ReadContent string string
  | ReadDenied string
  | ReadFailed string fs_error

record file_info =
  info_path :: string
  info_size :: "nat option"
  info_is_directory :: bool
  info_is_file :: bool

datatype payload =
    PText string
  | PReadResults "read_entry list"
  | PEdit bool string "edit_result list" string bool
  | PMatches "string list"
  | PFileInfo file_info
  | PDirectories "string list"

text \<open>The result of a call: its contents; the \<open>isError\<close> envelope of a failed file-system
  call (lines 577--586); the same envelope for a \<open>TypeError\<close> thrown by Node's
  argument validation on an argument of the wrong type.\<close>

datatype tool_response = ToolResult payload | ToolError fs_error | ToolTypeError

datatype tool_call =
    ReadFile string
  | ReadMultipleFiles "string list"
  | WriteFile string string
  | EditFile string "edit_op list" bool
  | CreateDirectory string
  | ListDirectory string
  | MoveFile string string
  | SearchFiles string string "string list"
  | GetFileInfo string
  | ListAllowedDirectories
  | UnknownTool string

type_synonym glob_fn = "string \<Rightarrow> string list \<Rightarrow> fs \<Rightarrow> string list"

type_synonym call_result = "(mcp_error + tool_response) \<times> fs"

subsection \<open>The guard as the handlers use it\<close>

definition allowed_path :: "config \<Rightarrow> string \<Rightarrow> bool" where
  "allowed_path cfg p = is_path_allowed (allowed cfg) (cwd cfg) p"

definition access_denied :: "string \<Rightarrow> mcp_error" where
  "access_denied p = McpError PermissionDenied (''Access to '' @ p @ '' is not allowed'')"

subsection \<open>The handlers\<close>

text \<open>\<open>read_file\<close>, lines 311--326.\<close>

definition handle_read_file :: "config \<Rightarrow> string \<Rightarrow> fs \<Rightarrow> call_result" where
  "handle_read_file cfg p st =
     (if \<not> allowed_path cfg p then (Inl (access_denied p), st)
      else (case fs_read_file st (cwd cfg) p of
              Inl e \<Rightarrow> (Inr (ToolError e), st)
            | Inr c \<Rightarrow> (Inr (ToolResult (PText c)), st)))"

text \<open>\<open>read_multiple_files\<close>, lines 328--358: one entry per path, never aborting.\<close>

definition read_one :: "config \<Rightarrow> fs \<Rightarrow> string \<Rightarrow> read_entry" where
  "read_one cfg st p =
     (if \<not> allowed_path cfg p then ReadDenied p
      else (case fs_read_file st (cwd cfg) p of
              Inl e \<Rightarrow> ReadFailed p e
            | Inr c \<Rightarrow> ReadContent p c))"

definition handle_read_multiple_files :: "config \<Rightarrow> string list \<Rightarrow> fs \<Rightarrow> call_result" where
  "handle_read_multiple_files cfg ps st =
     (Inr (ToolResult (PReadResults (map (read_one cfg st) ps))), st)"

text \<open>\<open>write_file\<close>, lines 360--379.\<close>

definition handle_write_file :: "config \<Rightarrow> string \<Rightarrow> string \<Rightarrow> fs \<Rightarrow> call_result" where
  "handle_write_file cfg p content st =
     (if \<not> allowed_path cfg p then (Inl (access_denied p), st)
      else (case fs_mkdir_recursive st (cwd cfg) (dirname p) of
              Inl (e, st1) \<Rightarrow> (Inr (ToolError e), st1)
            | Inr st1 \<Rightarrow>
                (case fs_write_file st1 (cwd cfg) p content of
                   Inl e \<Rightarrow> (Inr (ToolError e), st1)
                 | Inr st2 \<Rightarrow> (Inr (ToolResult (PText (''Successfully wrote to '' @ p))), st2))))"

text \<open>\<open>edit_file\<close>, lines 381--436.\<close>

definition handle_edit_file :: "config \<Rightarrow> string \<Rightarrow> edit_op list \<Rightarrow> bool \<Rightarrow> fs \<Rightarrow> call_result" where
  "handle_edit_file cfg p edits dry_run st =
     (if \<not> allowed_path cfg p then (Inl (access_denied p), st)
      else (case fs_read_file st (cwd cfg) p of
              Inl e \<Rightarrow> (Inr (ToolError e), st)
            | Inr original \<Rightarrow>
                (let (new_content, results) = apply_edits original edits;
                     diff = generate_diff original new_content;
                     response = ToolResult (PEdit dry_run p results diff (\<not> dry_run))
                 in if \<not> dry_run then
                      (case fs_write_file st (cwd cfg) p new_content of
                         Inl e \<Rightarrow> (Inr (ToolError e), st)
                       | Inr st' \<Rightarrow> (Inr response, st'))
                    else (Inr response, st))))"

text \<open>\<open>create_directory\<close>, lines 438--453.\<close>

definition handle_create_directory :: "config \<Rightarrow> string \<Rightarrow> fs \<Rightarrow> call_result" where
  "handle_create_directory cfg p st =
     (if \<not> allowed_path cfg p then (Inl (access_denied p), st)
      else (case fs_mkdir_recursive st (cwd cfg) p of
              Inl (e, st1) \<Rightarrow> (Inr (ToolError e), st1)
            | Inr st' \<Rightarrow>
                (Inr (ToolResult (PText (''Directory '' @ p @ '' created or already exists''))), st')))"

text \<open>\<open>list_directory\<close>, lines 455--474.\<close>

definition format_entry :: "string \<times> bool \<Rightarrow> string" where
  "format_entry e = (if snd e then ''[DIR] '' else ''[FILE] '') @ fst e"

definition handle_list_directory :: "config \<Rightarrow> string \<Rightarrow> fs \<Rightarrow> call_result" where
  "handle_list_directory cfg p st =
     (if \<not> allowed_path cfg p then (Inl (access_denied p), st)
      else (case fs_readdir st (cwd cfg) p of
              Inl e \<Rightarrow> (Inr (ToolError e), st)
            | Inr entries \<Rightarrow>
                (Inr (ToolResult (PText (join_on newline (map format_entry entries)))), st)))"

text \<open>\<open>move_file\<close>, lines 476--504.\<close>

definition handle_move_file :: "config \<Rightarrow> string \<Rightarrow> string \<Rightarrow> fs \<Rightarrow> call_result" where
  "handle_move_file cfg source destination st =
     (if \<not> allowed_path cfg source then (Inl (access_denied source), st)
      else if \<not> allowed_path cfg destination then (Inl (access_denied destination), st)
      else if fs_exists st (cwd cfg) destination then
        (Inl (McpError InvalidRequest (''Destination '' @ destination @ '' already exists'')), st)
      else (case fs_mkdir_recursive st (cwd cfg) (dirname destination) of
              Inl (e, st1) \<Rightarrow> (Inr (ToolError e), st1)
            | Inr st1 \<Rightarrow>
                (case fs_rename st1 (cwd cfg) source destination of
                   Inl e \<Rightarrow> (Inr (ToolError e), st1)
                 | Inr st2 \<Rightarrow>
                     (Inr (ToolResult (PText (''Successfully moved '' @ source @ '' to '' @ destination))),
                      st2))))"

text \<open>\<open>search_files\<close>, lines 506--532.\<close>

definition handle_search_files ::
  "glob_fn \<Rightarrow> config \<Rightarrow> string \<Rightarrow> string \<Rightarrow> string list \<Rightarrow> fs \<Rightarrow> call_result" where
  "handle_search_files glob cfg dir_path pattern exclude_patterns st =
     (if \<not> allowed_path cfg dir_path then (Inl (access_denied dir_path), st)
      else
        (let matches = glob (dir_path @ ''/**/'' @ pattern) exclude_patterns st
         in (Inr (ToolResult (PMatches (filter (allowed_path cfg) matches))), st)))"

text \<open>\<open>get_file_info\<close>, lines 534--560; timestamps and permission bits are not modelled.\<close>

definition handle_get_file_info :: "config \<Rightarrow> string \<Rightarrow> fs \<Rightarrow> call_result" where
  "handle_get_file_info cfg p st =
     (if \<not> allowed_path cfg p then (Inl (access_denied p), st)
      else (case fs_stat st (cwd cfg) p of
              Inl e \<Rightarrow> (Inr (ToolError e), st)
            | Inr n \<Rightarrow>
                (Inr (ToolResult (PFileInfo
                   \<lparr>info_path = p,
                    info_size = (case n of File c \<Rightarrow> Some (length c) | Dir \<Rightarrow> None),
                    info_is_directory = (n = Dir),
                    info_is_file = (n \<noteq> Dir)\<rparr>)), st)))"

text \<open>\<open>list_allowed_directories\<close>, lines 562--569: the allowed directories, whatever
  the store holds.\<close>

definition handle_list_allowed_directories :: "config \<Rightarrow> fs \<Rightarrow> call_result" where
  "handle_list_allowed_directories cfg st = (Inr (ToolResult (PDirectories (allowed cfg))), st)"

text \<open>The \<open>switch\<close>, lines 309--586.\<close>

fun call_tool :: "glob_fn \<Rightarrow> config \<Rightarrow> tool_call \<Rightarrow> fs \<Rightarrow> call_result" where
  "call_tool glob cfg (ReadFile p) st = handle_read_file cfg p st"
| "call_tool glob cfg (ReadMultipleFiles ps) st = handle_read_multiple_files cfg ps st"
| "call_tool glob cfg (WriteFile p c) st = handle_write_file cfg p c st"
| "call_tool glob cfg (EditFile p es d) st = handle_edit_file cfg p es d st"
| "call_tool glob cfg (CreateDirectory p) st = handle_create_directory cfg p st"
| "call_tool glob cfg (ListDirectory p) st = handle_list_directory cfg p st"
| "call_tool glob cfg (MoveFile s d) st = handle_move_file cfg s d st"
| "call_tool glob cfg (SearchFiles p pat ex) st = handle_search_files glob cfg p pat ex st"
| "call_tool glob cfg (GetFileInfo p) st = handle_get_file_info cfg p st"
| "call_tool glob cfg ListAllowedDirectories st = handle_list_allowed_directories cfg st"
| "call_tool glob cfg (UnknownTool name) st =
     (Inl (McpError MethodNotFound (''Unknown tool: '' @ name)), st)"

subsection \<open>Specification predicates\<close>

definition allowed_entry :: "config \<Rightarrow> path \<Rightarrow> bool" where
  "allowed_entry cfg q \<longleftrightarrow> list_ex (\<lambda>dir. prefix dir (render q)) (allowed cfg)"

definition step_ok :: "config \<Rightarrow> fs \<Rightarrow> fs \<Rightarrow> bool" where
  "step_ok cfg st st' \<longleftrightarrow>
     (\<forall>q. lookup st' q \<noteq> lookup st q \<longrightarrow>
          allowed_entry cfg q \<or> (lookup st q = None \<and> lookup st' q = Some Dir))"

primrec path_args :: "tool_call \<Rightarrow> string list" where
  "path_args (ReadFile p) = [p]"
| "path_args (ReadMultipleFiles ps) = []"
| "path_args (WriteFile p c) = [p]"
| "path_args (EditFile p es d) = [p]"
| "path_args (CreateDirectory p) = [p]"
| "path_args (ListDirectory p) = [p]"
| "path_args (MoveFile s d) = [s, d]"
| "path_args (SearchFiles p pat ex) = [p]"
| "path_args (GetFileInfo p) = [p]"
| "path_args ListAllowedDirectories = []"
| "path_args (UnknownTool n) = []"

subsection \<open>Frames of the handlers\<close>

lemmas handler_defs = handle_read_file_def handle_read_multiple_files_def handle_write_file_def
  handle_edit_file_def handle_create_directory_def handle_list_directory_def handle_move_file_def
  handle_search_files_def handle_get_file_info_def handle_list_allowed_directories_def

lemma allowed_path_entry: "allowed_path cfg p \<longleftrightarrow> allowed_entry cfg (resolve_segs (cwd cfg) p)"
  by (simp add: allowed_path_def allowed_entry_def is_path_allowed_def resolve_def)

lemma allowed_entry_prefix:
  "allowed_entry cfg s \<Longrightarrow> prefix s q \<Longrightarrow> allowed_entry cfg q"
  unfolding allowed_entry_def list_ex_iff
  by (metis prefix_def prefix_order.trans prefix_render_append)

lemma step_ok_refl: "step_ok cfg st st"
  by (simp add: step_ok_def)

lemma step_ok_grows: "grows_dirs st st' \<Longrightarrow> step_ok cfg st st'"
  by (simp add: step_ok_def grows_dirs_def)

lemma step_ok_trans: "step_ok cfg a b \<Longrightarrow> step_ok cfg b c \<Longrightarrow> step_ok cfg a c"
  unfolding step_ok_def by (metis option.distinct(1))

lemma write_step_ok:
  assumes "allowed_path cfg p" "fs_write_file st (cwd cfg) p c = Inr st'"
  shows "step_ok cfg st st'"
  using assms fs_write_file_changes allowed_path_entry unfolding step_ok_def by metis

lemma rename_step_ok:
  assumes "allowed_path cfg s" "allowed_path cfg d" "fs_rename st (cwd cfg) s d = Inr st'"
  shows "step_ok cfg st st'"
  using assms fs_rename_changes allowed_path_entry allowed_entry_prefix unfolding step_ok_def by metis

lemma mkdir_step_ok: "grows_dirs st (mkdir_store (fs_mkdir_recursive st c p))"
  by (simp add: fs_mkdir_recursive_def mkdirp_store_grows)

text \<open>The frame of every call: a relation between stores that is reflexive and
  transitive and contains the recursive \<open>mkdir\<close>, and the \<open>writeFile\<close> and
  \<open>rename\<close> calls on allowed paths, relates the store before a call to the store
  after it. The handlers change the store only through these three calls.\<close>

lemma call_tool_rel:
  assumes refl: "\<And>st. R st st" and trans: "\<And>a b c. R a b \<Longrightarrow> R b c \<Longrightarrow> R a c"
    and mk: "\<And>st p. R st (mkdir_store (fs_mkdir_recursive st (cwd cfg) p))"
    and wr: "\<And>st st' p c. allowed_path cfg p \<Longrightarrow> fs_write_file st (cwd cfg) p c = Inr st' \<Longrightarrow> R st st'"
    and rn: "\<And>st st' s d. allowed_path cfg s \<Longrightarrow> allowed_path cfg d \<Longrightarrow>
               fs_rename st (cwd cfg) s d = Inr st' \<Longrightarrow> R st st'"
    and call: "call_tool glob cfg c st = (r, st')"
  shows "R st st'"
proof (cases c)
  case (WriteFile p content)
  with call show ?thesis
    by (auto simp: handle_write_file_def refl split: if_splits sum.splits dest: mkdir_result_rel [where R = R, OF mk] intro: trans wr)
next
  case (EditFile p es d)
  with call show ?thesis
    by (auto simp: handle_edit_file_def refl Let_def split: if_splits sum.splits prod.splits intro: wr)
next
  case (CreateDirectory p)
  with call show ?thesis
    by (auto simp: handle_create_directory_def refl split: if_splits sum.splits dest: mkdir_result_rel [where R = R, OF mk])
next
  case (MoveFile s d)
  with call show ?thesis
    by (auto simp: handle_move_file_def refl split: if_splits sum.splits dest: mkdir_result_rel [where R = R, OF mk] intro: trans rn)
qed (use call in \<open>auto simp: handler_defs refl Let_def split: if_splits sum.splits\<close>)

lemma call_tool_step_ok:
  assumes "call_tool glob cfg c st = (r, st')"
  shows "step_ok cfg st st'"
  by (rule call_tool_rel [where R = "step_ok cfg", OF step_ok_refl step_ok_trans _ _ _ assms])
     (auto intro: step_ok_grows mkdir_step_ok write_step_ok rename_step_ok)

lemma call_tool_wf:
  assumes "call_tool glob cfg c st = (r, st')" "wf_fs st"
  shows "wf_fs st'"
  using call_tool_rel [where R = "\<lambda>a b. wf_fs a \<longrightarrow> wf_fs b", OF _ _ _ _ _ assms(1)] assms(2)
  by (auto simp: fs_mkdir_recursive_wf dest: fs_write_file_wf fs_rename_wf)

text \<open>
  C5. Path Guard gates all I/O: if some path argument of a call is not allowed,
  the call fails with \<open>PermissionDenied\<close> naming the first such argument, and the
  store is unchanged.
\<close>

theorem call_tool_guard_denies:
  assumes "find (\<lambda>p. \<not> allowed_path cfg p) (path_args c) = Some p"
  shows "call_tool glob cfg c st = (Inl (access_denied p), st)"
  using assms
  by (cases c) (auto simp: handler_defs split: if_splits)

lemma call_tool_guard_denies_witness:
  "call_tool (\<lambda>_ _ _. []) \<lparr>allowed = [''/r''], cwd = ''/''\<rparr> (MoveFile ''/r/a'' ''/etc/x'') [([], Dir)] =
   (Inl (access_denied ''/etc/x''), [([], Dir)])"
proof -
  have h: "find (\<lambda>p. \<not> allowed_path \<lparr>allowed = [''/r''], cwd = ''/''\<rparr> p) (path_args (MoveFile ''/r/a'' ''/etc/x'')) =
           Some ''/etc/x''" by code_simp
  show ?thesis by (rule call_tool_guard_denies [OF h])
qed

text \<open>
  C15. \<open>edit_file\<close> with \<open>dryRun = true\<close> never changes the store, whatever the
  path, the edits and the outcome.
\<close>

theorem edit_dry_run_keeps_store: "snd (call_tool glob cfg (EditFile p es True) st) = st"
  by (simp add: handle_edit_file_def Let_def split: sum.splits prod.splits)

text \<open>
  C17. \<open>edit_file\<close> with no edits and no dry run (the spec's test
  \<open>applyEdits(C, [])\<close>): on a well-formed store whose file at the path holds \<open>c\<close>,
  the call succeeds with no results, rewrites the file with the same content, and
  reports as diff one unchanged line per line of \<open>c\<close>, which is never empty, where
  the spec expects an empty diff.
\<close>

theorem edit_file_no_edits:
  assumes wf: "wf_fs st" and a: "allowed_path cfg p" and r: "fs_read_file st (cwd cfg) p = Inr c"
  shows "\<exists>st'. call_tool glob cfg (EditFile p [] False) st =
           (Inr (ToolResult (PEdit False p []
              (concat (map (\<lambda>l. ''  '' @ l @ [newline]) (split_on newline c))) True)), st') \<and>
         (\<forall>q. lookup st' q = lookup st q) \<and>
         concat (map (\<lambda>l. ''  '' @ l @ [newline]) (split_on newline c)) \<noteq> []"
proof -
  from r obtain t where t: "fs_path st (cwd cfg) p = Inr t" and lk: "lookup st t = Some (File c)"
    by (auto simp: fs_read_file_def split: sum.splits option.splits node.splits)
  have "t \<noteq> []" using wf lk by (auto simp: wf_fs_def)
  with wf lk have "lookup st (butlast t) = Some Dir" by (simp add: wf_parent)
  with t lk \<open>t \<noteq> []\<close> fs_path_file_no_suffix [OF t lk]
  have w: "fs_write_file st (cwd cfg) p c = Inr (fs_put t (File c) st)"
    by (simp add: fs_write_file_def)
  have same: "\<forall>q. lookup (fs_put t (File c) st) q = lookup st q" using lk by (simp add: fs_simps)
  obtain l ls where "split_on newline c = l # ls" by (cases "split_on newline c") simp_all
  then have "concat (map (\<lambda>l. ''  '' @ l @ [newline]) (split_on newline c)) \<noteq> []" by simp
  with a r w same show ?thesis
    by (simp add: handle_edit_file_def generate_diff_same)
qed

lemma edit_file_no_edits_witness:
  "call_tool (\<lambda>_ _ _. []) \<lparr>allowed = [''/r''], cwd = ''/''\<rparr> (EditFile ''/r/f'' [] False)
     [([], Dir), ([''r''], Dir), ([''r'', ''f''], File ''hi'')] =
   (Inr (ToolResult (PEdit False ''/r/f'' [] (''  hi'' @ [newline]) True)),
    [([], Dir), ([''r''], Dir), ([''r'', ''f''], File ''hi'')])"
proof -
  have h: "wf_fs [([], Dir), ([''r''], Dir), ([''r'', ''f''], File ''hi'')]"
    "allowed_path \<lparr>allowed = [''/r''], cwd = ''/''\<rparr> ''/r/f''"
    "fs_read_file [([], Dir), ([''r''], Dir), ([''r'', ''f''], File ''hi'')]
       (cwd \<lparr>allowed = [''/r''], cwd = ''/''\<rparr>) ''/r/f'' = Inr ''hi''"
    by code_simp+
  from edit_file_no_edits [OF h, of "\<lambda>_ _ _. []"] obtain st' where
    "call_tool (\<lambda>_ _ _. []) \<lparr>allowed = [''/r''], cwd = ''/''\<rparr> (EditFile ''/r/f'' [] False)
       [([], Dir), ([''r''], Dir), ([''r'', ''f''], File ''hi'')] =
     (Inr (ToolResult (PEdit False ''/r/f'' [] (''  hi'' @ [newline]) True)), st')"
    by auto
  moreover have "snd (call_tool (\<lambda>_ _ _. []) \<lparr>allowed = [''/r''], cwd = ''/''\<rparr> (EditFile ''/r/f'' [] False)
       [([], Dir), ([''r''], Dir), ([''r'', ''f''], File ''hi'')]) =
     [([], Dir), ([''r''], Dir), ([''r'', ''f''], File ''hi'')]"
    by code_simp
  ultimately show ?thesis by simp
qed

text \<open>
  C18. Round trip: after a successful \<open>write_file\<close> of a content at a path,
  \<open>read_file\<close> of the same path returns that content.
\<close>

theorem write_file_then_read_file:
  assumes "call_tool glob cfg (WriteFile p c) st = (Inr (ToolResult x), st')"
  shows "call_tool glob cfg (ReadFile p) st' = (Inr (ToolResult (PText c)), st')"
proof -
  from assms obtain st1 where a: "allowed_path cfg p"
    and w: "fs_write_file st1 (cwd cfg) p c = Inr st'"
    by (auto simp: handle_write_file_def split: if_splits sum.splits)
  from fs_read_after_write [OF w] a show ?thesis by (simp add: handle_read_file_def)
qed

lemma write_file_then_read_file_witness:
  "call_tool (\<lambda>_ _ _. []) \<lparr>allowed = [''/r''], cwd = ''/''\<rparr> (ReadFile ''/r/a/f'')
     [([], Dir), ([''r''], Dir), ([''r'', ''a''], Dir), ([''r'', ''a'', ''f''], File ''hi'')] =
   (Inr (ToolResult (PText ''hi'')),
    [([], Dir), ([''r''], Dir), ([''r'', ''a''], Dir), ([''r'', ''a'', ''f''], File ''hi'')])"
proof -
  have h: "call_tool (\<lambda>_ _ _. []) \<lparr>allowed = [''/r''], cwd = ''/''\<rparr> (WriteFile ''/r/a/f'' ''hi'')
             [([], Dir), ([''r''], Dir)] =
           (Inr (ToolResult (PText ''Successfully wrote to /r/a/f'')),
            [([], Dir), ([''r''], Dir), ([''r'', ''a''], Dir), ([''r'', ''a'', ''f''], File ''hi'')])"
    by code_simp
  show ?thesis by (rule write_file_then_read_file [OF h])
qed

text \<open>
  C16. A successful \<open>edit_file\<close> without dry run stores the content the edit
  loop computed from the file's old content and reports the loop's results and
  the diff of old against new content.
\<close>

theorem edit_file_persists:
  assumes "fs_read_file st (cwd cfg) p = Inr original"
    and "call_tool glob cfg (EditFile p es False) st = (Inr (ToolResult x), st')"
  shows "fs_read_file st' (cwd cfg) p = Inr (fst (apply_edits original es)) \<and>
         x = PEdit False p (snd (apply_edits original es))
               (generate_diff original (fst (apply_edits original es))) True"
proof -
  obtain nc rs where ae: "apply_edits original es = (nc, rs)" by (cases "apply_edits original es")
  from assms ae have a: "allowed_path cfg p" and w: "fs_write_file st (cwd cfg) p nc = Inr st'"
    and x: "x = PEdit False p rs (generate_diff original nc) True"
    by (auto simp: handle_edit_file_def Let_def split: if_splits sum.splits)
  from fs_read_after_write [OF w] x ae show ?thesis by simp
qed

lemma edit_file_persists_witness:
  "fs_read_file [([], Dir), ([''r''], Dir), ([''r'', ''f''], File ''bye'')] ''/'' ''/r/f'' =
     Inr (fst (apply_edits ''hi'' [\<lparr>old_text = ''hi'', new_text = ''bye''\<rparr>]))"
proof -
  have h1: "fs_read_file [([], Dir), ([''r''], Dir), ([''r'', ''f''], File ''hi'')] (cwd \<lparr>allowed = [''/r''], cwd = ''/''\<rparr>) ''/r/f'' = Inr ''hi''"
    by code_simp
  have h2: "call_tool (\<lambda>_ _ _. []) \<lparr>allowed = [''/r''], cwd = ''/''\<rparr>
              (EditFile ''/r/f'' [\<lparr>old_text = ''hi'', new_text = ''bye''\<rparr>] False)
              [([], Dir), ([''r''], Dir), ([''r'', ''f''], File ''hi'')] =
            (Inr (ToolResult (PEdit False ''/r/f'' [EditMatched ''hi'' ''bye'']
                  (''- hi'' @ [newline] @ ''+ bye'' @ [newline]) True)),
             [([], Dir), ([''r''], Dir), ([''r'', ''f''], File ''bye'')])"
    by code_simp
  show ?thesis using edit_file_persists [OF h1 h2] by simp
qed

text \<open>
  C20. \<open>move_file\<close> never overwrites: when both paths are allowed and the
  destination exists, the call fails with an \<open>McpError\<close> and changes nothing.
\<close>

theorem move_file_destination_exists:
  assumes "allowed_path cfg s" "allowed_path cfg d" "fs_exists st (cwd cfg) d"
  shows "call_tool glob cfg (MoveFile s d) st =
           (Inl (McpError InvalidRequest (''Destination '' @ d @ '' already exists'')), st)"
  using assms by (simp add: handle_move_file_def)

lemma move_file_destination_exists_witness:
  "call_tool (\<lambda>_ _ _. []) \<lparr>allowed = [''/r''], cwd = ''/''\<rparr> (MoveFile ''/r/a'' ''/r/b'')
     [([], Dir), ([''r''], Dir), ([''r'', ''a''], File ''x''), ([''r'', ''b''], File ''y'')] =
   (Inl (McpError InvalidRequest ''Destination /r/b already exists''),
    [([], Dir), ([''r''], Dir), ([''r'', ''a''], File ''x''), ([''r'', ''b''], File ''y'')])"
proof -
  have h1: "allowed_path \<lparr>allowed = [''/r''], cwd = ''/''\<rparr> ''/r/a''" by code_simp
  have h2: "allowed_path \<lparr>allowed = [''/r''], cwd = ''/''\<rparr> ''/r/b''" by code_simp
  have h3: "fs_exists [([], Dir), ([''r''], Dir), ([''r'', ''a''], File ''x''), ([''r'', ''b''], File ''y'')]
              (cwd \<lparr>allowed = [''/r''], cwd = ''/''\<rparr>) ''/r/b''" by code_simp
  show ?thesis using move_file_destination_exists [OF h1 h2 h3] by simp
qed

text \<open>
  \<open>read_multiple_files\<close> reports one entry per requested path, in order: a
  disallowed path gets an access-denied entry, a failed read its error, and the
  other paths their content; one bad path never blocks the others and the store
  is unchanged.
\<close>

lemma read_multiple_files_per_path:
  "call_tool glob cfg (ReadMultipleFiles ps) st = (Inr (ToolResult (PReadResults rs)), st') \<Longrightarrow>
   st' = st \<and> length rs = length ps \<and>
   (\<forall>i < length ps. rs ! i = (if allowed_path cfg (ps ! i)
        then (case fs_read_file st (cwd cfg) (ps ! i) of
                Inl e \<Rightarrow> ReadFailed (ps ! i) e | Inr c \<Rightarrow> ReadContent (ps ! i) c)
        else ReadDenied (ps ! i)))"
  by (auto simp: handle_read_multiple_files_def read_one_def)

text \<open>
  C24. Whatever the \<open>glob\<close> package returns, every path \<open>search_files\<close>
  reports passes \<open>isPathAllowed\<close>, and the search changes nothing.
\<close>

theorem search_files_results_allowed:
  "call_tool glob cfg (SearchFiles p pat ex) st = (Inr (ToolResult (PMatches ms)), st') \<Longrightarrow>
   st' = st \<and> (\<forall>m \<in> set ms. allowed_path cfg m)"
  by (auto simp: handle_search_files_def Let_def split: if_splits)

lemma search_files_results_allowed_witness:
  "allowed_path \<lparr>allowed = [''/r''], cwd = ''/''\<rparr> ''/r/a''"
proof -
  have h: "call_tool (\<lambda>_ _ _. [''/r/a'', ''/etc/x'']) \<lparr>allowed = [''/r''], cwd = ''/''\<rparr>
             (SearchFiles ''/r'' ''*'' []) [([], Dir)] =
           (Inr (ToolResult (PMatches [''/r/a''])), [([], Dir)])"
    by code_simp
  show ?thesis using search_files_results_allowed [OF h] by simp
qed


text \<open>
  C22. \<open>create_directory\<close> does what it says: after a successful call the path
  is an existing directory, and the call has only added directories.
\<close>

theorem create_directory_creates:
  assumes "call_tool glob cfg (CreateDirectory p) st = (Inr (ToolResult r), st')"
  shows "fs_stat st' (cwd cfg) p = Inr Dir \<and> grows_dirs st st'"
  using assms
  by (auto simp: handle_create_directory_def fs_mkdir_recursive_def mkdirp_outermost_stat
      intro: mkdirp_grows split: if_splits sum.splits)

theorem create_directory_creates_witness:
  "fs_stat (snd (call_tool (\<lambda>_ _ _. []) \<lparr>allowed = [''/r''], cwd = ''/''\<rparr> (CreateDirectory ''/r/a/b'') [([], Dir), ([''r''], Dir)]))
     ''/'' ''/r/a/b'' = Inr Dir \<and>
   grows_dirs [([], Dir), ([''r''], Dir)]
     (snd (call_tool (\<lambda>_ _ _. []) \<lparr>allowed = [''/r''], cwd = ''/''\<rparr> (CreateDirectory ''/r/a/b'') [([], Dir), ([''r''], Dir)]))"
proof -
  have "call_tool (\<lambda>_ _ _. []) \<lparr>allowed = [''/r''], cwd = ''/''\<rparr> (CreateDirectory ''/r/a/b'') [([], Dir), ([''r''], Dir)] =
        (Inr (ToolResult (PText ''Directory /r/a/b created or already exists'')),
         [([], Dir), ([''r''], Dir), ([''r'', ''a''], Dir), ([''r'', ''a'', ''b''], Dir)])"
    by code_simp
  from create_directory_creates [OF this] this show ?thesis by simp
qed



text \<open>
  C21. \<open>move_file\<close> moves: on a well-formed store, after a successful move of an
  existing source, the destination holds what the source held, and the source is
  gone unless both name the same entry.
\<close>

theorem move_file_moves:
  assumes wf: "wf_fs st" and call: "call_tool glob cfg (MoveFile src dst) st = (Inr (ToolResult r), st')"
    and ex: "lookup st (resolve_segs (cwd cfg) src) \<noteq> None"
  shows "lookup st' (resolve_segs (cwd cfg) dst) = lookup st (resolve_segs (cwd cfg) src) \<and>
         (resolve_segs (cwd cfg) src \<noteq> resolve_segs (cwd cfg) dst \<longrightarrow>
            lookup st' (resolve_segs (cwd cfg) src) = None)"
proof -
  from call obtain st1 where mk: "fs_mkdir_recursive st (cwd cfg) (dirname dst) = Inr st1"
    and rn: "fs_rename st1 (cwd cfg) src dst = Inr st'"
    by (auto simp: handle_move_file_def split: if_splits sum.splits)
  have wf1: "wf_fs st1" using mkdirp_wf mk wf by (simp add: fs_mkdir_recursive_def)
  have "lookup st1 (resolve_segs (cwd cfg) src) = lookup st (resolve_segs (cwd cfg) src)"
    using mkdir_step_ok [of st "cwd cfg" "dirname dst"] mk ex unfolding grows_dirs_def by auto
  with fs_rename_moves [OF wf1 rn] show ?thesis by simp
qed

theorem move_file_moves_witness:
  "lookup (snd (call_tool (\<lambda>_ _ _. []) \<lparr>allowed = [''/r''], cwd = ''/''\<rparr> (MoveFile ''/r/a'' ''/r/b'')
                  [([], Dir), ([''r''], Dir), ([''r'', ''a''], File ''x'')])) [''r'', ''b''] = Some (File ''x'') \<and>
   lookup (snd (call_tool (\<lambda>_ _ _. []) \<lparr>allowed = [''/r''], cwd = ''/''\<rparr> (MoveFile ''/r/a'' ''/r/b'')
                  [([], Dir), ([''r''], Dir), ([''r'', ''a''], File ''x'')])) [''r'', ''a''] = None"
proof -
  have "call_tool (\<lambda>_ _ _. []) \<lparr>allowed = [''/r''], cwd = ''/''\<rparr> (MoveFile ''/r/a'' ''/r/b'')
          [([], Dir), ([''r''], Dir), ([''r'', ''a''], File ''x'')] =
        (Inr (ToolResult (PText ''Successfully moved /r/a to /r/b'')),
         [([], Dir), ([''r''], Dir), ([''r'', ''b''], File ''x'')])"
    by code_simp
  moreover have "wf_fs [([], Dir), ([''r''], Dir), ([''r'', ''a''], File ''x'')]" by code_simp
  moreover have "resolve_segs ''/'' ''/r/a'' = [''r'', ''a'']" "resolve_segs ''/'' ''/r/b'' = [''r'', ''b'']"
    by code_simp+
  ultimately show ?thesis
    using move_file_moves [of "[([], Dir), ([''r''], Dir), ([''r'', ''a''], File ''x'')]" "\<lambda>_ _ _. []"
        "\<lparr>allowed = [''/r''], cwd = ''/''\<rparr>" "''/r/a''" "''/r/b''"] by (simp add: lookup_def)
qed



end
