(* ===== verification/Protocol.thy ===== *)
theory Protocol
  imports Dispatcher
begin

text \<open>
  The protocol surface of \<open>src/filesystem/src/index.ts\<close> besides the tool calls: the
  \<open>ListTools\<close> handler (lines 118--301), whose tool list with JSON input schemas is
  data here (\<open>tool_list\<close>); the \<open>ListResources\<close> and \<open>ReadResource\<close> handlers
  (lines 81--113, \<open>resource_list\<close>, \<open>read_resource\<close>); and the
  destructuring of the untyped \<open>arguments\<close> object at the head of each case of the
  tool switch (lines 307, 312, 329, \<dots>), for arguments of the documented types
  (\<open>decode_call\<close>). The code itself validates nothing: the lemmas show that every
  request whose arguments conform to the listed schema of its tool is decoded to the
  case of the switch with that tool's name, that any other name reaches the
  \<open>default\<close> case, and that the arguments a client builds for a call
  (\<open>encode_args\<close>) conform to the schema and decode back to the call.
\<close>

datatype json =
    JNull
  | JBool bool
  | JNum int
  | JStr string
  | JArr "json list"
  | JObj "(string \<times> json) list"

text \<open>The JSON-schema fragment the tool list uses; a property has a description.\<close>

datatype schema =
    SString
  | SBoolean
  | SArray schema
  | SObject "(string \<times> schema \<times> string) list" "string list"

record tool_spec =
  tool_name :: string
  tool_description :: string
  input_schema :: schema

text \<open>The entries of the \<open>tools\<close> array of the \<open>ListTools\<close> handler, one
  definition per object literal (lines 121--298).\<close>

definition read_file_tool :: tool_spec where
  "read_file_tool =
     \<lparr>tool_name = ''read_file'', tool_description = ''Read complete contents of a file'',
      input_schema = SObject [(''path'', SString, ''Path to the file'')] [''path'']\<rparr>"

definition read_multiple_files_tool :: tool_spec where
  "read_multiple_files_tool =
     \<lparr>tool_name = ''read_multiple_files'', tool_description = ''Read multiple files simultaneously'',
      input_schema = SObject [(''paths'', SArray SString, ''Array of file paths to read'')] [''paths'']\<rparr>"

definition write_file_tool :: tool_spec where
  "write_file_tool =
     \<lparr>tool_name = ''write_file'', tool_description = ''Create new file or overwrite existing'',
      input_schema = SObject [(''path'', SString, ''Path to the file''),
                              (''content'', SString, ''Content to write to the file'')] [''path'', ''content'']\<rparr>"

definition edit_file_tool :: tool_spec where
  "edit_file_tool =
     \<lparr>tool_name = ''edit_file'', tool_description = ''Make selective edits using pattern matching'',
      input_schema = SObject
        [(''path'', SString, ''Path to the file''),
         (''edits'', SArray (SObject [(''oldText'', SString, ''Text to search for''),
                                      (''newText'', SString, ''Text to replace with'')]
                                     [''oldText'', ''newText'']), ''List of edit operations''),
         (''dryRun'', SBoolean, ''Preview changes without applying'')] [''path'', ''edits'']\<rparr>"

definition create_directory_tool :: tool_spec where
  "create_directory_tool =
     \<lparr>tool_name = ''create_directory'', tool_description = ''Create new directory or ensure it exists'',
      input_schema = SObject [(''path'', SString, ''Path to the directory'')] [''path'']\<rparr>"

definition list_directory_tool :: tool_spec where
  "list_directory_tool =
     \<lparr>tool_name = ''list_directory'', tool_description = ''List directory contents'',
      input_schema = SObject [(''path'', SString, ''Path to the directory'')] [''path'']\<rparr>"

definition move_file_tool :: tool_spec where
  "move_file_tool =
     \<lparr>tool_name = ''move_file'', tool_description = ''Move or rename files and directories'',
      input_schema = SObject [(''source'', SString, ''Source path''),
                              (''destination'', SString, ''Destination path'')] [''source'', ''destination'']\<rparr>"

definition search_files_tool :: tool_spec where
  "search_files_tool =
     \<lparr>tool_name = ''search_files'', tool_description = ''Recursively search for files/directories'',
      input_schema = SObject [(''path'', SString, ''Starting directory''),
                              (''pattern'', SString, ''Search pattern''),
                              (''excludePatterns'', SArray SString, ''Patterns to exclude'')]
                             [''path'', ''pattern'']\<rparr>"

definition get_file_info_tool :: tool_spec where
  "get_file_info_tool =
     \<lparr>tool_name = ''get_file_info'', tool_description = ''Get detailed file/directory metadata'',
      input_schema = SObject [(''path'', SString, ''Path to the file or directory'')] [''path'']\<rparr>"

definition list_allowed_directories_tool :: tool_spec where
  "list_allowed_directories_tool =
     \<lparr>tool_name = ''list_allowed_directories'',
      tool_description = ''List all directories the server is allowed to access'',
      input_schema = SObject [] []\<rparr>"

text \<open>Lines 118--301: the handler returns the tools in this order.\<close>

definition tool_list :: "tool_spec list" where
  "tool_list =
     [read_file_tool, read_multiple_files_tool, write_file_tool, edit_file_tool, create_directory_tool,
      list_directory_tool, move_file_tool, search_files_tool, get_file_info_tool, list_allowed_directories_tool]"

text \<open>Conformance of a JSON value to a schema: the types match, the required
  properties are present, and every described property has its type.\<close>

fun conforms :: "schema \<Rightarrow> json \<Rightarrow> bool" where
  "conforms SString v = (case v of JStr _ \<Rightarrow> True | _ \<Rightarrow> False)"
| "conforms SBoolean v = (case v of JBool _ \<Rightarrow> True | _ \<Rightarrow> False)"
| "conforms (SArray s) v = (case v of JArr xs \<Rightarrow> list_all (conforms s) xs | _ \<Rightarrow> False)"
| "conforms (SObject props req) v =
     (case v of
        JObj fs \<Rightarrow>
          list_all (\<lambda>r. r \<in> set (map fst fs)) req \<and>
          list_all (\<lambda>(k, s, d). case map_of fs k of None \<Rightarrow> True | Some x \<Rightarrow> conforms s x) props
      | _ \<Rightarrow> False)"

subsection \<open>Destructuring the arguments\<close>

text \<open>ECMAScript's \<open>ToString\<close> on the values a JSON argument can hold, \<open>None\<close> being
  \<open>undefined\<close> (numbers are integers here); \<open>Array.prototype.join\<close> writes
  \<open>null\<close> elements as the empty string.\<close>

fun js_digits :: "nat \<Rightarrow> string" where
  "js_digits n =
     (if n < 10 then [char_of (48 + n)] else js_digits (n div 10) @ [char_of (48 + n mod 10)])"

definition js_int_string :: "int \<Rightarrow> string" where
  "js_int_string i = (if i < 0 then ''-'' @ js_digits (nat (- i)) else js_digits (nat i))"

fun js_value_string :: "json \<Rightarrow> string" where
  "js_value_string JNull = ''null''"
| "js_value_string (JBool b) = (if b then ''true'' else ''false'')"
| "js_value_string (JNum i) = js_int_string i"
| "js_value_string (JStr s) = s"
| "js_value_string (JArr xs) =
     join_on (CHR '','') (map (\<lambda>x. if x = JNull then [] else js_value_string x) xs)"
| "js_value_string (JObj fs) = ''[object Object]''"

definition js_to_string :: "json option \<Rightarrow> string" where
  "js_to_string v = (case v of None \<Rightarrow> ''undefined'' | Some x \<Rightarrow> js_value_string x)"

text \<open>ECMAScript's \<open>ToBoolean\<close>, the test \<open>!dryRun\<close> of line 420.\<close>

definition js_truthy :: "json \<Rightarrow> bool" where
  "js_truthy v =
     (case v of JNull \<Rightarrow> False | JBool b \<Rightarrow> b | JNum i \<Rightarrow> i \<noteq> 0 | JStr s \<Rightarrow> s \<noteq> []
      | JArr _ \<Rightarrow> True | JObj _ \<Rightarrow> True)"

definition field :: "json \<Rightarrow> string \<Rightarrow> json option" where
  "field v k = (case v of JObj fs \<Rightarrow> map_of fs k | _ \<Rightarrow> None)"

text \<open>A path argument must be a string: \<open>path.resolve\<close> in \<open>isPathAllowed\<close> throws a
  \<open>TypeError\<close> on anything else (\<open>None\<close>).\<close>

definition json_string :: "json option \<Rightarrow> string option" where
  "json_string v = (case v of Some (JStr s) \<Rightarrow> Some s | _ \<Rightarrow> None)"

definition json_strings :: "json option \<Rightarrow> string list option" where
  "json_strings v =
     (case v of
        Some (JArr xs) \<Rightarrow>
          (if list_all (\<lambda>x. case x of JStr _ \<Rightarrow> True | _ \<Rightarrow> False) xs
           then Some (map (\<lambda>x. case x of JStr s \<Rightarrow> s | _ \<Rightarrow> []) xs) else None)
      | _ \<Rightarrow> None)"

text \<open>\<open>for (const filePath of paths)\<close>, line 332: an array is iterated by element, a
  string by character; anything else is not iterable.\<close>

definition json_paths :: "json option \<Rightarrow> string list option" where
  "json_paths v = (case v of Some (JStr s) \<Rightarrow> Some (map (\<lambda>c. [c]) s) | _ \<Rightarrow> json_strings v)"

text \<open>\<open>const { oldText, newText } = edit\<close>, line 399: destructuring \<open>null\<close> throws;
  on any other value that is not an object both properties are \<open>undefined\<close>. The
  texts are then used by \<open>includes\<close> and \<open>replace\<close>, which apply \<open>ToString\<close>.\<close>

definition json_edit :: "json \<Rightarrow> edit_op option" where
  "json_edit v =
     (case v of
        JNull \<Rightarrow> None
      | JObj fs \<Rightarrow>
          Some \<lparr>old_text = js_to_string (map_of fs ''oldText''),
                new_text = js_to_string (map_of fs ''newText'')\<rparr>
      | _ \<Rightarrow> Some \<lparr>old_text = ''undefined'', new_text = ''undefined''\<rparr>)"

text \<open>\<open>for (const edit of edits)\<close>, line 398: an array or a string (its characters)
  is iterated; anything else is not iterable.\<close>

definition json_edits :: "json option \<Rightarrow> edit_op list option" where
  "json_edits v =
     (case v of
        Some (JArr xs) \<Rightarrow>
          (if list_all (\<lambda>x. json_edit x \<noteq> None) xs then Some (map (\<lambda>x. the (json_edit x)) xs)
           else None)
      | Some (JStr s) \<Rightarrow> Some (map (\<lambda>c. the (json_edit (JStr [c]))) s)
      | _ \<Rightarrow> None)"

text \<open>\<open>dryRun = false\<close> (line 381) is the default for an absent value, and the flag is
  used by its truthiness; \<open>excludePatterns = []\<close> (line 508) is the default for an
  absent value, and a list of strings is passed to \<open>glob\<close>'s \<open>ignore\<close>.\<close>

definition json_dry_run :: "json option \<Rightarrow> bool" where
  "json_dry_run v = (case v of None \<Rightarrow> False | Some x \<Rightarrow> js_truthy x)"

definition json_excludes :: "json option \<Rightarrow> string list option" where
  "json_excludes v = (case v of None \<Rightarrow> Some [] | _ \<Rightarrow> json_strings v)"

text \<open>The switch on the name with each case's destructuring (lines 307--572). The
  search pattern is interpolated into a template string (line 517), so it is
  converted by \<open>ToString\<close>. \<open>None\<close> where the case fails with a \<open>TypeError\<close> (a
  path that is not a string, edits or paths that are not iterable, a \<open>null\<close> edit,
  a \<open>content\<close> that is not a string), or where \<open>excludePatterns\<close> is not a list of
  strings, which is left to \<open>glob\<close>.\<close>

definition decode_call :: "string \<Rightarrow> json \<Rightarrow> tool_call option" where
  "decode_call name args =
     (let str = (\<lambda>k. json_string (field args k))
      in if name = ''read_file'' then map_option ReadFile (str ''path'')
         else if name = ''read_multiple_files'' then
           map_option ReadMultipleFiles (json_paths (field args ''paths''))
         else if name = ''write_file'' then
           (case (str ''path'', str ''content'') of
              (Some p, Some c) \<Rightarrow> Some (WriteFile p c) | _ \<Rightarrow> None)
         else if name = ''edit_file'' then
           (case (str ''path'', json_edits (field args ''edits'')) of
              (Some p, Some es) \<Rightarrow> Some (EditFile p es (json_dry_run (field args ''dryRun'')))
            | _ \<Rightarrow> None)
         else if name = ''create_directory'' then map_option CreateDirectory (str ''path'')
         else if name = ''list_directory'' then map_option ListDirectory (str ''path'')
         else if name = ''move_file'' then
           (case (str ''source'', str ''destination'') of
              (Some s, Some d) \<Rightarrow> Some (MoveFile s d) | _ \<Rightarrow> None)
         else if name = ''search_files'' then
           (case (str ''path'', json_excludes (field args ''excludePatterns'')) of
              (Some p, Some ex) \<Rightarrow> Some (SearchFiles p (js_to_string (field args ''pattern'')) ex)
            | _ \<Rightarrow> None)
         else if name = ''get_file_info'' then map_option GetFileInfo (str ''path'')
         else if name = ''list_allowed_directories'' then Some ListAllowedDirectories
         else Some (UnknownTool name))"

text \<open>The case label of the switch that handles a call.\<close>

primrec call_name :: "tool_call \<Rightarrow> string" where
  "call_name (ReadFile p) = ''read_file''"
| "call_name (ReadMultipleFiles ps) = ''read_multiple_files''"
| "call_name (WriteFile p c) = ''write_file''"
| "call_name (EditFile p es d) = ''edit_file''"
| "call_name (CreateDirectory p) = ''create_directory''"
| "call_name (ListDirectory p) = ''list_directory''"
| "call_name (MoveFile s d) = ''move_file''"
| "call_name (SearchFiles p pat ex) = ''search_files''"
| "call_name (GetFileInfo p) = ''get_file_info''"
| "call_name ListAllowedDirectories = ''list_allowed_directories''"
| "call_name (UnknownTool n) = n"

subsection \<open>ListResources and ReadResource\<close>

record resource_spec =
  resource_uri :: string
  resource_mime :: string
  resource_name :: string
  resource_description :: string

text \<open>Lines 81--93: the one listed resource.\<close>

definition resource_list :: "resource_spec list" where
  "resource_list =
    [\<lparr>resource_uri = ''file://system'', resource_mime = ''application/json'',
      resource_name = ''File System Operations Interface'',
      resource_description = ''Interface for performing file system operations''\<rparr>]"

text \<open>Lines 98--113: the one resource \<open>file://system\<close>, whose text lists the allowed
  directories; the contents are the URI, the MIME type and the directories (the
  JSON text with its fixed message is not rendered).\<close>

definition read_resource :: "config \<Rightarrow> string \<Rightarrow> mcp_error + (string \<times> string \<times> string list)" where
  "read_resource cfg uri =
     (if uri \<noteq> ''file://system'' then
        Inl (McpError ResourceNotFound (''Resource '' @ uri @ '' not found''))
      else Inr (uri, ''application/json'', allowed cfg))"

text \<open>The calls the switch handles by name (all but the \<open>default\<close> case), and the
  arguments a client sends for a call, as the listed schemas describe them.\<close>

primrec known_call :: "tool_call \<Rightarrow> bool" where
  "known_call (UnknownTool n) = False"
| "known_call (ReadFile p) = True"
| "known_call (ReadMultipleFiles ps) = True"
| "known_call (WriteFile p c) = True"
| "known_call (EditFile p es d) = True"
| "known_call (CreateDirectory p) = True"
| "known_call (ListDirectory p) = True"
| "known_call (MoveFile s d) = True"
| "known_call (SearchFiles p pat ex) = True"
| "known_call (GetFileInfo p) = True"
| "known_call ListAllowedDirectories = True"


definition encode_edit :: "edit_op \<Rightarrow> json" where
  "encode_edit e = JObj [(''oldText'', JStr (old_text e)), (''newText'', JStr (new_text e))]"

primrec encode_args :: "tool_call \<Rightarrow> json" where
  "encode_args (ReadFile p) = JObj [(''path'', JStr p)]"
| "encode_args (ReadMultipleFiles ps) = JObj [(''paths'', JArr (map JStr ps))]"
| "encode_args (WriteFile p c) = JObj [(''path'', JStr p), (''content'', JStr c)]"
| "encode_args (EditFile p es d) =
     JObj [(''path'', JStr p), (''edits'', JArr (map encode_edit es)), (''dryRun'', JBool d)]"
| "encode_args (CreateDirectory p) = JObj [(''path'', JStr p)]"
| "encode_args (ListDirectory p) = JObj [(''path'', JStr p)]"
| "encode_args (MoveFile s d) = JObj [(''source'', JStr s), (''destination'', JStr d)]"
| "encode_args (SearchFiles p pat ex) =
     JObj [(''path'', JStr p), (''pattern'', JStr pat), (''excludePatterns'', JArr (map JStr ex))]"
| "encode_args (GetFileInfo p) = JObj [(''path'', JStr p)]"
| "encode_args ListAllowedDirectories = JObj []"
| "encode_args (UnknownTool n) = JObj []"

subsection \<open>Properties of the protocol surface\<close>

lemmas tool_list_unfold = tool_list_def read_file_tool_def read_multiple_files_tool_def
  write_file_tool_def edit_file_tool_def create_directory_tool_def list_directory_tool_def
  move_file_tool_def search_files_tool_def get_file_info_tool_def list_allowed_directories_tool_def

lemma conforms_object_field:
  assumes "conforms (SObject props req) v" "map_of props k = Some (s, d)"
  shows "case field v k of None \<Rightarrow> k \<notin> set req | Some x \<Rightarrow> conforms s x"
proof -
  obtain fs where v: "v = JObj fs" using assms(1) by (cases v) auto
  have "(k, s, d) \<in> set props" using assms(2) by (auto dest: map_of_SomeD)
  then have "case map_of fs k of None \<Rightarrow> True | Some x \<Rightarrow> conforms s x"
    using assms(1) v by (auto simp: list_all_iff)
  moreover have "k \<in> set req \<Longrightarrow> map_of fs k \<noteq> None"
    using assms(1) v by (auto simp: list_all_iff map_of_eq_None_iff)
  ultimately show ?thesis by (auto simp: v field_def split: option.splits)
qed

lemma json_is_string [simp]: "(case x of JStr _ \<Rightarrow> True | _ \<Rightarrow> False) = (\<exists>s. x = JStr s)"
  by (cases x) auto

lemma conforms_field:
  assumes "conforms (SObject props req) v" "map_option fst (map_of props k) = Some s"
  shows "case field v k of None \<Rightarrow> k \<notin> set req | Some x \<Rightarrow> conforms s x"
proof -
  obtain d where "map_of props k = Some (s, d)" using assms(2) by auto
  from conforms_object_field [OF assms(1) this] show ?thesis .
qed

lemma required_string_field:
  "conforms (SObject props req) v \<Longrightarrow> map_option fst (map_of props k) = Some SString \<Longrightarrow> k \<in> set req \<Longrightarrow>
   \<exists>s. json_string (field v k) = Some s"
  by (drule (1) conforms_field) (auto simp: json_string_def split: option.splits json.splits)

lemma required_strings_field:
  "conforms (SObject props req) v \<Longrightarrow> map_option fst (map_of props k) = Some (SArray SString) \<Longrightarrow>
   k \<in> set req \<Longrightarrow> \<exists>xs. json_paths (field v k) = Some xs"
  by (drule (1) conforms_field)
     (auto simp: json_paths_def json_strings_def list_all_iff split: option.splits json.splits)

lemma optional_strings_field:
  "conforms (SObject props req) v \<Longrightarrow> map_option fst (map_of props k) = Some (SArray SString) \<Longrightarrow>
   \<exists>xs. json_excludes (field v k) = Some xs"
  by (drule (1) conforms_field)
     (auto simp: json_excludes_def json_strings_def list_all_iff split: option.splits json.splits)

lemma object_schema_edit:
  "\<forall>x. conforms (SObject props req) x \<longrightarrow> json_edit x \<noteq> None"
  by (auto simp: json_edit_def split: json.splits)

lemma required_edits_field:
  assumes "conforms (SObject props req) v" "map_option fst (map_of props k) = Some (SArray e)"
    "k \<in> set req" "\<forall>x. conforms e x \<longrightarrow> json_edit x \<noteq> None"
  shows "\<exists>es. json_edits (field v k) = Some es"
proof -
  from conforms_field [OF assms(1,2)] assms(3)
  obtain xs where "field v k = Some (JArr xs)" "list_all (conforms e) xs"
    by (auto split: option.splits json.splits)
  with assms(4) show ?thesis by (auto simp: json_edits_def list_all_iff)
qed

text \<open>
  C29. Every tool that \<open>ListTools\<close> advertises is handled by the case of the tool
  switch with its name: arguments that conform to the tool's listed input schema
  are destructured into a call whose case label is that name.
\<close>

theorem listed_tools_decode:
  assumes "spec \<in> set tool_list" "conforms (input_schema spec) args"
  shows "\<exists>c. decode_call (tool_name spec) args = Some c \<and> call_name c = tool_name spec"
  using assms unfolding tool_list_unfold
  apply (simp only: list.set insert_iff empty_iff simp_thms)
  apply (elim disjE; simp only: tool_spec.simps)
  subgoal premises p
    using required_string_field [OF p(1), of "''path''"] by (auto simp: decode_call_def)
  subgoal premises p
    using required_strings_field [OF p(1), of "''paths''"] by (auto simp: decode_call_def)
  subgoal premises p
    using required_string_field [OF p(1), of "''path''"] required_string_field [OF p(1), of "''content''"]
    by (auto simp: decode_call_def)
  subgoal premises p
    using required_string_field [OF p(1), of "''path''"]
      required_edits_field [OF p(1) _ _ object_schema_edit, of "''edits''"]
    by (auto simp: decode_call_def)
  subgoal premises p
    using required_string_field [OF p(1), of "''path''"] by (auto simp: decode_call_def)
  subgoal premises p
    using required_string_field [OF p(1), of "''path''"] by (auto simp: decode_call_def)
  subgoal premises p
    using required_string_field [OF p(1), of "''source''"] required_string_field [OF p(1), of "''destination''"]
    by (auto simp: decode_call_def)
  subgoal premises p
    using required_string_field [OF p(1), of "''path''"]
      optional_strings_field [OF p(1), of "''excludePatterns''"]
    by (auto simp: decode_call_def)
  subgoal premises p
    using required_string_field [OF p(1), of "''path''"] by (auto simp: decode_call_def)
  subgoal by (auto simp: decode_call_def)
  done

theorem listed_tools_decode_witness:
  "\<exists>c. decode_call ''edit_file''
          (JObj [(''path'', JStr ''/r/f''), (''edits'', JArr [JObj [(''oldText'', JStr ''a''), (''newText'', JStr ''b'')]])])
        = Some c \<and> call_name c = ''edit_file''"
  using listed_tools_decode [of "tool_list ! 3"
      "JObj [(''path'', JStr ''/r/f''), (''edits'', JArr [JObj [(''oldText'', JStr ''a''), (''newText'', JStr ''b'')]])]"]
  by (simp add: tool_list_unfold)

text \<open>
  C30. A tool name that \<open>ListTools\<close> does not advertise reaches the \<open>default\<close> case of
  the switch, which throws \<open>MethodNotFound\<close> with the message \<open>Unknown tool: name\<close>
  and leaves the file system unchanged, whatever the arguments.
\<close>

theorem unlisted_tool_method_not_found:
  assumes "name \<notin> set (map tool_name tool_list)"
  shows "map_option (\<lambda>c. call_tool glob cfg c st) (decode_call name args)
           = Some (Inl (McpError MethodNotFound (''Unknown tool: '' @ name)), st)"
  using assms by (simp add: tool_list_unfold decode_call_def)

theorem unlisted_tool_method_not_found_witness:
  "map_option (\<lambda>c. call_tool (\<lambda>_ _ _. []) \<lparr>allowed = [''/r''], cwd = ''/''\<rparr> c [([], Dir)])
      (decode_call ''delete_file'' (JObj []))
     = Some (Inl (McpError MethodNotFound (''Unknown tool: delete_file'')), [([], Dir)])"
  using unlisted_tool_method_not_found [of "''delete_file''" "\<lambda>_ _ _. []" "\<lparr>allowed = [''/r''], cwd = ''/''\<rparr>"
      "[([], Dir)]" "JObj []"]
  by (simp add: tool_list_unfold)

text \<open>
  The advertised tool list and the switch agree: the listed names are
  distinct and are exactly the case labels of the calls the switch handles.
\<close>

lemma tool_list_matches_switch:
  "distinct (map tool_name tool_list) \<and> set (map tool_name tool_list) = call_name ` {c. known_call c}"
proof
  show "distinct (map tool_name tool_list)" by (simp add: tool_list_unfold)
  have "call_name c \<in> set (map tool_name tool_list)" if "known_call c" for c
    using that by (cases c) (simp_all add: tool_list_unfold)
  moreover have "set (map tool_name tool_list) =
      call_name ` {ReadFile [], ReadMultipleFiles [], WriteFile [] [], EditFile [] [] False,
                   CreateDirectory [], ListDirectory [], MoveFile [] [], SearchFiles [] [] [],
                   GetFileInfo [], ListAllowedDirectories}"
    by (simp add: tool_list_unfold)
  moreover have "{ReadFile [], ReadMultipleFiles [], WriteFile [] [], EditFile [] [] False,
                   CreateDirectory [], ListDirectory [], MoveFile [] [], SearchFiles [] [] [],
                   GetFileInfo [], ListAllowedDirectories} \<subseteq> {c. known_call c}"
    by simp
  ultimately show "set (map tool_name tool_list) = call_name ` {c. known_call c}"
    by (metis (no_types, lifting) image_mono image_subsetI mem_Collect_eq subset_antisym)
qed

lemma json_edit_encode_edit [simp]: "json_edit (encode_edit e) = Some e"
  by (simp add: json_edit_def encode_edit_def js_to_string_def)

lemma json_strings_map_JStr [simp]: "json_strings (Some (JArr (map JStr xs))) = Some xs"
  by (simp add: json_strings_def list_all_iff comp_def)

lemma json_paths_map_JStr [simp]: "json_paths (Some (JArr (map JStr xs))) = Some xs"
  by (simp add: json_paths_def)

lemma json_edits_map_encode [simp]: "json_edits (Some (JArr (map encode_edit es))) = Some es"
  by (simp add: json_edits_def list_all_iff comp_def)

text \<open>
  C31. Round trip of the arguments: the arguments a client builds for a handled
  call conform to the listed schema of the call's tool, and the switch's
  destructuring gives back the call.
\<close>

theorem decode_encode_args:
  assumes "known_call c"
  shows "decode_call (call_name c) (encode_args c) = Some c \<and>
         list_ex (\<lambda>spec. tool_name spec = call_name c \<and> conforms (input_schema spec) (encode_args c)) tool_list"
  using assms
  by (cases c) (simp_all add: decode_call_def tool_list_unfold field_def json_string_def json_dry_run_def
      js_truthy_def js_to_string_def json_excludes_def list_all_iff encode_edit_def)

theorem decode_encode_args_witness:
  "decode_call ''move_file'' (JObj [(''source'', JStr ''/r/a''), (''destination'', JStr ''/r/b'')])
     = Some (MoveFile ''/r/a'' ''/r/b'')"
  using decode_encode_args [of "MoveFile ''/r/a'' ''/r/b''"] by simp


text \<open>
  ListResources and ReadResource agree: reading a URI succeeds exactly when
  ListResources lists it, with the listed MIME type and the allowed directories
  as contents, and any other URI fails with \<open>ResourceNotFound\<close>.
\<close>

lemma read_resource_listed:
  "read_resource cfg uri =
     (case find (\<lambda>r. resource_uri r = uri) resource_list of
        Some r \<Rightarrow> Inr (uri, resource_mime r, allowed cfg)
      | None \<Rightarrow> Inl (McpError ResourceNotFound (''Resource '' @ uri @ '' not found'')))"
  by (auto simp: read_resource_def resource_list_def)

text \<open>
  The edits are not validated: an edit without \<open>oldText\<close> is accepted, and
  \<open>includes\<close>/\<open>replace\<close> convert the missing value to the text
  \<open>undefined\<close>, which is then searched for in the file.
\<close>

lemma edit_without_old_text_searches_undefined:
  "decode_call ''edit_file'' (JObj [(''path'', JStr p), (''edits'', JArr [JObj [(''newText'', JStr t)]])])
     = Some (EditFile p [\<lparr>old_text = ''undefined'', new_text = t\<rparr>] False)"
  by (simp add: decode_call_def field_def json_string_def json_edits_def json_edit_def js_to_string_def
      json_dry_run_def)

text \<open>
  \<open>dryRun\<close> is used by its truthiness: the string \<open>"false"\<close> makes the edit a
  dry run, so the call leaves the file system unchanged.
\<close>

lemma dry_run_string_false:
  assumes "json_edits (Some e) = Some es"
  shows "map_option (\<lambda>c. snd (call_tool glob cfg c st))
           (decode_call ''edit_file'' (JObj [(''path'', JStr p), (''edits'', e), (''dryRun'', JStr ''false'')]))
         = Some st"
  using assms
  by (auto simp: decode_call_def field_def json_string_def json_dry_run_def js_truthy_def handle_edit_file_def
      split: sum.splits prod.splits)

theorem dry_run_string_false_witness:
  "map_option (\<lambda>c. snd (call_tool (\<lambda>_ _ _. []) \<lparr>allowed = [''/r''], cwd = ''/''\<rparr> c [([], Dir), ([''r''], Dir), ([''r'', ''f''], File ''a'')]))
     (decode_call ''edit_file''
        (JObj [(''path'', JStr ''/r/f''), (''edits'', JArr [JObj [(''oldText'', JStr ''a''), (''newText'', JStr ''b'')]]),
               (''dryRun'', JStr ''false'')]))
   = Some [([], Dir), ([''r''], Dir), ([''r'', ''f''], File ''a'')] \<and>
   snd (call_tool (\<lambda>_ _ _. []) \<lparr>allowed = [''/r''], cwd = ''/''\<rparr>
          (EditFile ''/r/f'' [\<lparr>old_text = ''a'', new_text = ''b''\<rparr>] False) [([], Dir), ([''r''], Dir), ([''r'', ''f''], File ''a'')]) \<noteq> [([], Dir), ([''r''], Dir), ([''r'', ''f''], File ''a'')]"
proof
  show "map_option (\<lambda>c. snd (call_tool (\<lambda>_ _ _. []) \<lparr>allowed = [''/r''], cwd = ''/''\<rparr> c [([], Dir), ([''r''], Dir), ([''r'', ''f''], File ''a'')]))
     (decode_call ''edit_file''
        (JObj [(''path'', JStr ''/r/f''), (''edits'', JArr [JObj [(''oldText'', JStr ''a''), (''newText'', JStr ''b'')]]),
               (''dryRun'', JStr ''false'')]))
   = Some [([], Dir), ([''r''], Dir), ([''r'', ''f''], File ''a'')]"
    using dry_run_string_false [of "JArr [JObj [(''oldText'', JStr ''a''), (''newText'', JStr ''b'')]]"
      "[\<lparr>old_text = ''a'', new_text = ''b''\<rparr>]" "\<lambda>_ _ _. []" "\<lparr>allowed = [''/r''], cwd = ''/''\<rparr>" "[([], Dir), ([''r''], Dir), ([''r'', ''f''], File ''a'')]" "''/r/f''"]
    by (simp add: json_edits_def json_edit_def js_to_string_def)
  show "snd (call_tool (\<lambda>_ _ _. []) \<lparr>allowed = [''/r''], cwd = ''/''\<rparr>
          (EditFile ''/r/f'' [\<lparr>old_text = ''a'', new_text = ''b''\<rparr>] False) [([], Dir), ([''r''], Dir), ([''r'', ''f''], File ''a'')]) \<noteq> [([], Dir), ([''r''], Dir), ([''r'', ''f''], File ''a'')]"
    by code_simp
qed

end
