(* ===== verification/Request.thy ===== *)
theory Request
  imports Protocol
begin

text \<open>
  The whole \<open>CallToolRequest\<close> handler of \<open>src/filesystem/src/index.ts\<close>
  (lines 306--587) on the raw JSON \<open>arguments\<close>, as the server receives them:
  \<open>call_request\<close> destructures each case's arguments where the code does and
  answers with the \<open>isError\<close> envelope of a \<open>TypeError\<close> (\<open>ToolTypeError\<close>) at the
  point where Node rejects an argument of the wrong type: \<open>path.resolve\<close> in the
  guard for a path that is not a string, the \<open>for...of\<close> loops for values that
  cannot be iterated, \<open>fs.writeFile\<close> for a content that is not a string, after the
  parent directory has been created. A request without \<open>arguments\<close> behaves as one
  with the empty object: every case that destructures them needs a string path
  first. \<open>None\<close> marks the two inputs whose outcome depends on the Node or
  \<open>glob\<close> version and is not modelled: a \<open>content\<close> that is an array, and an
  \<open>excludePatterns\<close> that is not a list of strings.

  The lemmas show that on every request the typed destructuring accepts, the
  handler is the dispatcher \<open>call_tool\<close> of the decoded call, that the frame of
  \<open>call_tool\<close> carries over to raw requests, and that a type error changes the
  store only by the directories \<open>write_file\<close> creates before failing.
\<close>

definition type_error :: "fs \<Rightarrow> call_result" where
  "type_error st = (Inr ToolTypeError, st)"

text \<open>\<open>write_file\<close> with a \<open>content\<close> that is not a string: the parent directory is
  created (line 369) before \<open>fs.writeFile\<close> rejects the data (line 371).\<close>

definition write_bad_content :: "config \<Rightarrow> string \<Rightarrow> fs \<Rightarrow> call_result" where
  "write_bad_content cfg p st =
     (if \<not> allowed_path cfg p then (Inl (access_denied p), st)
      else (case fs_mkdir_recursive st (cwd cfg) (dirname p) of
              Inl (e, st1) \<Rightarrow> (Inr (ToolError e), st1)
            | Inr st1 \<Rightarrow> type_error st1))"

text \<open>\<open>edit_file\<close> whose \<open>edits\<close> cannot be iterated or hold \<open>null\<close>: the file is read
  (line 393) and the loop throws (line 398) before anything is written.\<close>

definition edit_bad_edits :: "config \<Rightarrow> string \<Rightarrow> fs \<Rightarrow> call_result" where
  "edit_bad_edits cfg p st =
     (if \<not> allowed_path cfg p then (Inl (access_denied p), st)
      else (case fs_read_file st (cwd cfg) p of
              Inl e \<Rightarrow> (Inr (ToolError e), st)
            | Inr _ \<Rightarrow> type_error st))"

definition call_request :: "glob_fn \<Rightarrow> config \<Rightarrow> string \<Rightarrow> json \<Rightarrow> fs \<Rightarrow> call_result option" where
  "call_request glob cfg name args st =
     (let str = (\<lambda>k. json_string (field args k));
          with_path = (\<lambda>k f. case str k of None \<Rightarrow> Some (type_error st) | Some p \<Rightarrow> f p)
      in if name = ''read_file'' then with_path ''path'' (\<lambda>p. Some (handle_read_file cfg p st))
         else if name = ''read_multiple_files'' then
           (case json_paths (field args ''paths'') of
              None \<Rightarrow> Some (type_error st)
            | Some ps \<Rightarrow> Some (handle_read_multiple_files cfg ps st))
         else if name = ''write_file'' then
           with_path ''path'' (\<lambda>p.
             case field args ''content'' of
               Some (JStr c) \<Rightarrow> Some (handle_write_file cfg p c st)
             | Some (JArr _) \<Rightarrow> None
             | _ \<Rightarrow> Some (write_bad_content cfg p st))
         else if name = ''edit_file'' then
           with_path ''path'' (\<lambda>p.
             case json_edits (field args ''edits'') of
               None \<Rightarrow> Some (edit_bad_edits cfg p st)
             | Some es \<Rightarrow> Some (handle_edit_file cfg p es (json_dry_run (field args ''dryRun'')) st))
         else if name = ''create_directory'' then
           with_path ''path'' (\<lambda>p. Some (handle_create_directory cfg p st))
         else if name = ''list_directory'' then
           with_path ''path'' (\<lambda>p. Some (handle_list_directory cfg p st))
         else if name = ''move_file'' then
           with_path ''source'' (\<lambda>s.
             if \<not> allowed_path cfg s then Some (Inl (access_denied s), st)
             else with_path ''destination'' (\<lambda>d. Some (handle_move_file cfg s d st)))
         else if name = ''search_files'' then
           with_path ''path'' (\<lambda>p.
             case json_excludes (field args ''excludePatterns'') of
               Some ex \<Rightarrow>
                 Some (handle_search_files glob cfg p (js_to_string (field args ''pattern'')) ex st)
             | None \<Rightarrow> (if \<not> allowed_path cfg p then Some (Inl (access_denied p), st) else None))
         else if name = ''get_file_info'' then
           with_path ''path'' (\<lambda>p. Some (handle_get_file_info cfg p st))
         else Some (call_tool glob cfg (the (decode_call name args)) st))"

subsection \<open>Properties of the request handler\<close>

lemma json_string_Some [simp]: "json_string v = Some s \<longleftrightarrow> v = Some (JStr s)"
  by (auto simp: json_string_def split: option.splits json.splits)

lemma json_string_JStr [simp]: "json_string (Some (JStr s)) = Some s"
  by (simp add: json_string_def)

lemma call_request_rel:
  assumes refl: "\<And>st. R st st" and trans: "\<And>a b c. R a b \<Longrightarrow> R b c \<Longrightarrow> R a c"
    and mk: "\<And>st p. R st (mkdir_store (fs_mkdir_recursive st (cwd cfg) p))"
    and wr: "\<And>st st' p c. allowed_path cfg p \<Longrightarrow> fs_write_file st (cwd cfg) p c = Inr st' \<Longrightarrow> R st st'"
    and rn: "\<And>st st' s d. allowed_path cfg s \<Longrightarrow> allowed_path cfg d \<Longrightarrow>
               fs_rename st (cwd cfg) s d = Inr st' \<Longrightarrow> R st st'"
    and req: "call_request glob cfg name args st = Some (r, st')"
  shows "R st st'"
proof -
  have tool: "R st (snd (call_tool glob cfg c st))" for c
    by (rule call_tool_rel [OF refl trans mk wr rn surjective_pairing])
  have "R st (snd (handle_read_file cfg p st))" "R st (snd (handle_read_multiple_files cfg ps st))"
    "R st (snd (handle_write_file cfg p c st))" "R st (snd (handle_edit_file cfg p es b st))"
    "R st (snd (handle_create_directory cfg p st))" "R st (snd (handle_list_directory cfg p st))"
    "R st (snd (handle_move_file cfg p q st))" "R st (snd (handle_search_files glob cfg p pat ex st))"
    "R st (snd (handle_get_file_info cfg p st))" for p q c es b ps pat ex
    using tool [of "ReadFile p"] tool [of "ReadMultipleFiles ps"] tool [of "WriteFile p c"]
      tool [of "EditFile p es b"] tool [of "CreateDirectory p"] tool [of "ListDirectory p"]
      tool [of "MoveFile p q"] tool [of "SearchFiles p pat ex"] tool [of "GetFileInfo p"] by simp_all
  moreover have "R st (snd (write_bad_content cfg p st))" for p
    by (auto simp: write_bad_content_def type_error_def refl split: sum.splits dest: mkdir_result_rel [where R = R, OF mk])
  moreover have "R st (snd (edit_bad_edits cfg p st))" for p
    by (auto simp: edit_bad_edits_def type_error_def refl split: sum.splits)
  moreover have "R st (snd (type_error st))" by (simp add: type_error_def refl)
  ultimately have "R st (snd res)" if "call_request glob cfg name args st = Some res" for res
    using that tool by (auto simp: call_request_def Let_def refl split: if_splits option.splits json.splits)
  from this [OF req] show ?thesis by simp
qed

lemma call_request_step_ok:
  "call_request glob cfg name args st = Some (r, st') \<Longrightarrow> step_ok cfg st st'"
  by (rule call_request_rel [where R = "step_ok cfg", OF step_ok_refl step_ok_trans])
     (auto intro: step_ok_grows mkdir_step_ok write_step_ok rename_step_ok)

lemma call_request_wf:
  assumes "call_request glob cfg name args st = Some (r, st')" "wf_fs st"
  shows "wf_fs st'"
  using call_request_rel [where R = "\<lambda>a b. wf_fs a \<longrightarrow> wf_fs b", OF _ _ _ _ _ assms(1)] assms(2)
  by (auto simp: fs_mkdir_recursive_wf dest: fs_write_file_wf fs_rename_wf)

lemma call_tool_not_type_error: "fst (call_tool glob cfg c st) \<noteq> Inr ToolTypeError"
  by (cases c) (auto simp: handler_defs Let_def split: if_splits sum.splits prod.splits)

text \<open>
  On every request whose arguments the typed destructuring accepts, the
  handler of raw requests is the dispatcher applied to the decoded call.
\<close>

lemma call_request_decode:
  assumes "decode_call name args = Some c"
  shows "call_request glob cfg name args st = Some (call_tool glob cfg c st)"
proof -
  consider "name = ''read_file''" | "name = ''read_multiple_files''" | "name = ''write_file''"
    | "name = ''edit_file''" | "name = ''create_directory''" | "name = ''list_directory''"
    | "name = ''move_file''" | "name = ''search_files''" | "name = ''get_file_info''"
    | "name \<notin> {''read_file'', ''read_multiple_files'', ''write_file'', ''edit_file'', ''create_directory'',
                ''list_directory'', ''move_file'', ''search_files'', ''get_file_info''}"
    by (simp only: insert_iff empty_iff simp_thms) argo
  then show ?thesis
  proof cases
    case 3
    with assms show ?thesis
      by (auto simp: call_request_def decode_call_def split: option.splits prod.splits)
  next
    case 4
    with assms show ?thesis by (auto simp: call_request_def decode_call_def split: option.splits prod.splits)
  next
    case 7
    with assms show ?thesis
      by (auto simp: call_request_def decode_call_def handle_move_file_def split: option.splits prod.splits)
  next
    case 8
    with assms show ?thesis by (auto simp: call_request_def decode_call_def split: option.splits prod.splits)
  next
    case 10
    with assms show ?thesis by (auto simp: call_request_def decode_call_def)
  qed (use assms in \<open>auto simp: call_request_def decode_call_def\<close>)
qed

theorem call_request_decode_witness:
  "call_request (\<lambda>_ _ _. []) \<lparr>allowed = [''/r''], cwd = ''/''\<rparr> ''read_file'' (JObj [(''path'', JStr ''/r/f'')])
     [([], Dir), ([''r''], Dir)] =
   Some (call_tool (\<lambda>_ _ _. []) \<lparr>allowed = [''/r''], cwd = ''/''\<rparr> (ReadFile ''/r/f'') [([], Dir), ([''r''], Dir)])"
  by (rule call_request_decode) (simp add: decode_call_def field_def)

text \<open>
  C32. A request that fails with a \<open>TypeError\<close> leaves the store unchanged, except
  that \<open>write_file\<close> may already have created directories.
\<close>

theorem call_request_type_error_frame:
  assumes "call_request glob cfg name args st = Some (Inr ToolTypeError, st')"
  shows "st' = st \<or> (name = ''write_file'' \<and> grows_dirs st st')"
proof -
  have tool: "fst (call_tool glob cfg c st) \<noteq> Inr ToolTypeError" for c
    by (rule call_tool_not_type_error)
  have "fst (handle_read_file cfg p st) \<noteq> Inr ToolTypeError"
    "fst (handle_read_multiple_files cfg ps st) \<noteq> Inr ToolTypeError"
    "fst (handle_write_file cfg p c st) \<noteq> Inr ToolTypeError"
    "fst (handle_edit_file cfg p es b st) \<noteq> Inr ToolTypeError"
    "fst (handle_create_directory cfg p st) \<noteq> Inr ToolTypeError"
    "fst (handle_list_directory cfg p st) \<noteq> Inr ToolTypeError"
    "fst (handle_move_file cfg p q st) \<noteq> Inr ToolTypeError"
    "fst (handle_search_files glob cfg p pat ex st) \<noteq> Inr ToolTypeError"
    "fst (handle_get_file_info cfg p st) \<noteq> Inr ToolTypeError" for p q c es b ps pat ex
    using tool [of "ReadFile p"] tool [of "ReadMultipleFiles ps"] tool [of "WriteFile p c"]
      tool [of "EditFile p es b"] tool [of "CreateDirectory p"] tool [of "ListDirectory p"]
      tool [of "MoveFile p q"] tool [of "SearchFiles p pat ex"] tool [of "GetFileInfo p"] by simp_all
  moreover have "fst (write_bad_content cfg p st) = Inr ToolTypeError \<Longrightarrow>
                 grows_dirs st (snd (write_bad_content cfg p st))" for p
    by (auto simp: write_bad_content_def type_error_def split: sum.splits dest: mkdir_result_rel [where R = grows_dirs, OF mkdir_step_ok])
  moreover have "snd (edit_bad_edits cfg p st) = st" for p
    by (auto simp: edit_bad_edits_def type_error_def split: sum.splits)
  ultimately have "snd res = st \<or> (name = ''write_file'' \<and> grows_dirs st (snd res))"
    if "call_request glob cfg name args st = Some res" "fst res = Inr ToolTypeError" for res
    using that tool
    by (auto simp: call_request_def Let_def type_error_def split: if_splits option.splits json.splits)
  from this [OF assms] show ?thesis by simp
qed

theorem call_request_type_error_frame_witness:
  "[([], Dir), ([''r''], Dir), ([''r'', ''a''], Dir)] = [([], Dir), ([''r''], Dir)] \<or>
   (''write_file'' = ''write_file'' \<and> grows_dirs [([], Dir), ([''r''], Dir)] [([], Dir), ([''r''], Dir), ([''r'', ''a''], Dir)])"
  by (rule call_request_type_error_frame
      [of "\<lambda>_ _ _. []" "\<lparr>allowed = [''/r''], cwd = ''/''\<rparr>" _
          "JObj [(''path'', JStr ''/r/a/b.txt''), (''content'', JNum 42)]"])
     code_simp

text \<open>
  Arguments are not validated before the file system is touched:
  \<open>write_file\<close> of \<open>/r/a/b.txt\<close> with the number \<open>42\<close> as content fails with a
  \<open>TypeError\<close>, but only after creating the directory \<open>/r/a\<close>.
\<close>

lemma write_file_bad_content_creates_directories:
  "call_request glob \<lparr>allowed = [''/r''], cwd = ''/''\<rparr> ''write_file''
     (JObj [(''path'', JStr ''/r/a/b.txt''), (''content'', JNum 42)]) [([], Dir), ([''r''], Dir)] =
   Some (Inr ToolTypeError, [([], Dir), ([''r''], Dir), ([''r'', ''a''], Dir)])"
  by code_simp

end
