(* ===== verification/Server.thy ===== *)
theory Server
  imports Request
begin

text \<open>
  The server as a whole: startup (\<open>src/filesystem/src/index.ts\<close>, lines 30--51)
  resolves the command-line directories and refuses to start without one or
  when one is missing or not a directory; afterwards the server answers any
  sequence of tool calls, typed (\<open>call_tool\<close>) or as raw JSON requests
  (\<open>call_request\<close>), against the host store. \<open>reachable\<close> is the set of
  stores that a successful startup followed by any calls, with any \<open>glob\<close>,
  can produce. The safety theorem bounds what those calls can do outside the
  allowed directories; theory \<open>Escape\<close> shows that the bound is tight.
\<close>

datatype startup_error = NoDirectories | DirectoryMissing string | NotADirectory string

fun validate_directories :: "fs \<Rightarrow> string \<Rightarrow> string list \<Rightarrow> startup_error option" where
  "validate_directories st c [] = None"
| "validate_directories st c (d # ds) =
     (case fs_stat st c d of
        Inl e \<Rightarrow> Some (DirectoryMissing d)
      | Inr (File _) \<Rightarrow> Some (NotADirectory d)
      | Inr Dir \<Rightarrow> validate_directories st c ds)"

definition startup :: "string \<Rightarrow> string list \<Rightarrow> fs \<Rightarrow> startup_error + config" where
  "startup c argv st =
     (let dirs = allowed_directories c argv
      in if dirs = [] then Inl NoDirectories
         else (case validate_directories st c dirs of
                 Some e \<Rightarrow> Inl e
               | None \<Rightarrow> Inr \<lparr>allowed = dirs, cwd = c\<rparr>))"

inductive reachable :: "string \<Rightarrow> string list \<Rightarrow> fs \<Rightarrow> config \<Rightarrow> fs \<Rightarrow> bool" where
  start: "startup c argv st0 = Inr cfg \<Longrightarrow> reachable c argv st0 cfg st0"
| step: "reachable c argv st0 cfg st \<Longrightarrow> call_tool glob cfg call st = (r, st') \<Longrightarrow>
         reachable c argv st0 cfg st'"
| request: "reachable c argv st0 cfg st \<Longrightarrow> call_request glob cfg name args st = Some (r, st') \<Longrightarrow>
         reachable c argv st0 cfg st'"

definition scenario_fs :: fs where
  "scenario_fs = [([], Dir), ([''sandbox''], Dir), ([''etc''], Dir), ([''etc'', ''passwd''], File ''root'')]"

definition sandbox_fs :: fs where
  "sandbox_fs = [([], Dir), ([''r''], Dir)]"

text \<open>An allowed directory \<open>/r\<close> holding the files \<open>f\<close> and \<open>a\<close>.\<close>

definition overwrite_fs :: fs where
  "overwrite_fs = [([], Dir), ([''r''], Dir), ([''r'', ''f''], File ''keep''), ([''r'', ''a''], File ''new'')]"

subsection \<open>Properties of the server\<close>

lemma validate_directories_None:
  "validate_directories st c ds = None \<longleftrightarrow> (\<forall>d \<in> set ds. fs_stat st c d = Inr Dir)"
  by (induction ds) (auto split: sum.splits node.splits)

text \<open>
  Startup: the server starts only with at least one argument, and then every
  allowed directory is the resolved argument and exists as a directory.
\<close>

lemma startup_validated:
  assumes "startup c argv st = Inr cfg"
  shows "argv \<noteq> [] \<and> cwd cfg = c \<and> allowed cfg = allowed_directories c argv \<and>
         (\<forall>d \<in> set (allowed cfg). fs_stat st c d = Inr Dir)"
  using assms
  by (auto simp: startup_def Let_def allowed_directories_def validate_directories_None
      split: if_splits option.splits)

lemma reachable_config:
  "reachable c argv st0 cfg st \<Longrightarrow> startup c argv st0 = Inr cfg"
  by (induction rule: reachable.induct) auto

lemma reachable_step_ok: "reachable c argv st0 cfg st \<Longrightarrow> step_ok cfg st0 st"
proof (induction rule: reachable.induct)
  case (start c argv st0 cfg)
  show ?case by (rule step_ok_refl)
next
  case (step c argv st0 cfg st glob call r st')
  then show ?case by (metis step_ok_trans call_tool_step_ok)
next
  case (request c argv st0 cfg st glob name args r st')
  then show ?case by (metis step_ok_trans call_request_step_ok)
qed

lemma reachable_wf_fs: "reachable c argv st0 cfg st \<Longrightarrow> wf_fs st0 \<Longrightarrow> wf_fs st"
  by (induction rule: reachable.induct) (auto intro: call_tool_wf call_request_wf)

lemma reachable_outside:
  "reachable c argv st0 cfg st \<Longrightarrow> \<not> allowed_entry cfg q \<Longrightarrow>
   lookup st q = lookup st0 q \<or> (lookup st0 q = None \<and> lookup st q = Some Dir)"
  by (drule reachable_step_ok) (auto simp: step_ok_def)

text \<open>
  C1. Safety of the whole server: in every state reachable from a successful
  startup by any sequence of tool calls or raw requests, an entry whose path no allowed directory
  prefixes is unchanged from the initial store, or is a directory that did not
  exist initially. No file outside the allowed directories is ever created,
  changed, moved or removed.
\<close>

theorem server_outside_only_new_directories:
  assumes "reachable c argv st0 cfg st" "\<not> allowed_entry cfg q"
  shows "lookup st q = lookup st0 q \<or> (lookup st0 q = None \<and> lookup st q = Some Dir)"
  using reachable_outside [OF assms] .

lemma escape_reachable:
  "reachable ''/'' [''/r''] sandbox_fs \<lparr>allowed = [''/r''], cwd = ''/''\<rparr>
     (snd (call_tool (\<lambda>_ _ _. []) \<lparr>allowed = [''/r''], cwd = ''/''\<rparr>
             (CreateDirectory ''/r/z/../../evil/../r'') sandbox_fs))"
proof (rule reachable.step [OF reachable.start])
  show "startup ''/'' [''/r''] sandbox_fs = Inr \<lparr>allowed = [''/r''], cwd = ''/''\<rparr>"
    by code_simp
qed (rule prod.collapse [symmetric])

theorem server_outside_only_new_directories_witness:
  "lookup (snd (call_tool (\<lambda>_ _ _. []) \<lparr>allowed = [''/r''], cwd = ''/''\<rparr>
             (CreateDirectory ''/r/z/../../evil/../r'') sandbox_fs)) [''evil''] = lookup sandbox_fs [''evil''] \<or>
   (lookup sandbox_fs [''evil''] = None \<and>
    lookup (snd (call_tool (\<lambda>_ _ _. []) \<lparr>allowed = [''/r''], cwd = ''/''\<rparr>
             (CreateDirectory ''/r/z/../../evil/../r'') sandbox_fs)) [''evil''] = Some Dir)"
proof -
  have n: "\<not> allowed_entry \<lparr>allowed = [''/r''], cwd = ''/''\<rparr> [''evil'']"
    by (simp add: allowed_entry_def render_def)
  show ?thesis by (rule server_outside_only_new_directories [OF escape_reachable n])
qed

text \<open>
  The spec's scenario with allowed directory \<open>/sandbox\<close>: reading
  \<open>/etc/passwd\<close> is denied; writing \<open>hi\<close> to \<open>/sandbox/a/b.txt\<close> creates
  \<open>/sandbox/a\<close> and the file; reading returns \<open>hi\<close>; editing \<open>hi\<close> to \<open>bye\<close>
  reports the match and the diff; a batch read of the file and \<open>/etc/passwd\<close>
  returns the content and an access-denied entry.
\<close>

lemma spec_scenario:
  "startup ''/'' [''/sandbox''] scenario_fs = Inr \<lparr>allowed = [''/sandbox''], cwd = ''/''\<rparr> \<and>
   (let cfg = \<lparr>allowed = [''/sandbox''], cwd = ''/''\<rparr>;
        (r1, st1) = call_tool glob cfg (ReadFile ''/etc/passwd'') scenario_fs;
        (r2, st2) = call_tool glob cfg (WriteFile ''/sandbox/a/b.txt'' ''hi'') st1;
        (r3, st3) = call_tool glob cfg (ReadFile ''/sandbox/a/b.txt'') st2;
        (r4, st4) = call_tool glob cfg
                      (EditFile ''/sandbox/a/b.txt'' [\<lparr>old_text = ''hi'', new_text = ''bye''\<rparr>] False) st3;
        (r5, st5) = call_tool glob cfg (ReadMultipleFiles [''/sandbox/a/b.txt'', ''/etc/passwd'']) st4
    in r1 = Inl (McpError PermissionDenied ''Access to /etc/passwd is not allowed'') \<and> st1 = scenario_fs \<and>
       lookup st2 [''sandbox'', ''a''] = Some Dir \<and>
       r3 = Inr (ToolResult (PText ''hi'')) \<and>
       r4 = Inr (ToolResult (PEdit False ''/sandbox/a/b.txt'' [EditMatched ''hi'' ''bye'']
                               (''- hi'' @ [newline] @ ''+ bye'' @ [newline]) True)) \<and>
       r5 = Inr (ToolResult (PReadResults [ReadContent ''/sandbox/a/b.txt'' ''bye'',
                                           ReadDenied ''/etc/passwd''])))"
  by code_simp

end
