(* ===== verification/Progress.thy ===== *)
theory Progress
  imports Server
begin

text \<open>
  Progress of \<open>write_file\<close> (lines 360--379): in every reachable store, a request to
  write an allowed normalised absolute path succeeds when none of the path's proper
  ancestors is a file and the path is not a directory, and a read then returns the
  content. The handler first creates \<open>path.dirname\<close> of the path with the recursive
  \<open>mkdir\<close>; the lemmas below show that \<open>dirname\<close> of a rendered path is the rendered
  parent, that the kernel resolves a rendered path to its segments when its ancestors
  are directories and never fails with ENOTDIR when none is a file, and that the
  recursive \<open>mkdir\<close> of a rendered path always succeeds on such a store, makes the
  path a directory and changes nothing but its prefixes (\<open>mkdirp_render\<close>).
\<close>

subsection \<open>\<open>path.dirname\<close> of a rendered path\<close>

lemma dirname_scan_none:
  "CHR ''/'' \<notin> set b \<Longrightarrow> k \<le> length b \<Longrightarrow> dirname_scan (CHR ''/'' # b) k m = None"
proof (induction k arbitrary: m)
  case (Suc k)
  then have "b ! k \<in> set b" by (intro nth_mem) simp
  with Suc.prems(1) have "b ! k \<noteq> CHR ''/''" by metis
  with Suc show ?case by simp
qed simp

lemma dirname_scan_last:
  "length a = Suc j \<Longrightarrow> CHR ''/'' \<notin> set b \<Longrightarrow> k \<le> length b \<Longrightarrow> (k = 0 \<longrightarrow> \<not> m) \<Longrightarrow>
   dirname_scan (a @ CHR ''/'' # b) (length a + k) m = Some (length a)"
proof (induction k arbitrary: m)
  case 0
  then show ?case by (simp add: nth_append)
next
  case (Suc k)
  then have "b ! k \<in> set b" by (intro nth_mem) simp
  with Suc.prems(2) have "b ! k \<noteq> CHR ''/''" by metis
  with Suc show ?case by (simp add: nth_append)
qed

lemma render_snoc: "xs \<noteq> [] \<Longrightarrow> render (xs @ [x]) = render xs @ CHR ''/'' # x"
  by (simp add: render_def join_on_append)

lemma dirname_render:
  assumes "wf_path (xs @ [x])"
  shows "dirname (render (xs @ [x])) = render xs"
proof -
  have x: "x \<noteq> []" "CHR ''/'' \<notin> set x" using assms by (auto simp: wf_path_def wf_seg_def)
  show ?thesis
  proof (cases "xs = []")
    case True
    with x show ?thesis
      by (simp add: dirname_def render_def dirname_scan_none Let_def)
  next
    case False
    obtain j where j: "length (render xs) = Suc j" by (simp add: render_def)
    have "length (render xs) \<noteq> 1"
      using False assms by (cases xs) (auto simp: render_def wf_path_def wf_seg_def join_on_Cons)
    moreover have "dirname_scan (render xs @ CHR ''/'' # x) (length (render xs @ CHR ''/'' # x) - 1) True
                   = Some (length (render xs))"
      using dirname_scan_last [OF j x(2), of "length x" True] x(1) by simp
    ultimately show ?thesis using False x
      by (simp add: dirname_def render_snoc Let_def)
  qed
qed

subsection \<open>The kernel's walk over a rendered path\<close>

lemma split_on_render: "wf_path ys \<Longrightarrow> ys \<noteq> [] \<Longrightarrow> split_on CHR ''/'' (render ys) = [] # ys"
  by (simp add: render_def split_join_on wf_path_no_sep)

lemma walk_wf_dirs:
  "wf_path ys \<Longrightarrow> (\<forall>k. 0 < k \<and> k < length ys \<longrightarrow> lookup st (cur @ take k ys) = Some Dir) \<Longrightarrow>
   walk st cur ys = Inr (cur @ ys)"
proof (induction ys arbitrary: cur)
  case (Cons y ys)
  have y: "y \<noteq> []" "y \<noteq> ''.''" "y \<noteq> ''..''" using Cons.prems(1) by (simp_all add: wf_seg_def)
  show ?case
  proof (cases "ys = []")
    case True
    with y show ?thesis by simp
  next
    case False
    have triv: "\<not> list_all (\<lambda>r. r = [] \<or> r = ''.'') ys"
      using False Cons.prems(1) by (cases ys) (simp_all add: wf_seg_def)
    have d: "lookup st (cur @ [y]) = Some Dir" using Cons.prems(2) [rule_format, of 1] False by simp
    have "walk st (cur @ [y]) ys = Inr ((cur @ [y]) @ ys)"
    proof (rule Cons.IH)
      show "wf_path ys" using Cons.prems(1) by simp
      show "\<forall>k. 0 < k \<and> k < length ys \<longrightarrow> lookup st ((cur @ [y]) @ take k ys) = Some Dir"
        using Cons.prems(2) by (metis Suc_mono append.assoc append_Cons append_Nil length_Cons take_Suc_Cons zero_less_Suc)
    qed
    with y triv d show ?thesis by (simp add: Let_def)
  qed
qed simp

lemma walk_wf_no_file:
  "wf_path ys \<Longrightarrow> (\<forall>k d. 0 < k \<and> k < length ys \<longrightarrow> lookup st (cur @ take k ys) \<noteq> Some (File d)) \<Longrightarrow>
   walk st cur ys \<noteq> Inl ENOTDIR"
proof (induction ys arbitrary: cur)
  case (Cons y ys)
  have y: "y \<noteq> []" "y \<noteq> ''.''" "y \<noteq> ''..''" using Cons.prems(1) by (simp_all add: wf_seg_def)
  show ?case
  proof (cases "ys = []")
    case True
    with y show ?thesis by simp
  next
    case False
    have nf: "lookup st (cur @ [y]) \<noteq> Some (File d)" for d
      using Cons.prems(2) False by (metis One_nat_def append_Nil length_Cons take_0 take_Suc_Cons length_greater_0_conv zero_less_one Suc_mono)
    have "walk st (cur @ [y]) ys \<noteq> Inl ENOTDIR"
    proof (rule Cons.IH)
      show "wf_path ys" using Cons.prems(1) by simp
      show "\<forall>k d. 0 < k \<and> k < length ys \<longrightarrow> lookup st ((cur @ [y]) @ take k ys) \<noteq> Some (File d)"
        using Cons.prems(2) by (metis Suc_mono append.assoc append_Cons append_Nil length_Cons take_Suc_Cons zero_less_Suc)
    qed
    with y nf show ?thesis by (auto simp: Let_def split: option.splits node.splits)
  qed
qed simp

lemma dir_suffix_render: "wf_path ys \<Longrightarrow> \<not> dir_suffix (render ys)"
proof (cases "ys = []")
  case True
  then show ?thesis by (simp add: render_def dir_suffix_def)
next
  case False
  moreover assume "wf_path ys"
  ultimately have "wf_seg (last (split_on CHR ''/'' (render ys)))"
    by (simp add: split_on_render wf_path_def list_all_iff)
  then show ?thesis by (intro dir_suffix_named_last) (auto simp: wf_seg_def)
qed

lemma fs_path_render:
  assumes "wf_path ys" "\<forall>k. 0 < k \<and> k < length ys \<longrightarrow> lookup st (take k ys) = Some Dir"
  shows "fs_path st c (render ys) = Inr ys"
proof (cases "ys = []")
  case True
  then show ?thesis by (simp add: fs_path_def fs_walk_def render_def dir_suffix_def)
next
  case False
  with assms show ?thesis
    by (simp add: fs_path_no_suffix dir_suffix_render fs_walk_def split_on_render walk_wf_dirs)
qed

lemma fs_path_render_no_file:
  assumes "wf_path ys" "\<forall>k d. 0 < k \<and> k < length ys \<longrightarrow> lookup st (take k ys) \<noteq> Some (File d)"
  shows "fs_path st c (render ys) \<noteq> Inl ENOTDIR"
proof (cases "ys = []")
  case True
  then show ?thesis by (simp add: fs_path_def fs_walk_def render_def dir_suffix_def)
next
  case False
  with assms walk_wf_no_file [of ys st "[]"] show ?thesis
    by (simp add: fs_path_no_suffix dir_suffix_render fs_walk_def split_on_render)
qed

lemma walk_error: "walk st cur ss = Inl e \<Longrightarrow> e = ENOENT \<or> e = ENOTDIR"
  by (induction st cur ss rule: walk.induct) (auto simp: Let_def split: if_splits option.splits node.splits)

lemma fs_path_error: "fs_path st c p = Inl e \<Longrightarrow> e = ENOENT \<or> e = ENOTDIR"
  by (auto simp: fs_path_def fs_walk_def split: if_splits sum.splits option.splits node.splits
      dest: walk_error)

lemma last_slash_snoc: "CHR ''/'' \<notin> set b \<Longrightarrow> last_slash (a @ CHR ''/'' # b) = Some (length a)"
proof -
  assume b: "CHR ''/'' \<notin> set b"
  then have "takeWhile (\<lambda>c. c \<noteq> CHR ''/'') (rev b @ CHR ''/'' # rev a) = rev b"
    by (subst takeWhile_append2) auto
  then show ?thesis by (simp add: last_slash_def)
qed

subsection \<open>The recursive \<open>mkdir\<close> of a rendered path\<close>

lemma wf_dir_prefix: "wf_fs st \<Longrightarrow> lookup st xs = Some Dir \<Longrightarrow> prefix q xs \<Longrightarrow> lookup st q = Some Dir"
  by (metis prefix_order.le_less wf_ancestor option.distinct(1))

lemma fs_path_render_parent:
  assumes wf: "wf_fs st" and p: "wf_path (xs @ [x])" and d: "lookup st xs = Some Dir"
  shows "fs_path st c (render (xs @ [x])) = Inr (xs @ [x])"
proof (rule fs_path_render [OF p], intro allI impI)
  fix k assume "0 < k \<and> k < length (xs @ [x])"
  then have "take k (xs @ [x]) = take k xs" by simp
  with wf d show "lookup st (take k (xs @ [x])) = Some Dir" by (metis wf_dir_prefix take_is_prefix)
qed

lemma mkdirp_render:
  assumes "wf_fs st" "wf_path xs" "\<forall>k d. k \<le> length xs \<longrightarrow> lookup st (take k xs) \<noteq> Some (File d)"
  shows "\<exists>st'. mkdirp st c (render xs) b = Inr st' \<and> wf_fs st' \<and> lookup st' xs = Some Dir \<and>
               (\<forall>q. \<not> prefix q xs \<longrightarrow> lookup st' q = lookup st q)"
  using assms
proof (induction xs arbitrary: b rule: rev_induct)
  case Nil
  have root: "lookup st [] = Some Dir" using Nil.prems(1) by (simp add: wf_fs_def)
  then have "mkdirp st c (render []) b = Inr st"
    by (simp add: render_def mkdirp.simps [of st c "''/''" b] mkdir_once_def mkdirp_exists_def fs_stat_def
        fs_path_def fs_walk_def dir_suffix_def)
  with Nil.prems(1) root show ?case by auto
next
  case (snoc x xs)
  let ?ys = "xs @ [x]" and ?p = "render (xs @ [x])"
  have wf: "wf_fs st" and wfp: "wf_path ?ys" using snoc.prems by simp_all
  have x: "CHR ''/'' \<notin> set x" using wfp by (simp add: wf_seg_def)
  have nf: "lookup st (take k ?ys) \<noteq> Some (File d)" if "k \<le> length ?ys" for k d
    using snoc.prems(3) that by blast
  have nfy: "lookup st ?ys \<noteq> Some (File d)" for d using nf [of "length ?ys" d] by simp
  have nfx: "\<forall>k d. k \<le> length xs \<longrightarrow> lookup st (take k xs) \<noteq> Some (File d)"
  proof (intro allI impI)
    fix k d assume k: "k \<le> length xs"
    then have "take k ?ys = take k xs" by simp
    with nf [of k d] k show "lookup st (take k xs) \<noteq> Some (File d)" by simp
  qed
  show ?case
  proof (cases "lookup st xs = Some Dir")
    case dir: True
    have path: "fs_path st c ?p = Inr ?ys" by (rule fs_path_render_parent [OF wf wfp dir])
    show ?thesis
    proof (cases "lookup st ?ys")
      case None
      have mk: "mkdir_once st c ?p = Inr (fs_put ?ys Dir st)"
        using path None dir by (simp add: mkdir_once_def)
      then have "mkdirp st c ?p b = Inr (fs_put ?ys Dir st)" by (simp add: mkdirp.simps [of st c ?p b])
      with mkdir_once_wf [OF mk wf] show ?thesis by (auto simp: fs_simps)
    next
      case (Some n)
      with nfy have n: "n = Dir" by (cases n) auto
      with Some path have "mkdirp st c ?p b = Inr st"
        by (simp add: mkdirp.simps [of st c ?p b] mkdir_once_def mkdirp_exists_def fs_stat_def)
      with wf Some n show ?thesis by simp
    qed
  next
    case nodir: False
    have xs: "xs \<noteq> []" using nodir wf by (auto simp: wf_fs_def)
    have none: "lookup st ?ys = None"
      using nodir wf_ancestor [OF wf, of ?ys xs] by (cases "lookup st ?ys") (auto simp: strict_prefix_def)
    have enoent: "mkdir_once st c ?p = Inl ENOENT"
    proof (cases "fs_path st c ?p")
      case (Inl e)
      have "fs_path st c ?p \<noteq> Inl ENOTDIR"
        using nf by (intro fs_path_render_no_file [OF wfp]) (auto simp del: take_append)
      with Inl fs_path_error [OF Inl] show ?thesis by (simp add: mkdir_once_def)
    next
      case (Inr t)
      then have "t = ?ys" using fs_path_resolve_segs [OF Inr] wfp by (simp add: resolve_segs_render)
      with Inr none nodir show ?thesis by (simp add: mkdir_once_def)
    qed
    have ls: "last_slash ?p = Some (length (render xs))" "take (length (render xs)) ?p = render xs"
      using x xs by (simp_all add: render_snoc last_slash_snoc)
    obtain st2 where st2: "mkdirp st c (render xs) False = Inr st2" and wf2: "wf_fs st2"
      and d2: "lookup st2 xs = Some Dir" and fr2: "\<forall>q. \<not> prefix q xs \<longrightarrow> lookup st2 q = lookup st q"
      using snoc.IH [OF wf _ nfx] wfp by auto
    have "lookup st2 ?ys = None" using fr2 none by (metis prefix_length_le length_append_singleton Suc_n_not_le_n)
    moreover have "fs_path st2 c ?p = Inr ?ys" by (rule fs_path_render_parent [OF wf2 wfp d2])
    ultimately have mk: "mkdir_once st2 c ?p = Inr (fs_put ?ys Dir st2)"
      using d2 by (simp add: mkdir_once_def)
    then have "mkdirp st c ?p b = Inr (fs_put ?ys Dir st2)"
      by (simp add: mkdirp.simps [of st c ?p b] enoent ls st2 mkdir_retry_def)
    moreover have "\<not> prefix q ?ys \<Longrightarrow> \<not> prefix q xs" for q by (metis prefix_order.trans prefixI)
    ultimately show ?thesis using mkdir_once_wf [OF mk wf2] fr2 by (auto simp: fs_simps)
  qed
qed

subsection \<open>\<open>write_file\<close> always makes progress\<close>

lemma all_take_snoc:
  "(\<forall>k < length (xs @ [x]). P (take k (xs @ [x]))) \<longleftrightarrow> (\<forall>k \<le> length xs. P (take k xs))"
  by (auto simp: less_Suc_eq_le)

lemma handle_write_file_render:
  assumes wf: "wf_fs st" and p: "wf_path segs" "segs \<noteq> []" and a: "allowed_path cfg (render segs)"
    and anc: "\<forall>k < length segs. lookup st (take k segs) \<in> {None, Some Dir}"
    and nd: "lookup st segs \<noteq> Some Dir"
  shows "\<exists>st'. handle_write_file cfg (render segs) content st =
                 (Inr (ToolResult (PText (''Successfully wrote to '' @ render segs))), st') \<and>
               wf_fs st' \<and> fs_read_file st' (cwd cfg) (render segs) = Inr content"
proof -
  obtain xs x where segs: "segs = xs @ [x]" using p(2) by (metis rev_exhaust)
  have dn: "dirname (render segs) = render xs" using dirname_render p(1) segs by simp
  have "\<forall>k \<le> length xs. lookup st (take k xs) \<in> {None, Some Dir}"
    using all_take_snoc [of xs x "\<lambda>q. lookup st q \<in> {None, Some Dir}"] anc segs by simp
  then have nfx: "\<forall>k d. k \<le> length xs \<longrightarrow> lookup st (take k xs) \<noteq> Some (File d)" by auto
  obtain st1 where m: "mkdirp st (cwd cfg) (render xs) True = Inr st1" and wf1: "wf_fs st1"
    and d1: "lookup st1 xs = Some Dir" and fr1: "\<forall>q. \<not> prefix q xs \<longrightarrow> lookup st1 q = lookup st q"
    using mkdirp_render [OF wf _ nfx, of "cwd cfg" True] p segs by auto
  have path: "fs_path st1 (cwd cfg) (render segs) = Inr segs"
    using fs_path_render_parent [OF wf1 _ d1] p segs by simp
  have "lookup st1 segs = lookup st segs"
    using fr1 segs by (metis prefix_length_le length_append_singleton Suc_n_not_le_n)
  then have w: "fs_write_file st1 (cwd cfg) (render segs) content = Inr (fs_put segs (File content) st1)"
    using path nd d1 segs dir_suffix_render [OF p(1)] by (simp add: fs_write_file_def)
  show ?thesis
    using a dn m w fs_read_after_write [OF w] fs_write_file_wf [OF w wf1]
    by (simp add: handle_write_file_def fs_mkdir_recursive_def)
qed

text \<open>
  C19. Liveness of \<open>write_file\<close>: from any store reachable from a successful
  startup on a well-formed initial store, a \<open>write_file\<close> call on an allowed
  normalised absolute path whose proper ancestors are directories or missing, and
  which is not itself a directory, succeeds; its store is reachable, and reading the
  path there returns the written content.
\<close>

theorem write_file_progress:
  assumes "reachable c argv st0 cfg st" "wf_fs st0" "wf_path segs" "segs \<noteq> []"
    "allowed_path cfg (render segs)" "\<forall>k < length segs. lookup st (take k segs) \<in> {None, Some Dir}"
    "lookup st segs \<noteq> Some Dir"
  shows "\<exists>st'. call_tool glob cfg (WriteFile (render segs) content) st =
                 (Inr (ToolResult (PText (''Successfully wrote to '' @ render segs))), st') \<and>
               reachable c argv st0 cfg st' \<and> fs_read_file st' (cwd cfg) (render segs) = Inr content"
proof -
  have "wf_fs st" using assms(1,2) by (rule reachable_wf_fs)
  with assms(3-7) obtain st' where
    h: "handle_write_file cfg (render segs) content st =
          (Inr (ToolResult (PText (''Successfully wrote to '' @ render segs))), st')"
    and r: "fs_read_file st' (cwd cfg) (render segs) = Inr content"
    using handle_write_file_render by blast
  then have h': "call_tool glob cfg (WriteFile (render segs) content) st =
                  (Inr (ToolResult (PText (''Successfully wrote to '' @ render segs))), st')" by simp
  with reachable.step [OF assms(1) h'] r show ?thesis by simp
qed

theorem write_file_progress_witness:
  "\<exists>st'. call_tool (\<lambda>_ _ _. []) \<lparr>allowed = [''/r''], cwd = ''/''\<rparr>
          (WriteFile (render [''r'', ''a'', ''b'']) ''hi'') sandbox_fs =
          (Inr (ToolResult (PText (''Successfully wrote to '' @ render [''r'', ''a'', ''b'']))), st') \<and>
        reachable ''/'' [''/r''] sandbox_fs \<lparr>allowed = [''/r''], cwd = ''/''\<rparr> st' \<and>
        fs_read_file st' ''/'' (render [''r'', ''a'', ''b'']) = Inr ''hi''"
proof -
  have start: "reachable ''/'' [''/r''] sandbox_fs \<lparr>allowed = [''/r''], cwd = ''/''\<rparr> sandbox_fs"
    by (rule reachable.start) code_simp
  have "wf_fs sandbox_fs" "wf_path [''r'', ''a'', ''b'']"
    "allowed_path \<lparr>allowed = [''/r''], cwd = ''/''\<rparr> (render [''r'', ''a'', ''b''])"
    "lookup sandbox_fs [''r'', ''a'', ''b''] \<noteq> Some Dir"
    by code_simp+
  moreover have "\<forall>k < length [''r'', ''a'', ''b'']. lookup sandbox_fs (take k [''r'', ''a'', ''b'']) \<in> {None, Some Dir}"
    by (simp add: less_Suc_eq all_conj_distrib sandbox_fs_def lookup_def)
  ultimately show ?thesis using write_file_progress [OF start] by simp
qed

end
