(* ===== verification/Session.thy ===== *)
theory Session
  imports Progress "HOL-Library.Monad_Syntax"
begin

text \<open>
  The server object and the request loop around the handlers. Lines 63--74 construct
  the MCP \<open>Server\<close> with its name, version and the capabilities \<open>resources\<close> and
  \<open>tools\<close> (\<open>filesystem_server\<close>); lines 81, 98, 118 and 306 register one handler
  for each of the methods \<open>resources/list\<close>, \<open>resources/read\<close>, \<open>tools/list\<close> and
  \<open>tools/call\<close>; \<open>main()\<close> (lines 620--625) connects the stdio transport, after
  which the SDK answers the requests one at a time. The SDK's part is modelled from
  its documented behaviour: \<open>setRequestHandler\<close> throws unless the server declared
  the capability the method needs (\<open>method_capability\<close>), \<open>initialize\<close> is answered
  with the server's name, version and capabilities, and a method with no handler is
  answered with MethodNotFound. \<open>handle_request\<close> routes one request, \<open>serve\<close>
  runs a sequence of them threading the store, and \<open>run_server\<close> is the whole
  process: the startup checks of lines 30--51 and then the session. The byte-level
  JSON-RPC framing of the transport, the protocol-version negotiation of
  \<open>initialize\<close> and the SDK's validation of request parameters (requests enter the
  model parsed) are not modelled; of the SDK's capability table only the entries for
  the methods of this module matter.
\<close>

subsection \<open>The server object and its handlers\<close>

record server_info =
  server_name :: string
  server_version :: string
  capabilities :: "string list"

definition filesystem_server :: server_info where
  "filesystem_server =
     \<lparr>server_name = ''filesystem-server'', server_version = ''0.1.0'',
      capabilities = [''resources'', ''tools'']\<rparr>"

text \<open>The requests of a session as the SDK parses them: the four registered methods,
  the SDK's \<open>initialize\<close>, and \<open>OtherRequest\<close> for a method with no handler.\<close>

datatype request =
    InitializeRequest
  | ListResourcesRequest
  | ReadResourceRequest string
  | ListToolsRequest
  | CallToolRequest string json
  | OtherRequest string

datatype response =
    InitializeResult string string "string list"
  | ResourcesResult "resource_spec list"
  | ResourceContents "string \<times> string \<times> string list"
  | ToolsResult "tool_spec list"
  | CallToolResult tool_response

primrec request_method :: "request \<Rightarrow> string" where
  "request_method InitializeRequest = ''initialize''"
| "request_method ListResourcesRequest = ''resources/list''"
| "request_method (ReadResourceRequest uri) = ''resources/read''"
| "request_method ListToolsRequest = ''tools/list''"
| "request_method (CallToolRequest name args) = ''tools/call''"
| "request_method (OtherRequest m) = m"

text \<open>The methods the module registers a handler for, in the order of the
  \<open>setRequestHandler\<close> calls.\<close>

definition registered_methods :: "string list" where
  "registered_methods = [''resources/list'', ''resources/read'', ''tools/list'', ''tools/call'']"

text \<open>The capability the SDK's \<open>setRequestHandler\<close> requires for a method.\<close>

definition method_capability :: "string \<Rightarrow> string option" where
  "method_capability m =
     (if m \<in> {''resources/list'', ''resources/templates/list'', ''resources/read''} then Some ''resources''
      else if m \<in> {''tools/list'', ''tools/call''} then Some ''tools''
      else if m \<in> {''prompts/list'', ''prompts/get''} then Some ''prompts''
      else if m = ''logging/setLevel'' then Some ''logging''
      else None)"

text \<open>Registering the handlers succeeds when each method's capability was declared.\<close>

definition register_handlers :: "server_info \<Rightarrow> string list \<Rightarrow> string option" where
  "register_handlers srv ms =
     find (\<lambda>m. case method_capability m of None \<Rightarrow> False
                | Some cap \<Rightarrow> cap \<notin> set (capabilities srv)) ms"

subsection \<open>One request, a session, the process\<close>

definition handle_request ::
  "glob_fn \<Rightarrow> config \<Rightarrow> request \<Rightarrow> fs \<Rightarrow> ((mcp_error + response) \<times> fs) option" where
  "handle_request glob cfg q st =
     (case q of
        InitializeRequest \<Rightarrow>
          Some (Inr (InitializeResult (server_name filesystem_server) (server_version filesystem_server)
                       (capabilities filesystem_server)), st)
      | ListResourcesRequest \<Rightarrow> Some (Inr (ResourcesResult resource_list), st)
      | ReadResourceRequest uri \<Rightarrow> Some (map_sum id ResourceContents (read_resource cfg uri), st)
      | ListToolsRequest \<Rightarrow> Some (Inr (ToolsResult tool_list), st)
      | CallToolRequest name args \<Rightarrow>
          map_option (apfst (map_sum id CallToolResult)) (call_request glob cfg name args st)
      | OtherRequest m \<Rightarrow> Some (Inl (McpError MethodNotFound ''Method not found''), st))"

primrec serve ::
  "glob_fn \<Rightarrow> config \<Rightarrow> request list \<Rightarrow> fs \<Rightarrow> ((mcp_error + response) list \<times> fs) option" where
  "serve glob cfg [] st = Some ([], st)"
| "serve glob cfg (q # qs) st =
     do {
       (r, st1) \<leftarrow> handle_request glob cfg q st;
       (rs, st2) \<leftarrow> serve glob cfg qs st1;
       Some (r # rs, st2)
     }"

definition run_server ::
  "string \<Rightarrow> string list \<Rightarrow> fs \<Rightarrow> glob_fn \<Rightarrow> request list \<Rightarrow>
   startup_error + ((mcp_error + response) list \<times> fs) option" where
  "run_server c argv st0 glob qs =
     (case startup c argv st0 of
        Inl e \<Rightarrow> Inl e
      | Inr cfg \<Rightarrow> Inr (serve glob cfg qs st0))"


text \<open>A session used by the examples: initialise, write a file below a missing
  directory, read it back.\<close>

definition demo_requests :: "request list" where
  "demo_requests =
     [InitializeRequest,
      CallToolRequest ''write_file'' (JObj [(''path'', JStr ''/r/a/b''), (''content'', JStr ''hi'')]),
      CallToolRequest ''read_file'' (JObj [(''path'', JStr ''/r/a/b'')])]"

subsection \<open>Properties of sessions\<close>

lemma handle_request_store:
  "handle_request glob cfg q st = Some (r, st') \<Longrightarrow>
   st' = st \<or> (\<exists>name args r'. call_request glob cfg name args st = Some (r', st'))"
  by (cases q) (auto simp: handle_request_def)

lemma serve_Cons_Some:
  "serve glob cfg (q # qs) st = Some (rs, st') \<longleftrightarrow>
   (\<exists>r st1 rs'. handle_request glob cfg q st = Some (r, st1) \<and> serve glob cfg qs st1 = Some (rs', st') \<and>
                rs = r # rs')"
  by (auto simp: bind_eq_Some_conv split: prod.splits)

lemma serve_reachable:
  "serve glob cfg qs st = Some (rs, st') \<Longrightarrow> reachable c argv st0 cfg st \<Longrightarrow> reachable c argv st0 cfg st'"
proof (induction qs arbitrary: st rs)
  case Nil
  then show ?case by simp
next
  case (Cons q qs)
  from Cons.prems(1) [unfolded serve_Cons_Some] obtain r st1 rs' where
    h: "handle_request glob cfg q st = Some (r, st1)" and s: "serve glob cfg qs st1 = Some (rs', st')"
    by blast
  from handle_request_store [OF h] Cons.prems(2) have "reachable c argv st0 cfg st1"
    by (auto intro: reachable.request)
  with s show ?case by (rule Cons.IH)
qed

lemma serve_length: "serve glob cfg qs st = Some (rs, st') \<Longrightarrow> length rs = length qs"
  by (induction qs arbitrary: st rs) (auto simp: serve_Cons_Some simp del: serve.simps(2))

lemma serve_append:
  "serve glob cfg (qs1 @ qs2) st =
     do { (rs1, st1) \<leftarrow> serve glob cfg qs1 st; (rs2, st2) \<leftarrow> serve glob cfg qs2 st1; Some (rs1 @ rs2, st2) }"
  by (induction qs1 arbitrary: st) (auto split: Option.bind_split prod.splits)

text \<open>
  The whole process: if the startup checks pass and a session of requests is
  answered, every request got exactly one response, no file outside the allowed
  directories was created, changed, moved or removed (only new directories can
  appear there), and a well-formed initial store is still well formed.
\<close>

lemma run_server_session:
  assumes "run_server c argv st0 glob qs = Inr (Some (rs, st))"
  shows "\<exists>cfg. startup c argv st0 = Inr cfg \<and> length rs = length qs \<and>
           (\<forall>q. \<not> allowed_entry cfg q \<longrightarrow>
                lookup st q = lookup st0 q \<or> (lookup st0 q = None \<and> lookup st q = Some Dir)) \<and>
           (wf_fs st0 \<longrightarrow> wf_fs st)"
proof -
  from assms obtain cfg where cfg: "startup c argv st0 = Inr cfg"
    and s: "serve glob cfg qs st0 = Some (rs, st)"
    by (auto simp: run_server_def split: sum.splits)
  have r: "reachable c argv st0 cfg st" using serve_reachable [OF s reachable.start [OF cfg]] .
  show ?thesis
    using cfg serve_length [OF s] reachable_outside [OF r] reachable_wf_fs [OF r] by blast
qed

text \<open>
  Constructing the server and registering its handlers does not throw: every
  method the module registers a handler for needs a capability the server declares,
  and the declared capabilities are exactly those the handlers need.
\<close>

lemma handlers_registered:
  "register_handlers filesystem_server registered_methods = None \<and>
   set (capabilities filesystem_server) = the ` method_capability ` set registered_methods"
  by code_simp

theorem run_server_session_witness:
  "\<exists>cfg. startup ''/'' [''/r''] sandbox_fs = Inr cfg \<and>
     length ([Inr (InitializeResult ''filesystem-server'' ''0.1.0'' [''resources'', ''tools'']),
             Inr (CallToolResult (ToolResult (PText ''Successfully wrote to /r/a/b''))),
             Inr (CallToolResult (ToolResult (PText ''hi'')))] :: (mcp_error + response) list) =
       length demo_requests \<and>
     (lookup [([], Dir), ([''r''], Dir), ([''r'', ''a''], Dir), ([''r'', ''a'', ''b''], File ''hi'')] [''etc''] =
        lookup sandbox_fs [''etc''] \<or>
      (lookup sandbox_fs [''etc''] = None \<and>
       lookup [([], Dir), ([''r''], Dir), ([''r'', ''a''], Dir), ([''r'', ''a'', ''b''], File ''hi'')] [''etc''] =
         Some Dir)) \<and>
     wf_fs [([], Dir), ([''r''], Dir), ([''r'', ''a''], Dir), ([''r'', ''a'', ''b''], File ''hi'')]"
proof -
  have "run_server ''/'' [''/r''] sandbox_fs (\<lambda>_ _ _. []) demo_requests =
          Inr (Some ([Inr (InitializeResult ''filesystem-server'' ''0.1.0'' [''resources'', ''tools'']),
                      Inr (CallToolResult (ToolResult (PText ''Successfully wrote to /r/a/b''))),
                      Inr (CallToolResult (ToolResult (PText ''hi'')))],
                     [([], Dir), ([''r''], Dir), ([''r'', ''a''], Dir), ([''r'', ''a'', ''b''], File ''hi'')]))"
    by code_simp
  from run_server_session [OF this] obtain cfg where cfg: "startup ''/'' [''/r''] sandbox_fs = Inr cfg"
    and rest: "length ([Inr (InitializeResult ''filesystem-server'' ''0.1.0'' [''resources'', ''tools'']),
             Inr (CallToolResult (ToolResult (PText ''Successfully wrote to /r/a/b''))),
             Inr (CallToolResult (ToolResult (PText ''hi'')))] :: (mcp_error + response) list) =
       length demo_requests"
      "\<forall>q. \<not> allowed_entry cfg q \<longrightarrow>
         lookup [([], Dir), ([''r''], Dir), ([''r'', ''a''], Dir), ([''r'', ''a'', ''b''], File ''hi'')] q =
           lookup sandbox_fs q \<or>
         (lookup sandbox_fs q = None \<and>
          lookup [([], Dir), ([''r''], Dir), ([''r'', ''a''], Dir), ([''r'', ''a'', ''b''], File ''hi'')] q =
            Some Dir)"
      "wf_fs sandbox_fs \<longrightarrow>
         wf_fs [([], Dir), ([''r''], Dir), ([''r'', ''a''], Dir), ([''r'', ''a'', ''b''], File ''hi'')]"
    by blast
  have "startup ''/'' [''/r''] sandbox_fs = Inr \<lparr>allowed = [''/r''], cwd = ''/''\<rparr>" by code_simp
  with cfg have "cfg = \<lparr>allowed = [''/r''], cwd = ''/''\<rparr>" by simp
  moreover have "\<not> allowed_entry \<lparr>allowed = [''/r''], cwd = ''/''\<rparr> [''etc'']" "wf_fs sandbox_fs"
    by code_simp+
  ultimately show ?thesis using cfg rest by blast
qed

end
