(* ===== verification/Mkdirp.thy ===== *)
theory Mkdirp
  imports HostFs
begin

text \<open>
  Node's \<open>MKDirp\<close> (\<open>src/node_file.cc\<close>), which \<open>fs.mkdir(p, {recursive: true})\<close>
  runs for \<open>create_directory\<close>, \<open>write_file\<close> and \<open>move_file\<close>, is a loop over a
  stack of path strings: pop a path and \<open>mkdir\<close> it; on ENOENT push it back with
  the string before its last \<open>/\<close> on top; on EEXIST accept an existing directory.
  \<open>mkdirp_loop\<close> is that loop as written. Nothing bounds the number of its
  iterations (a path can be pushed back again and again), so it is a
  \<^theory_text>\<open>partial_function\<close> in the option monad whose \<open>None\<close> is a loop that never
  returns.

  The recursive \<open>mkdirp\<close> of \<open>HostFs\<close>, used by the handlers, retries a path only
  once after creating its parent. The theorem below shows that on a well-formed
  store whose working directory exists the loop always returns, with the result
  of \<open>mkdirp\<close>: after the parent has been made, the retry cannot fail with ENOENT
  again (\<open>mkdirp_retry_not_enoent\<close>), because the parent string then resolves to a
  directory (or is empty, for a path \<open>/name\<close>).
\<close>

partial_function (option) mkdirp_loop :: "fs \<Rightarrow> string \<Rightarrow> string list \<Rightarrow> mkdir_result option" where
  "mkdirp_loop st c stack =
     (case stack of
        [] \<Rightarrow> Some (Inr st)
      | p # rest \<Rightarrow>
          (case mkdir_once st c p of
             Inr st' \<Rightarrow> mkdirp_loop st' c rest
           | Inl e \<Rightarrow>
               (if e = ENOENT then
                  (case last_slash p of
                     Some i \<Rightarrow> mkdirp_loop st c (take i p # p # rest)
                   | None \<Rightarrow>
                       (if rest = [] then Some (mkdirp_exists st c p True EEXIST)
                        else mkdirp_loop st c rest))
                else if e = ENOTDIR then Some (Inl (e, st))
                else (case mkdirp_exists st c p (rest = []) e of
                        Inl r \<Rightarrow> Some (Inl r)
                      | Inr _ \<Rightarrow> mkdirp_loop st c rest))))"

subsection \<open>Walking one segment further\<close>

lemma walk_trivial_prefix:
  "list_all (\<lambda>r. r = [] \<or> r = ''.'') xs \<Longrightarrow> walk st cur (xs @ ys) = walk st cur ys"
  by (induction xs) auto

lemma walk_snoc:
  "walk st cur ss = Inr t \<Longrightarrow> lookup st t = Some Dir \<Longrightarrow> walk st cur (ss @ [x]) = Inr (seg_step t x)"
proof (induction st cur ss rule: walk.induct)
  case (1 st cur)
  then show ?case by (auto simp: seg_step_def Let_def)
next
  case (2 st cur s rest)
  let ?nxt = "if s = ''..'' then butlast cur else cur @ [s]"
  let ?triv = "\<lambda>r. r = [] \<or> r = ''.''"
  show ?case
  proof (cases "?triv s")
    case True
    with 2 show ?thesis by simp
  next
    case s: False
    show ?thesis
    proof (cases "list_all ?triv rest")
      case True
      with s "2.prems" have t: "t = ?nxt" by (simp add: Let_def)
      show ?thesis
      proof (cases "?triv x")
        case True
        with s \<open>list_all ?triv rest\<close> t show ?thesis by (simp add: seg_step_def Let_def)
      next
        case False
        have "walk st ?nxt (rest @ [x]) = walk st ?nxt [x]"
          using walk_trivial_prefix [OF \<open>list_all ?triv rest\<close>] by simp
        also have "\<dots> = Inr (seg_step t x)" using False t by (auto simp: seg_step_def Let_def)
        finally show ?thesis using s False t "2.prems"(2) by (simp add: Let_def)
      qed
    next
      case rest: False
      with s "2.prems"(1) have d: "lookup st ?nxt = Some Dir" and w: "walk st ?nxt rest = Inr t"
        by (auto simp: Let_def split: option.splits node.splits)
      have "walk st ?nxt (rest @ [x]) = Inr (seg_step t x)"
        using "2.IH"(2) [OF s refl rest d refl w "2.prems"(2)] .
      with s rest d show ?thesis by (simp add: Let_def)
    qed
  qed
qed

lemma last_slash_None: "last_slash p = None \<longleftrightarrow> CHR ''/'' \<notin> set p"
proof -
  let ?P = "\<lambda>c. c \<noteq> CHR ''/''"
  have "length (takeWhile ?P (rev p)) + length (dropWhile ?P (rev p)) = length p"
    by (metis length_append length_rev takeWhile_dropWhile_id)
  moreover have "dropWhile ?P (rev p) \<noteq> [] \<longleftrightarrow> CHR ''/'' \<in> set p"
    by (simp add: dropWhile_eq_Nil_conv)
  ultimately have "length (takeWhile ?P (rev p)) < length p \<longleftrightarrow> CHR ''/'' \<in> set p"
    by (cases "dropWhile ?P (rev p)") auto
  then show ?thesis by (auto simp: last_slash_def Let_def)
qed

lemma last_slash_Some:
  assumes "last_slash p = Some i"
  shows "p = take i p @ CHR ''/'' # drop (Suc i) p \<and> CHR ''/'' \<notin> set (drop (Suc i) p)"
proof -
  let ?r = "rev p" let ?k = "length (takeWhile (\<lambda>c. c \<noteq> CHR ''/'') ?r)"
  from assms have k: "?k < length p" and i: "i = length p - 1 - ?k"
    by (auto simp: last_slash_def Let_def split: if_splits)
  have "?r ! ?k = CHR ''/''"
    using k nth_length_takeWhile [of "\<lambda>c. c \<noteq> CHR ''/''" ?r] by simp
  then have pi: "p ! i = CHR ''/''" using k i by (simp add: rev_nth)
  have "drop (Suc i) p = rev (take ?k ?r)"
    using k i by (simp add: rev_take Suc_diff_Suc)
  moreover have "CHR ''/'' \<notin> set (take ?k ?r)"
    by (metis (mono_tags, lifting) set_takeWhileD takeWhile_eq_take)
  ultimately have "CHR ''/'' \<notin> set (drop (Suc i) p)" by simp
  moreover have "p = take i p @ p ! i # drop (Suc i) p"
    using k i by (simp add: id_take_nth_drop)
  ultimately show ?thesis using pi by simp
qed

lemma fs_path_snoc:
  assumes "fs_path st c q = Inr t" "lookup st t = Some Dir" "CHR ''/'' \<notin> set name"
  shows "fs_path st c (q @ CHR ''/'' # name) = Inr (seg_step t name)"
proof -
  have wq: "fs_walk st c q = Inr t" using fs_path_walk [OF assms(1)] .
  then have q: "q \<noteq> []" by (auto simp: fs_walk_def)
  have sp: "split_on CHR ''/'' (q @ CHR ''/'' # name) = split_on CHR ''/'' q @ [name]"
    using assms(3) by (simp add: split_on_append_sep)
  with wq assms(2) q have w: "fs_walk st c (q @ CHR ''/'' # name) = Inr (seg_step t name)"
    by (auto simp: fs_walk_def walk_snoc)
  show ?thesis
  proof (cases "name = [] \<or> name = ''.''")
    case True
    then have "seg_step t name = t" by (rule seg_step_trivial)
    with w assms(2) show ?thesis by (simp add: fs_path_dir)
  next
    case False
    with sp have "\<not> dir_suffix (q @ CHR ''/'' # name)" by (intro dir_suffix_named_last) simp
    with w show ?thesis by (simp add: fs_path_no_suffix)
  qed
qed

lemma mkdir_once_at:
  assumes wf: "wf_fs st" and p: "fs_path st c p = Inr (seg_step t name)" and t: "lookup st t = Some Dir"
  shows "mkdir_once st c p \<noteq> Inl ENOENT"
proof (cases "name = [] \<or> name = ''.'' \<or> name = ''..''")
  case True
  have "seg_step t name = [] \<or> lookup st (seg_step t name) \<noteq> None"
  proof (cases "name = ''..'' \<and> t \<noteq> []")
    case True
    then have "strict_prefix (butlast t) t"
      by (metis append_butlast_last_id prefix_order.less_le prefixI butlast_snoc less_irrefl
          length_butlast length_greater_0_conv diff_less zero_less_one)
    with wf t have "lookup st (butlast t) = Some Dir" by (intro wf_ancestor) simp_all
    with True show ?thesis by (simp add: seg_step_def)
  qed (use True t in \<open>auto simp: seg_step_def\<close>)
  with p show ?thesis by (auto simp: mkdir_once_def)
next
  case False
  with p t show ?thesis by (auto simp: mkdir_once_def seg_step_def)
qed

subsection \<open>The retry after the parent was made\<close>

lemma mkdir_once_root_child:
  assumes wf: "wf_fs st" and name: "CHR ''/'' \<notin> set name"
  shows "mkdir_once st c (CHR ''/'' # name) \<noteq> Inl ENOENT"
proof -
  have root: "lookup st [] = Some Dir" using wf by (simp add: wf_fs_def)
  have "split_on CHR ''/'' (CHR ''/'' # name) = [[]] @ [name]"
    using name split_on_append_sep [of "CHR ''/''" "[]" name] by simp
  moreover have "walk st [] [[]] = Inr []" by simp
  ultimately have "fs_path st c (CHR ''/'' # name) = Inr (seg_step [] name)"
    using walk_snoc [of st "[]" "[[]]" "[]" name] root name
    by (simp add: fs_path_no_suffix dir_suffix_root_child fs_walk_def)
  then show ?thesis by (rule mkdir_once_at [OF wf _ root])
qed

lemma mkdir_once_relative_segment:
  assumes wf: "wf_fs st" and c: "lookup st (normalize_string c) = Some Dir"
    and q: "q \<noteq> []" "CHR ''/'' \<notin> set q"
  shows "mkdir_once st c q \<noteq> Inl ENOENT"
proof -
  have "hd q \<noteq> CHR ''/''" using q by (cases q) auto
  then have "fs_path st c q = walk st (normalize_string c) ([] @ [q])"
    using q by (simp add: fs_path_no_suffix dir_suffix_free fs_walk_def)
  also have "\<dots> = Inr (seg_step (normalize_string c) q)"
    using c by (intro walk_snoc) simp_all
  finally show ?thesis by (rule mkdir_once_at [OF wf _ c])
qed

lemma mkdirp_inner:
  "mkdirp st c q False = Inr st2 \<Longrightarrow>
   fs_stat st2 c q = Inr Dir \<or> (last_slash q = None \<and> mkdir_once st c q = Inl ENOENT \<and> st2 = st)"
  by (auto simp: mkdirp.simps [of st c q False] mkdir_retry_def mkdir_once_stat mkdirp_exists_stat
      split: sum.splits if_splits option.splits)

lemma grows_dirs_keeps_dir: "grows_dirs st st' \<Longrightarrow> lookup st q = Some Dir \<Longrightarrow> lookup st' q = Some Dir"
  unfolding grows_dirs_def by metis

lemma mkdirp_retry_not_enoent:
  assumes wf: "wf_fs st" and c: "lookup st (normalize_string c) = Some Dir"
    and i: "last_slash p = Some i" and st2: "mkdirp st c (take i p) False = Inr st2"
  shows "mkdir_once st2 c p \<noteq> Inl ENOENT"
proof -
  let ?q = "take i p" and ?name = "drop (Suc i) p"
  from last_slash_Some [OF i] have p: "p = ?q @ CHR ''/'' # ?name" and name: "CHR ''/'' \<notin> set ?name"
    by simp_all
  have wf2: "wf_fs st2" using mkdirp_wf [OF st2 wf] .
  from mkdirp_inner [OF st2] show ?thesis
  proof
    assume "fs_stat st2 c ?q = Inr Dir"
    then obtain t where t: "fs_path st2 c ?q = Inr t" "lookup st2 t = Some Dir"
      by (auto simp: fs_stat_def split: sum.splits option.splits)
    have "fs_path st2 c p = Inr (seg_step t ?name)"
      using fs_path_snoc [OF t name] p by simp
    with wf2 t(2) show ?thesis by (intro mkdir_once_at) simp_all
  next
    assume b: "last_slash ?q = None \<and> mkdir_once st c ?q = Inl ENOENT \<and> st2 = st"
    show ?thesis
    proof (cases "?q = []")
      case True
      with p have "p = CHR ''/'' # ?name" by simp
      with mkdir_once_root_child [OF wf2 name] show ?thesis by simp
    next
      case False
      with b mkdir_once_relative_segment [OF wf c False] show ?thesis
        by (simp add: last_slash_None)
    qed
  qed
qed

lemma mkdirp_loop_retry:
  assumes wf: "wf_fs st" and c: "lookup st (normalize_string c) = Some Dir"
    and i: "last_slash p = Some i" and st2: "mkdirp st c (take i p) False = Inr st2"
  shows "mkdirp_loop st2 c (p # rest) =
         (case mkdir_retry st2 c p (rest = []) of
            Inl r \<Rightarrow> Some (Inl r) | Inr st3 \<Rightarrow> mkdirp_loop st3 c rest)"
  using mkdirp_retry_not_enoent [OF wf c i st2]
  by (subst mkdirp_loop.simps)
     (auto simp: mkdir_retry_def dest: mkdirp_exists_stores split: sum.splits)

lemma mkdirp_loop_mkdirp:
  "wf_fs st \<Longrightarrow> lookup st (normalize_string c) = Some Dir \<Longrightarrow> b = (rest = []) \<Longrightarrow>
   mkdirp_loop st c (p # rest) =
     (case mkdirp st c p b of Inl r \<Rightarrow> Some (Inl r) | Inr st' \<Rightarrow> mkdirp_loop st' c rest)"
proof (induction st c p b arbitrary: rest rule: mkdirp.induct)
  case (1 st c p b)
  show ?case
  proof (cases "mkdir_once st c p")
    case (Inr st1)
    then show ?thesis
      by (simp add: mkdirp_loop.simps [of st c "p # rest"] mkdirp.simps [of st c p])
  next
    case (Inl e)
    show ?thesis
    proof (cases "e = ENOENT")
      case enoent: True
      show ?thesis
      proof (cases "last_slash p")
        case None
        with Inl enoent "1.prems"(3) show ?thesis
          by (auto simp: mkdirp_loop.simps [of st c "p # rest"] mkdirp.simps [of st c p]
              mkdirp_loop.simps [of _ c "[]"] dest: mkdirp_exists_stores split: sum.splits)
      next
        case (Some i)
        have ih: "mkdirp_loop st c (take i p # p # rest) =
                  (case mkdirp st c (take i p) False of
                     Inl r \<Rightarrow> Some (Inl r) | Inr st2 \<Rightarrow> mkdirp_loop st2 c (p # rest))"
          using "1.IH" [OF Inl enoent Some "1.prems"(1,2)] by simp
        have "mkdirp_loop st c (p # rest) = mkdirp_loop st c (take i p # p # rest)"
          using Inl enoent Some by (simp add: mkdirp_loop.simps [of st c "p # rest"])
        also have "\<dots> = (case mkdirp st c p b of
                           Inl r \<Rightarrow> Some (Inl r) | Inr st' \<Rightarrow> mkdirp_loop st' c rest)"
          unfolding ih using Inl enoent Some "1.prems"
          by (auto simp: mkdirp.simps [of st c p] mkdirp_loop_retry split: sum.splits)
        finally show ?thesis .
      qed
    next
      case False
      with Inl "1.prems"(3) show ?thesis
        by (auto simp: mkdirp_loop.simps [of st c "p # rest"] mkdirp.simps [of st c p]
            dest: mkdirp_exists_stores split: sum.splits)
    qed
  qed
qed

subsection \<open>The loop returns the result of the recursion\<close>

lemma mkdirp_loop_terminates:
  assumes "wf_fs st" "lookup st (normalize_string c) = Some Dir"
  shows "mkdirp_loop st c [p] = Some (fs_mkdir_recursive st c p)"
  using mkdirp_loop_mkdirp [OF assms, of True "[]" p]
  by (simp add: fs_mkdir_recursive_def mkdirp_loop.simps [of _ c "[]"] split: sum.splits)

end
