(* ===== verification/Concurrency.thy ===== *)
theory Concurrency
  imports Dispatcher
begin

text \<open>
  Requests in flight at the same time. The handlers are \<open>async\<close> functions and the
  MCP SDK starts the handler of each request as it arrives, without waiting for the
  handlers already running; a handler runs synchronously up to its first
  \<open>await\<close>, and the I/O operations of the handlers in flight take effect in some
  order. \<open>thread\<close> is a handler suspended at an \<open>await\<close>: \<open>write_file\<close> before its
  \<open>fs.mkdir\<close> and before its \<open>fs.writeFile\<close> (lines 369, 371), \<open>edit_file\<close> before
  its \<open>fs.readFile\<close> and before its \<open>fs.writeFile\<close> (lines 393, 421),
  \<open>move_file\<close> before its \<open>fs.mkdir\<close> and before its \<open>fs.rename\<close> (lines 494,
  496), \<open>read_multiple_files\<close> before the \<open>fs.readFile\<close> of each allowed path of its
  loop (line 342; a denied path is recorded without an \<open>await\<close>); the handlers with a
  single \<open>await\<close> run as one step (\<open>TAtomic\<close>).
  \<open>start\<close> is the synchronous part run on arrival (the guards and the
  \<open>existsSync\<close> of \<open>move_file\<close>), \<open>thread_step\<close> one I/O operation and the code up
  to the next \<open>await\<close>, and \<open>conc_step\<close> the interleaving of arrivals and steps.
  Each file-system call is atomic; \<open>search_files\<close> (a recursive walk of \<open>glob\<close>)
  and the recursive \<open>mkdir\<close> are finer grained in Node and are taken as one step here.
\<close>

datatype thread =
    TDone "mcp_error + tool_response"
  | TAtomic tool_call
  | TWriteMkdir string string
  | TWriteWrite string string
  | TEditRead string "edit_op list" bool
  | TEditWrite string string tool_response
  | TMoveMkdir string string
  | TMoveRename string string
  | TReadMany "string list" "read_entry list"

text \<open>The loop of \<open>read_multiple_files\<close> runs synchronously over denied paths, recording
  their entries, up to the next allowed path, where it awaits the read; when no path
  is left it returns the results.\<close>

definition read_next :: "config \<Rightarrow> string list \<Rightarrow> read_entry list \<Rightarrow> thread" where
  "read_next cfg ps acc =
     (let denied = takeWhile (\<lambda>p. \<not> allowed_path cfg p) ps
      in case dropWhile (\<lambda>p. \<not> allowed_path cfg p) ps of
           [] \<Rightarrow> TDone (Inr (ToolResult (PReadResults (acc @ map ReadDenied denied))))
         | rest \<Rightarrow> TReadMany rest (acc @ map ReadDenied denied))"

text \<open>The synchronous part of a handler, run when the request arrives.\<close>

definition start :: "config \<Rightarrow> tool_call \<Rightarrow> fs \<Rightarrow> thread" where
  "start cfg c st =
     (case c of
        WriteFile p content \<Rightarrow>
          (if \<not> allowed_path cfg p then TDone (Inl (access_denied p)) else TWriteMkdir p content)
      | EditFile p edits dry_run \<Rightarrow>
          (if \<not> allowed_path cfg p then TDone (Inl (access_denied p)) else TEditRead p edits dry_run)
      | MoveFile source destination \<Rightarrow>
          (if \<not> allowed_path cfg source then TDone (Inl (access_denied source))
           else if \<not> allowed_path cfg destination then TDone (Inl (access_denied destination))
           else if fs_exists st (cwd cfg) destination then
             TDone (Inl (McpError InvalidRequest (''Destination '' @ destination @ '' already exists'')))
           else TMoveMkdir source destination)
      | ReadMultipleFiles ps \<Rightarrow> read_next cfg ps []
      | _ \<Rightarrow> TAtomic c)"

text \<open>One awaited operation and the code after it, up to the next \<open>await\<close>.\<close>

fun thread_step :: "glob_fn \<Rightarrow> config \<Rightarrow> thread \<Rightarrow> fs \<Rightarrow> thread \<times> fs" where
  "thread_step glob cfg (TDone r) st = (TDone r, st)"
| "thread_step glob cfg (TAtomic c) st = apfst TDone (call_tool glob cfg c st)"
| "thread_step glob cfg (TWriteMkdir p content) st =
     (case fs_mkdir_recursive st (cwd cfg) (dirname p) of
        Inl (e, st1) \<Rightarrow> (TDone (Inr (ToolError e)), st1)
      | Inr st1 \<Rightarrow> (TWriteWrite p content, st1))"
| "thread_step glob cfg (TWriteWrite p content) st =
     (case fs_write_file st (cwd cfg) p content of
        Inl e \<Rightarrow> (TDone (Inr (ToolError e)), st)
      | Inr st2 \<Rightarrow> (TDone (Inr (ToolResult (PText (''Successfully wrote to '' @ p)))), st2))"
| "thread_step glob cfg (TEditRead p edits dry_run) st =
     (case fs_read_file st (cwd cfg) p of
        Inl e \<Rightarrow> (TDone (Inr (ToolError e)), st)
      | Inr original \<Rightarrow>
          (let (new_content, results) = apply_edits original edits;
               diff = generate_diff original new_content;
               response = ToolResult (PEdit dry_run p results diff (\<not> dry_run))
           in if \<not> dry_run then (TEditWrite p new_content response, st)
              else (TDone (Inr response), st)))"
| "thread_step glob cfg (TEditWrite p new_content response) st =
     (case fs_write_file st (cwd cfg) p new_content of
        Inl e \<Rightarrow> (TDone (Inr (ToolError e)), st)
      | Inr st' \<Rightarrow> (TDone (Inr response), st'))"
| "thread_step glob cfg (TMoveMkdir source destination) st =
     (case fs_mkdir_recursive st (cwd cfg) (dirname destination) of
        Inl (e, st1) \<Rightarrow> (TDone (Inr (ToolError e)), st1)
      | Inr st1 \<Rightarrow> (TMoveRename source destination, st1))"
| "thread_step glob cfg (TMoveRename source destination) st =
     (case fs_rename st (cwd cfg) source destination of
        Inl e \<Rightarrow> (TDone (Inr (ToolError e)), st)
      | Inr st2 \<Rightarrow>
          (TDone (Inr (ToolResult (PText (''Successfully moved '' @ source @ '' to '' @ destination)))),
           st2))"
| "thread_step glob cfg (TReadMany ps acc) st =
     (case ps of
        [] \<Rightarrow> (TDone (Inr (ToolResult (PReadResults acc))), st)
      | p # rest \<Rightarrow> (read_next cfg rest (acc @ [read_one cfg st p]), st))"

text \<open>The number of \<open>await\<close>s a thread has still to pass.\<close>

primrec pending :: "thread \<Rightarrow> nat" where
  "pending (TDone r) = 0"
| "pending (TAtomic c) = 1"
| "pending (TWriteMkdir p c) = 2"
| "pending (TWriteWrite p c) = 1"
| "pending (TEditRead p es d) = 2"
| "pending (TEditWrite p c r) = 1"
| "pending (TMoveMkdir s d) = 2"
| "pending (TMoveRename s d) = 1"
| "pending (TReadMany ps acc) = Suc (length ps)"

text \<open>A thread run to its end with no other request in flight.\<close>

function run_thread :: "glob_fn \<Rightarrow> config \<Rightarrow> thread \<Rightarrow> fs \<Rightarrow> call_result" where
  "run_thread glob cfg t st =
     (case t of
        TDone r \<Rightarrow> (r, st)
      | _ \<Rightarrow> (case thread_step glob cfg t st of (t', st') \<Rightarrow> run_thread glob cfg t' st'))"
  by pat_completeness auto
termination
  by (relation "measure (\<lambda>(glob, cfg, t, st). pending t)")
     (auto simp: Let_def apfst_def map_prod_def read_next_def split: sum.splits prod.splits list.splits
      dest: dropWhile_Cons_length)

declare run_thread.simps [simp del]

text \<open>The interleaving of requests: a request arrives and runs its synchronous part,
  or one of the threads in flight passes its next \<open>await\<close>.\<close>

inductive conc_step :: "glob_fn \<Rightarrow> config \<Rightarrow> fs \<times> thread list \<Rightarrow> fs \<times> thread list \<Rightarrow> bool"
  for glob :: glob_fn and cfg :: config where
  arrive: "conc_step glob cfg (st, ts) (st, ts @ [start cfg c st])"
| run: "i < length ts \<Longrightarrow> thread_step glob cfg (ts ! i) st = (t', st') \<Longrightarrow>
        conc_step glob cfg (st, ts) (st', ts[i := t'])"

text \<open>The paths a suspended thread has passed through the guard.\<close>

definition thread_ok :: "config \<Rightarrow> thread \<Rightarrow> bool" where
  "thread_ok cfg t =
     (case t of
        TWriteWrite p c \<Rightarrow> allowed_path cfg p
      | TWriteMkdir p c \<Rightarrow> allowed_path cfg p
      | TEditRead p es d \<Rightarrow> allowed_path cfg p
      | TEditWrite p c r \<Rightarrow> allowed_path cfg p
      | TMoveMkdir s d \<Rightarrow> allowed_path cfg s \<and> allowed_path cfg d
      | TMoveRename s d \<Rightarrow> allowed_path cfg s \<and> allowed_path cfg d
      | _ \<Rightarrow> True)"

text \<open>Two edits of one file, used by the examples below.\<close>

definition race_fs :: fs where
  "race_fs = [([], Dir), ([''r''], Dir), ([''r'', ''f''], File ''ab'')]"

definition race_cfg :: config where
  "race_cfg = \<lparr>allowed = [''/r''], cwd = ''/''\<rparr>"

definition race_edit_a :: tool_call where
  "race_edit_a = EditFile ''/r/f'' [\<lparr>old_text = ''a'', new_text = ''x''\<rparr>] False"

definition race_edit_b :: tool_call where
  "race_edit_b = EditFile ''/r/f'' [\<lparr>old_text = ''b'', new_text = ''y''\<rparr>] False"

text \<open>Requests answered one at a time, each handler run to its end before the next
  request arrives: the single-request-at-a-time order of spec section 5.\<close>

fun serve_calls ::
  "glob_fn \<Rightarrow> config \<Rightarrow> tool_call list \<Rightarrow> fs \<Rightarrow> (mcp_error + tool_response) list \<times> fs" where
  "serve_calls glob cfg [] st = ([], st)"
| "serve_calls glob cfg (c # cs) st =
     (case call_tool glob cfg c st of
        (r, st1) \<Rightarrow> (case serve_calls glob cfg cs st1 of (rs, st2) \<Rightarrow> (r # rs, st2)))"

subsection \<open>A request alone is its handler\<close>

lemma run_thread_simps [simp]:
  "run_thread glob cfg (TDone r) st = (r, st)"
  "run_thread glob cfg (TAtomic c) st =
     (case thread_step glob cfg (TAtomic c) st of (t', st') \<Rightarrow> run_thread glob cfg t' st')"
  "run_thread glob cfg (TWriteMkdir p x) st =
     (case thread_step glob cfg (TWriteMkdir p x) st of (t', st') \<Rightarrow> run_thread glob cfg t' st')"
  "run_thread glob cfg (TWriteWrite p x) st =
     (case thread_step glob cfg (TWriteWrite p x) st of (t', st') \<Rightarrow> run_thread glob cfg t' st')"
  "run_thread glob cfg (TEditRead p es dr) st =
     (case thread_step glob cfg (TEditRead p es dr) st of (t', st') \<Rightarrow> run_thread glob cfg t' st')"
  "run_thread glob cfg (TEditWrite p x resp) st =
     (case thread_step glob cfg (TEditWrite p x resp) st of (t', st') \<Rightarrow> run_thread glob cfg t' st')"
  "run_thread glob cfg (TMoveMkdir s d) st =
     (case thread_step glob cfg (TMoveMkdir s d) st of (t', st') \<Rightarrow> run_thread glob cfg t' st')"
  "run_thread glob cfg (TMoveRename s d) st =
     (case thread_step glob cfg (TMoveRename s d) st of (t', st') \<Rightarrow> run_thread glob cfg t' st')"
  "run_thread glob cfg (TReadMany ps acc) st =
     (case thread_step glob cfg (TReadMany ps acc) st of (t', st') \<Rightarrow> run_thread glob cfg t' st')"
  by (subst run_thread.simps; simp)+

lemma run_thread_read_next:
  "run_thread glob cfg (read_next cfg ps acc) st =
   (Inr (ToolResult (PReadResults (acc @ map (read_one cfg st) ps))), st)"
proof (induction ps arbitrary: acc rule: length_induct)
  case (1 ps)
  let ?P = "\<lambda>p. \<not> allowed_path cfg p"
  have denied: "map (read_one cfg st) (takeWhile ?P ps) = map ReadDenied (takeWhile ?P ps)"
    by (rule map_cong) (auto simp: read_one_def dest: set_takeWhileD)
  show ?case
  proof (cases "dropWhile ?P ps")
    case Nil
    then have tw: "takeWhile ?P ps = ps" by (metis append_Nil2 takeWhile_dropWhile_id)
    show ?thesis unfolding read_next_def Let_def Nil tw using denied [unfolded tw] by simp
  next
    case (Cons p rest)
    have ps: "ps = takeWhile ?P ps @ p # rest" using Cons by (metis takeWhile_dropWhile_id)
    have "length rest < length ps" using Cons by (rule dropWhile_Cons_length)
    with "1.IH" have ih: "run_thread glob cfg (read_next cfg rest acc') st =
        (Inr (ToolResult (PReadResults (acc' @ map (read_one cfg st) rest))), st)" for acc'
      by blast
    have "run_thread glob cfg (read_next cfg ps acc) st =
          run_thread glob cfg (TReadMany (p # rest) (acc @ map ReadDenied (takeWhile ?P ps))) st"
      by (simp add: read_next_def Let_def Cons)
    also have "\<dots> = run_thread glob cfg
          (read_next cfg rest (acc @ map ReadDenied (takeWhile ?P ps) @ [read_one cfg st p])) st"
      by (simp add: run_thread_simps)
    also have "\<dots> = (Inr (ToolResult (PReadResults (acc @ map (read_one cfg st) ps))), st)"
    proof -
      have "map (read_one cfg st) ps = map (read_one cfg st) (takeWhile ?P ps @ p # rest)"
        using ps by (rule arg_cong)
      then show ?thesis using denied by (simp add: ih)
    qed
    finally show ?thesis .
  qed
qed

lemma read_next_ok: "thread_ok cfg (read_next cfg ps acc)"
  by (simp add: read_next_def thread_ok_def Let_def split: list.splits)

text \<open>Run with no other request in flight, the synchronous part of a handler followed
  by its awaited steps is the handler.\<close>

lemma run_thread_start:
  "run_thread glob cfg (start cfg c st) st = call_tool glob cfg c st"
proof (cases c)
  case (EditFile p es d)
  then show ?thesis
    by (auto simp: start_def handle_edit_file_def Let_def split: sum.splits prod.splits)
next
  case (WriteFile p x)
  then show ?thesis by (auto simp: start_def handle_write_file_def split: sum.splits)
next
  case (MoveFile s d)
  then show ?thesis by (auto simp: start_def handle_move_file_def split: sum.splits)
next
  case (ReadMultipleFiles ps)
  then show ?thesis by (simp add: start_def run_thread_read_next handle_read_multiple_files_def)
qed (simp_all add: start_def apfst_def map_prod_def split_def)

subsection \<open>Interleavings keep the frame\<close>

lemma start_ok: "thread_ok cfg (start cfg c st)"
proof (cases c)
  case (ReadMultipleFiles ps)
  then show ?thesis by (simp add: start_def read_next_ok)
qed (auto simp: start_def thread_ok_def)

lemma thread_step_keeps_ok:
  assumes "thread_ok cfg t" "thread_step glob cfg t st = (t', st')"
  shows "thread_ok cfg t'"
proof (cases t)
  case (TReadMany ps acc)
  have "thread_ok cfg (TDone r)" for r by (simp add: thread_ok_def)
  with TReadMany assms(2) show ?thesis by (auto simp: read_next_ok split: list.splits)
qed (use assms in \<open>auto simp: thread_ok_def Let_def apfst_def map_prod_def split_def
                      split: sum.splits if_splits\<close>)

lemma thread_step_rel:
  assumes refl: "\<And>st. R st st"
    and mk: "\<And>st p. R st (mkdir_store (fs_mkdir_recursive st (cwd cfg) p))"
    and wr: "\<And>st st' p c. allowed_path cfg p \<Longrightarrow> fs_write_file st (cwd cfg) p c = Inr st' \<Longrightarrow> R st st'"
    and rn: "\<And>st st' s d. allowed_path cfg s \<Longrightarrow> allowed_path cfg d \<Longrightarrow>
               fs_rename st (cwd cfg) s d = Inr st' \<Longrightarrow> R st st'"
    and call: "\<And>st st' c r. call_tool glob cfg c st = (r, st') \<Longrightarrow> R st st'"
    and ok: "thread_ok cfg t" and step: "thread_step glob cfg t st = (t', st')"
  shows "R st st'"
proof -
  have call': "R st (snd (call_tool glob cfg c st))" for st c using call by (metis prod.collapse)
  from ok step show ?thesis
    by (cases t) (auto simp: thread_ok_def Let_def apfst_def map_prod_def split_def refl
        split: sum.splits if_splits list.splits dest: mkdir_result_rel [where R = R, OF mk] intro: wr rn call')
qed

lemma thread_step_step_ok:
  "thread_ok cfg t \<Longrightarrow> thread_step glob cfg t st = (t', st') \<Longrightarrow> step_ok cfg st st'"
  by (rule thread_step_rel [where R = "step_ok cfg", OF step_ok_refl])
     (auto intro: step_ok_grows mkdir_step_ok write_step_ok rename_step_ok call_tool_step_ok)

lemma thread_step_wf:
  assumes "thread_ok cfg t" "thread_step glob cfg t st = (t', st')" "wf_fs st"
  shows "wf_fs st'"
  using thread_step_rel [where R = "\<lambda>a b. wf_fs a \<longrightarrow> wf_fs b", OF _ _ _ _ _ assms(1,2)] assms(3)
  by (auto simp: fs_mkdir_recursive_wf dest: fs_write_file_wf fs_rename_wf call_tool_wf)

definition conc_inv :: "config \<Rightarrow> fs \<Rightarrow> fs \<times> thread list \<Rightarrow> bool" where
  "conc_inv cfg st0 s \<longleftrightarrow>
     list_all (thread_ok cfg) (snd s) \<and> step_ok cfg st0 (fst s) \<and> (wf_fs st0 \<longrightarrow> wf_fs (fst s))"

lemma conc_step_inv: "conc_step glob cfg s s' \<Longrightarrow> conc_inv cfg st0 s \<Longrightarrow> conc_inv cfg st0 s'"
proof (induction rule: conc_step.induct)
  case (arrive st ts c)
  then show ?case by (simp add: conc_inv_def start_ok)
next
  case (run i ts st t' st')
  then have ok: "thread_ok cfg (ts ! i)" by (simp add: conc_inv_def list_all_length)
  have "thread_ok cfg t'" using ok run.hyps(2) by (rule thread_step_keeps_ok)
  moreover have "step_ok cfg st st'" using ok run.hyps(2) by (rule thread_step_step_ok)
  moreover have "wf_fs st \<Longrightarrow> wf_fs st'" using ok run.hyps(2) by (rule thread_step_wf)
  ultimately show ?case using run.prems run.hyps(1)
    by (auto simp: conc_inv_def list_all_length nth_list_update intro: step_ok_trans)
qed

lemma conc_reach_inv: "(conc_step glob cfg)\<^sup>*\<^sup>* (st0, []) s \<Longrightarrow> conc_inv cfg st0 s"
proof (induction rule: rtranclp_induct)
  case base
  then show ?case by (simp add: conc_inv_def step_ok_refl)
next
  case (step y z)
  from step.hyps(2) step.IH show ?case by (rule conc_step_inv)
qed

text \<open>
  C4. Concurrent requests keep the sandbox frame: in every state reachable by any
  interleaving of request arrivals and awaited steps, no file outside the allowed
  directories has been created, changed, moved or removed (only new directories can
  appear there), and a well-formed store stays well formed.
\<close>

theorem interleaving_outside:
  assumes "(conc_step glob cfg)\<^sup>*\<^sup>* (st0, []) (st, ts)"
  shows "(\<forall>q. \<not> allowed_entry cfg q \<longrightarrow>
            lookup st q = lookup st0 q \<or> (lookup st0 q = None \<and> lookup st q = Some Dir)) \<and>
         (wf_fs st0 \<longrightarrow> wf_fs st)"
  using conc_reach_inv [OF assms] by (auto simp: conc_inv_def step_ok_def)

subsection \<open>Lost updates\<close>

lemma conc_arrive:
  "(conc_step glob cfg)\<^sup>*\<^sup>* s0 (st, ts) \<Longrightarrow> start cfg c st = t \<Longrightarrow>
   (conc_step glob cfg)\<^sup>*\<^sup>* s0 (st, ts @ [t])"
  by (metis conc_step.arrive rtranclp.rtrancl_into_rtrancl)

lemma conc_run:
  "(conc_step glob cfg)\<^sup>*\<^sup>* s0 (st, ts) \<Longrightarrow> i < length ts \<Longrightarrow> thread_step glob cfg (ts ! i) st = (t', st') \<Longrightarrow>
   (conc_step glob cfg)\<^sup>*\<^sup>* s0 (st', ts[i := t'])"
  by (metis conc_step.run rtranclp.rtrancl_into_rtrancl)

text \<open>
  C13. Concurrent edits lose updates: \<open>edit_file\<close> reads the file, computes the edited
  content and writes it back after an \<open>await\<close>, with nothing serialising requests.
  For every file of a well-formed store and any two edit lists, both requests can
  read the original content before either writes; then both report success with
  their edits applied to the original, and the file ends with the second request's
  edits applied to the original content, the first request's edits being lost. This is
  the last-write-wins race the spec (section 5) accepts, since no locking is performed
  across operations.
\<close>

theorem concurrent_edits_lose_update:
  assumes wf: "wf_fs st" and al: "allowed_path cfg p" and rd: "fs_read_file st (cwd cfg) p = Inr c"
  shows "\<exists>st'. (conc_step glob cfg)\<^sup>*\<^sup>* (st, [])
            (st', [TDone (Inr (ToolResult (PEdit False p (snd (apply_edits c es1))
                                  (generate_diff c (fst (apply_edits c es1))) True))),
                   TDone (Inr (ToolResult (PEdit False p (snd (apply_edits c es2))
                                  (generate_diff c (fst (apply_edits c es2))) True)))]) \<and>
          fs_read_file st' (cwd cfg) p = Inr (fst (apply_edits c es2))"
proof -
  let ?R = "\<lambda>st' ts. (conc_step glob cfg)\<^sup>*\<^sup>* (st, []) (st', ts)"
  let ?c1 = "fst (apply_edits c es1)" and ?c2 = "fst (apply_edits c es2)"
  let ?r1 = "ToolResult (PEdit False p (snd (apply_edits c es1)) (generate_diff c ?c1) True)"
  let ?r2 = "ToolResult (PEdit False p (snd (apply_edits c es2)) (generate_diff c ?c2) True)"
  obtain t where t: "fs_path st (cwd cfg) p = Inr t"
    and wr: "\<forall>x. fs_write_file st (cwd cfg) p x = Inr (fs_put t (File x) st)"
    using fs_write_existing [OF wf rd] by blast
  let ?st1 = "fs_put t (File ?c1) st"
  have w1: "fs_write_file st (cwd cfg) p ?c1 = Inr ?st1" using wr by simp
  obtain t' where t': "fs_path ?st1 (cwd cfg) p = Inr t'"
    and wr': "\<forall>x. fs_write_file ?st1 (cwd cfg) p x = Inr (fs_put t' (File x) ?st1)"
    using fs_write_existing [OF fs_write_file_wf [OF w1 wf] fs_read_after_write [OF w1]] by blast
  let ?st2 = "fs_put t' (File ?c2) ?st1"
  have w2: "fs_write_file ?st1 (cwd cfg) p ?c2 = Inr ?st2" using wr' by simp
  have s: "start cfg (EditFile p es cw) st = TEditRead p es cw" for es cw using al by (simp add: start_def)
  have r: "thread_step glob cfg (TEditRead p es False) st =
           (TEditWrite p (fst (apply_edits c es))
              (ToolResult (PEdit False p (snd (apply_edits c es)) (generate_diff c (fst (apply_edits c es))) True)), st)"
    for es using rd by (simp add: split_def Let_def)
  have h0: "?R st []" by simp
  have h2: "?R st [TEditRead p es1 False, TEditRead p es2 False]"
    using conc_arrive [OF conc_arrive [OF h0 s] s] by simp
  have h3: "?R st [TEditWrite p ?c1 ?r1, TEditRead p es2 False]"
    using conc_run [OF h2, of 0 "TEditWrite p ?c1 ?r1" st] r [of es1] by simp
  have h4: "?R st [TEditWrite p ?c1 ?r1, TEditWrite p ?c2 ?r2]"
    using conc_run [OF h3, of 1 "TEditWrite p ?c2 ?r2" st] r [of es2] by simp
  have h5: "?R ?st1 [TDone (Inr ?r1), TEditWrite p ?c2 ?r2]"
    using conc_run [OF h4, of 0 "TDone (Inr ?r1)" ?st1] w1 by simp
  have h6: "?R ?st2 [TDone (Inr ?r1), TDone (Inr ?r2)]"
    using conc_run [OF h5, of 1 "TDone (Inr ?r2)" ?st2] w2 by simp
  with fs_read_after_write [OF w2] show ?thesis by blast
qed

text \<open>The same holds for the destination check of \<open>move_file\<close>: \<open>existsSync\<close> runs
  on arrival and \<open>rename\<close> two \<open>await\<close>s later, so a \<open>write_file\<close> that creates the
  destination in between is replaced by the moved file, and both requests succeed; in
  the order write, then move, the move is refused. Like the lost edit, this follows
  from the absence of locking across operations that the spec accepts.\<close>

lemma concurrent_move_overwrites_write:
  "(conc_step (\<lambda>_ _ _. []) race_cfg)\<^sup>*\<^sup>* (race_fs, [])
     ([([], Dir), ([''r''], Dir), ([''r'', ''g''], File ''ab'')],
      [TDone (Inr (ToolResult (PText ''Successfully moved /r/f to /r/g''))),
       TDone (Inr (ToolResult (PText ''Successfully wrote to /r/g'')))]) \<and>
   fst (call_tool (\<lambda>_ _ _. []) race_cfg (MoveFile ''/r/f'' ''/r/g'')
          (snd (call_tool (\<lambda>_ _ _. []) race_cfg (WriteFile ''/r/g'' ''new'') race_fs))) =
     Inl (McpError InvalidRequest ''Destination /r/g already exists'')"
proof
  let ?g = "\<lambda>_ _ _. [] :: string list"
  let ?R = "\<lambda>st ts. (conc_step ?g race_cfg)\<^sup>*\<^sup>* (race_fs, []) (st, ts)"
  let ?st1 = "[([], Dir), ([''r''], Dir), ([''r'', ''f''], File ''ab''), ([''r'', ''g''], File ''new'')]"
  let ?final = "[([], Dir), ([''r''], Dir), ([''r'', ''g''], File ''ab'')]"
  let ?dw = "TDone (Inr (ToolResult (PText ''Successfully wrote to /r/g'')))"
  let ?dm = "TDone (Inr (ToolResult (PText ''Successfully moved /r/f to /r/g'')))"
  have sm: "start race_cfg (MoveFile ''/r/f'' ''/r/g'') race_fs = TMoveMkdir ''/r/f'' ''/r/g''"
    and sw: "start race_cfg (WriteFile ''/r/g'' ''new'') race_fs = TWriteMkdir ''/r/g'' ''new''"
    and w1: "thread_step ?g race_cfg (TWriteMkdir ''/r/g'' ''new'') race_fs = (TWriteWrite ''/r/g'' ''new'', race_fs)"
    and w2: "thread_step ?g race_cfg (TWriteWrite ''/r/g'' ''new'') race_fs = (?dw, ?st1)"
    and m1: "thread_step ?g race_cfg (TMoveMkdir ''/r/f'' ''/r/g'') ?st1 = (TMoveRename ''/r/f'' ''/r/g'', ?st1)"
    and m2: "thread_step ?g race_cfg (TMoveRename ''/r/f'' ''/r/g'') ?st1 = (?dm, ?final)"
    by code_simp+
  have h0: "?R race_fs []" by simp
  have h1: "?R race_fs [TMoveMkdir ''/r/f'' ''/r/g'']" using conc_arrive [OF h0 sm] by simp
  have h2: "?R race_fs [TMoveMkdir ''/r/f'' ''/r/g'', TWriteMkdir ''/r/g'' ''new'']"
    using conc_arrive [OF h1 sw] by simp
  have h3: "?R race_fs [TMoveMkdir ''/r/f'' ''/r/g'', TWriteWrite ''/r/g'' ''new'']"
    using conc_run [OF h2, of 1 "TWriteWrite ''/r/g'' ''new''" race_fs] w1 by simp
  have h4: "?R ?st1 [TMoveMkdir ''/r/f'' ''/r/g'', ?dw]"
    using conc_run [OF h3, of 1 ?dw ?st1] w2 by simp
  have h5: "?R ?st1 [TMoveRename ''/r/f'' ''/r/g'', ?dw]"
    using conc_run [OF h4, of 0 "TMoveRename ''/r/f'' ''/r/g''" ?st1] m1 by simp
  show "?R ?final [?dm, ?dw]"
    using conc_run [OF h5, of 0 ?dm ?final] m2 by simp
next
  show "fst (call_tool (\<lambda>_ _ _. []) race_cfg (MoveFile ''/r/f'' ''/r/g'')
          (snd (call_tool (\<lambda>_ _ _. []) race_cfg (WriteFile ''/r/g'' ''new'') race_fs))) =
     Inl (McpError InvalidRequest ''Destination /r/g already exists'')"
    by code_simp
qed

subsection \<open>Sequential service is one interleaving\<close>

lemma thread_step_pending:
  "\<forall>r. t \<noteq> TDone r \<Longrightarrow> thread_step glob cfg t st = (t', st') \<Longrightarrow> pending t' < pending t"
  by (cases t) (auto simp: Let_def apfst_def map_prod_def read_next_def
      split: sum.splits prod.splits list.splits if_splits dest: dropWhile_Cons_length)

text \<open>A thread in flight can run to its end while the others wait.\<close>

lemma conc_run_thread:
  "run_thread glob cfg t st = (r, st') \<Longrightarrow> (conc_step glob cfg)\<^sup>*\<^sup>* s0 (st, ts) \<Longrightarrow>
   i < length ts \<Longrightarrow> ts ! i = t \<Longrightarrow> (conc_step glob cfg)\<^sup>*\<^sup>* s0 (st', ts[i := TDone r])"
proof (induction "pending t" arbitrary: t st ts rule: less_induct)
  case less
  show ?case
  proof (cases "\<exists>r0. t = TDone r0")
    case True
    then obtain r0 where t: "t = TDone r0" by blast
    with less.prems(1) have "r = r0" "st' = st" by (simp_all add: run_thread_simps)
    with t less.prems(4) have "ts[i := TDone r] = ts" by (metis list_update_id)
    with \<open>st' = st\<close> less.prems(2) show ?thesis by simp
  next
    case False
    obtain t1 st1 where step: "thread_step glob cfg t st = (t1, st1)" by fastforce
    have rt: "run_thread glob cfg t1 st1 = (r, st')"
      using less.prems(1) step False by (cases t) auto
    have c1: "(conc_step glob cfg)\<^sup>*\<^sup>* s0 (st1, ts[i := t1])"
      using conc_run [OF less.prems(2,3)] step less.prems(4) by simp
    have "pending t1 < pending t" using False step by (blast intro: thread_step_pending)
    from less.hyps [OF this rt c1] less.prems(3) show ?thesis by simp
  qed
qed

lemma serve_calls_conc:
  "(conc_step glob cfg)\<^sup>*\<^sup>* s0 (st, ts) \<Longrightarrow>
   (conc_step glob cfg)\<^sup>*\<^sup>* s0 (snd (serve_calls glob cfg cs st),
                                    ts @ map TDone (fst (serve_calls glob cfg cs st)))"
proof (induction cs arbitrary: st ts)
  case (Cons c cs)
  obtain r st1 where call: "call_tool glob cfg c st = (r, st1)" by fastforce
  have "(conc_step glob cfg)\<^sup>*\<^sup>* s0 (st, ts @ [start cfg c st])"
    using conc_arrive [OF Cons.prems refl] .
  moreover have "run_thread glob cfg (start cfg c st) st = (r, st1)"
    using call by (simp add: run_thread_start)
  ultimately have "(conc_step glob cfg)\<^sup>*\<^sup>* s0 (st1, ts @ [TDone r])"
    using conc_run_thread [where i = "length ts"] by fastforce
  from Cons.IH [OF this] show ?case
    using call by (cases "serve_calls glob cfg cs st1") simp
qed simp

text \<open>
  Answering requests one at a time is one of the interleavings: for every list of
  tool calls, the concurrent model reaches, from no request in flight, the store that
  the sequential service leaves, with every request finished with the result the
  sequential service gives it. So the concurrent model refines the sequential
  dispatcher, and what holds of every interleaving holds of sequential service.
\<close>

lemma serve_calls_interleaving:
  "(conc_step glob cfg)\<^sup>*\<^sup>* (st, [])
     (snd (serve_calls glob cfg cs st), map TDone (fst (serve_calls glob cfg cs st)))"
  using serve_calls_conc [of glob cfg "(st, [])" st "[]" cs] by simp

subsection \<open>Reads of one request see writes of another\<close>

text \<open>
  C14. \<open>read_multiple_files\<close> is not a snapshot: its loop awaits each
  \<open>fs.readFile\<close> in turn, so a \<open>write_file\<close> that completes between two reads is
  seen by the second. For every allowed path that reads as \<open>c\<close> and every
  \<open>write_file\<close> of \<open>c'\<close> to it that succeeds, reading the path twice alone gives
  \<open>c\<close> twice, but there is an interleaving in which both requests finish, the batch
  reporting \<open>c\<close> and then \<open>c'\<close> for the same file. The spec's non-goals
  exclude atomic multi-file reads, so this is accepted behaviour.
\<close>

theorem read_multiple_files_not_snapshot:
  assumes al: "allowed_path cfg p" and rd: "fs_read_file st (cwd cfg) p = Inr c"
    and w: "call_tool glob cfg (WriteFile p c') st = (Inr (ToolResult r), st1)"
  shows "fst (call_tool glob cfg (ReadMultipleFiles [p, p]) st) =
           Inr (ToolResult (PReadResults [ReadContent p c, ReadContent p c])) \<and>
         (conc_step glob cfg)\<^sup>*\<^sup>* (st, [])
           (st1, [TDone (Inr (ToolResult (PReadResults [ReadContent p c, ReadContent p c']))), TDone (Inr (ToolResult r))])"
proof
  have one: "read_one cfg st p = ReadContent p c" using al rd by (simp add: read_one_def)
  show "fst (call_tool glob cfg (ReadMultipleFiles [p, p]) st) =
          Inr (ToolResult (PReadResults [ReadContent p c, ReadContent p c]))"
    using one by (simp add: handle_read_multiple_files_def)
  let ?R = "\<lambda>st' ts. (conc_step glob cfg)\<^sup>*\<^sup>* (st, []) (st', ts)"
  have w1: "fs_read_file st1 (cwd cfg) p = Inr c'"
    using w al by (auto simp: handle_write_file_def fs_read_after_write split: sum.splits prod.splits)
  have "start cfg (ReadMultipleFiles [p, p]) st = TReadMany [p, p] []"
    using al by (simp add: start_def read_next_def)
  moreover have "?R st []" by simp
  ultimately have h1: "?R st [TReadMany [p, p] []]" using conc_arrive by fastforce
  have "thread_step glob cfg (TReadMany [p, p] []) st = (TReadMany [p] [ReadContent p c], st)"
    using al one by (simp add: read_next_def)
  then have h2: "?R st [TReadMany [p] [ReadContent p c]]"
    using conc_run [OF h1, of 0 "TReadMany [p] [ReadContent p c]" st] by simp
  have h3: "?R st [TReadMany [p] [ReadContent p c], start cfg (WriteFile p c') st]"
    using conc_arrive [OF h2 refl, of "WriteFile p c'"] by simp
  have "run_thread glob cfg (start cfg (WriteFile p c') st) st = (Inr (ToolResult r), st1)"
    using w by (simp add: run_thread_start)
  from conc_run_thread [OF this h3, of 1]
  have h4: "?R st1 [TReadMany [p] [ReadContent p c], TDone (Inr (ToolResult r))]" by simp
  have "thread_step glob cfg (TReadMany [p] [ReadContent p c]) st1 =
          (TDone (Inr (ToolResult (PReadResults [ReadContent p c, ReadContent p c']))), st1)"
    using al w1 by (simp add: read_next_def read_one_def)
  then show "?R st1 [TDone (Inr (ToolResult (PReadResults [ReadContent p c, ReadContent p c']))),
                     TDone (Inr (ToolResult r))]"
    using conc_run [OF h4, of 0 _ st1] by simp
qed

theorem interleaving_outside_witness:
  "(lookup [([], Dir), ([''r''], Dir), ([''r'', ''g''], File ''ab'')] [''etc''] = lookup race_fs [''etc''] \<or>
    (lookup race_fs [''etc''] = None \<and>
     lookup [([], Dir), ([''r''], Dir), ([''r'', ''g''], File ''ab'')] [''etc''] = Some Dir)) \<and>
   wf_fs [([], Dir), ([''r''], Dir), ([''r'', ''g''], File ''ab'')]"
proof -
  have "\<not> allowed_entry race_cfg [''etc'']" "wf_fs race_fs" by code_simp+
  with interleaving_outside [OF conjunct1 [OF concurrent_move_overwrites_write]] show ?thesis by blast
qed

theorem concurrent_edits_lose_update_witness:
  "fs_read_file (snd (call_tool (\<lambda>_ _ _. []) race_cfg race_edit_b
      (snd (call_tool (\<lambda>_ _ _. []) race_cfg race_edit_a race_fs)))) ''/'' ''/r/f'' = Inr ''xy'' \<and>
   (\<exists>st'. (conc_step (\<lambda>_ _ _. []) race_cfg)\<^sup>*\<^sup>* (race_fs, [])
       (st', [TDone (Inr (ToolResult (PEdit False ''/r/f'' [EditMatched ''a'' ''x'']
                                        (''- ab'' @ [newline] @ ''+ xb'' @ [newline]) True))),
              TDone (Inr (ToolResult (PEdit False ''/r/f'' [EditMatched ''b'' ''y'']
                                        (''- ab'' @ [newline] @ ''+ ay'' @ [newline]) True)))]) \<and>
       fs_read_file st' ''/'' ''/r/f'' = Inr ''ay'')"
proof
  show "fs_read_file (snd (call_tool (\<lambda>_ _ _. []) race_cfg race_edit_b
      (snd (call_tool (\<lambda>_ _ _. []) race_cfg race_edit_a race_fs)))) ''/'' ''/r/f'' = Inr ''xy''"
    by code_simp
  have "wf_fs race_fs" "allowed_path race_cfg ''/r/f''" "fs_read_file race_fs (cwd race_cfg) ''/r/f'' = Inr ''ab''"
    by code_simp+
  moreover have "apply_edits ''ab'' [\<lparr>old_text = ''a'', new_text = ''x''\<rparr>] = (''xb'', [EditMatched ''a'' ''x''])"
    "apply_edits ''ab'' [\<lparr>old_text = ''b'', new_text = ''y''\<rparr>] = (''ay'', [EditMatched ''b'' ''y''])"
    "generate_diff ''ab'' ''xb'' = ''- ab'' @ [newline] @ ''+ xb'' @ [newline]"
    "generate_diff ''ab'' ''ay'' = ''- ab'' @ [newline] @ ''+ ay'' @ [newline]"
    "cwd race_cfg = ''/''" by code_simp+
  ultimately show "\<exists>st'. (conc_step (\<lambda>_ _ _. []) race_cfg)\<^sup>*\<^sup>* (race_fs, [])
       (st', [TDone (Inr (ToolResult (PEdit False ''/r/f'' [EditMatched ''a'' ''x'']
                                        (''- ab'' @ [newline] @ ''+ xb'' @ [newline]) True))),
              TDone (Inr (ToolResult (PEdit False ''/r/f'' [EditMatched ''b'' ''y'']
                                        (''- ab'' @ [newline] @ ''+ ay'' @ [newline]) True)))]) \<and>
       fs_read_file st' ''/'' ''/r/f'' = Inr ''ay''"
    using concurrent_edits_lose_update [of race_fs race_cfg "''/r/f''" "''ab''" "\<lambda>_ _ _. []"
        "[\<lparr>old_text = ''a'', new_text = ''x''\<rparr>]" "[\<lparr>old_text = ''b'', new_text = ''y''\<rparr>]"]
    by simp
qed

theorem read_multiple_files_not_snapshot_witness:
  "fst (call_tool (\<lambda>_ _ _. []) race_cfg (ReadMultipleFiles [''/r/f'', ''/r/f'']) race_fs) =
     Inr (ToolResult (PReadResults [ReadContent ''/r/f'' ''ab'', ReadContent ''/r/f'' ''ab''])) \<and>
   (conc_step (\<lambda>_ _ _. []) race_cfg)\<^sup>*\<^sup>* (race_fs, [])
     ([([], Dir), ([''r''], Dir), ([''r'', ''f''], File ''new'')],
      [TDone (Inr (ToolResult (PReadResults [ReadContent ''/r/f'' ''ab'', ReadContent ''/r/f'' ''new'']))),
       TDone (Inr (ToolResult (PText ''Successfully wrote to /r/f'')))])"
proof (rule read_multiple_files_not_snapshot)
  show "allowed_path race_cfg ''/r/f''" "fs_read_file race_fs (cwd race_cfg) ''/r/f'' = Inr ''ab''"
    by code_simp+
  show "call_tool (\<lambda>_ _ _. []) race_cfg (WriteFile ''/r/f'' ''new'') race_fs =
          (Inr (ToolResult (PText ''Successfully wrote to /r/f'')),
           [([], Dir), ([''r''], Dir), ([''r'', ''f''], File ''new'')])"
    by code_simp
qed

end
