(* ===== verification/Escape.thy ===== *)
theory Escape
  imports Progress
begin

text \<open>
  Three consequences of the guard checking the lexically resolved path while the
  file system calls walk the raw string (\<open>src/filesystem/src/index.ts\<close>, lines 438--504),
  stated for every well-formed store and all segment names. The paths are written
  \<open>render ss\<close>, the string \<open>/s1/s2/...\<close> of a list of segments that may contain
  \<open>..\<close>. \<open>create_directory\<close> of \<open>/r/z/../../e/../r\<close> passes the guard (it
  resolves to the allowed \<open>/r\<close>) and creates \<open>/e\<close>, whatever \<open>e\<close> is;
  \<open>move_file\<close> to \<open>/r/n/../f\<close> with \<open>/r/n\<close> missing bypasses the
  \<open>existsSync\<close> check and replaces the existing file \<open>/r/f\<close>; and a move of a
  missing source \<open>/r/x\<close> to \<open>/r/x/../y\<close> succeeds, moving the directory the
  \<open>mkdir\<close> of the destination's parent has just created. The helper lemmas
  compute the kernel walk, \<open>path.resolve\<close>, \<open>path.dirname\<close> and Node's
  \<open>MKDirp\<close> on such symbolic strings.
\<close>

text \<open>Segment lists whose segments are non-empty and contain no separator.\<close>

definition sep_free :: "string list \<Rightarrow> bool" where
  "sep_free ss \<longleftrightarrow> (\<forall>s \<in> set ss. s \<noteq> [] \<and> CHR ''/'' \<notin> set s)"

subsection \<open>Paths of symbolic segments\<close>

lemma sep_free_simps [simp]:
  "sep_free []" "sep_free (s # ss) \<longleftrightarrow> s \<noteq> [] \<and> CHR ''/'' \<notin> set s \<and> sep_free ss"
  by (auto simp: sep_free_def)

lemma split_on_render_sep_free:
  "ss \<noteq> [] \<Longrightarrow> sep_free ss \<Longrightarrow> split_on CHR ''/'' (render ss) = [] # ss"
  by (simp add: render_def split_join_on sep_free_def)

lemma fs_path_render_walk:
  assumes "ss \<noteq> []" "sep_free ss" "last ss \<noteq> ''.''"
  shows "fs_path st c (render ss) = walk st [] ss"
proof -
  have "\<not> dir_suffix (render ss)"
    using assms by (intro dir_suffix_named_last) (simp add: split_on_render_sep_free sep_free_def)
  then show ?thesis using assms by (simp add: fs_path_no_suffix fs_walk_def split_on_render_sep_free)
qed

lemma resolve_segs_render_sep_free:
  "ss \<noteq> [] \<Longrightarrow> sep_free ss \<Longrightarrow> resolve_segs c (render ss) = foldl seg_step [] ss"
  unfolding resolve_segs_def Let_def
  by (simp add: normalize_string_snoc_sep) (simp add: normalize_string_def split_on_render_sep_free seg_step_def)

lemma last_slash_render: "xs \<noteq> [] \<Longrightarrow> CHR ''/'' \<notin> set x \<Longrightarrow>
  last_slash (render (xs @ [x])) = Some (length (render xs))"
  by (simp add: render_snoc last_slash_snoc)

lemma dirname_render_snoc:
  assumes "xs \<noteq> []" "sep_free (xs @ [x])"
  shows "dirname (render (xs @ [x])) = render xs"
proof -
  obtain j where j: "length (render xs) = Suc j" by (simp add: render_def)
  have x: "CHR ''/'' \<notin> set x" "x \<noteq> []" using assms(2) by (auto simp: sep_free_def)
  have "length (render xs) \<noteq> 1"
    using assms by (cases xs) (auto simp: render_def sep_free_def join_on_Cons)
  moreover have "dirname_scan (render xs @ CHR ''/'' # x) (length (render xs @ CHR ''/'' # x) - 1) True
                 = Some (length (render xs))"
    using dirname_scan_last [OF j x(1), of "length x" True] x(2) by simp
  ultimately show ?thesis using assms(1) by (simp add: dirname_def render_snoc Let_def)
qed

lemma mkdirp_enoent_sep:
  "CHR ''/'' \<notin> set b \<Longrightarrow> mkdir_once st c (a @ CHR ''/'' # b) = Inl ENOENT \<Longrightarrow>
   mkdirp st c (a @ CHR ''/'' # b) ob =
     (case mkdirp st c a False of Inl r \<Rightarrow> Inl r | Inr st2 \<Rightarrow> mkdir_retry st2 c (a @ CHR ''/'' # b) ob)"
  by (simp add: mkdirp.simps [of st c "a @ CHR ''/'' # b"] last_slash_snoc)

lemma mkdirp_enoent_step:
  "xs \<noteq> [] \<Longrightarrow> CHR ''/'' \<notin> set x \<Longrightarrow> mkdir_once st c (render (xs @ [x])) = Inl ENOENT \<Longrightarrow>
   mkdirp st c (render (xs @ [x])) ob =
     (case mkdirp st c (render xs) False of Inl r \<Rightarrow> Inl r | Inr st2 \<Rightarrow> mkdir_retry st2 c (render (xs @ [x])) ob)"
  using mkdirp_enoent_sep [of x st c "render xs" ob] by (simp add: render_snoc cong: sum.case_cong)

lemma mkdir_once_new:
  "fs_path st c p = Inr t \<Longrightarrow> t \<noteq> [] \<Longrightarrow> lookup st t = None \<Longrightarrow> lookup st (butlast t) = Some Dir \<Longrightarrow>
   mkdir_once st c p = Inr (fs_put t Dir st)"
  by (simp add: mkdir_once_def)

lemma mkdirp_once: "mkdir_once st c p = Inr st' \<Longrightarrow> mkdirp st c p b = Inr st'"
  by (simp add: mkdirp.simps [of st c p])

lemma mkdir_retry_once: "mkdir_once st c p = Inr st' \<Longrightarrow> mkdir_retry st c p b = Inr st'"
  by (simp add: mkdir_retry_def)

lemma mkdir_retry_dir:
  "fs_path st c p = Inr t \<Longrightarrow> lookup st t = Some Dir \<Longrightarrow> mkdir_retry st c p b = Inr st"
  by (simp add: mkdir_retry_def mkdir_once_def mkdirp_exists_def fs_stat_def)

lemma mkdir_once_enoent: "fs_path st c p = Inl ENOENT \<Longrightarrow> mkdir_once st c p = Inl ENOENT"
  by (simp add: mkdir_once_def)

lemma allowed_path_render:
  "ss \<noteq> [] \<Longrightarrow> sep_free ss \<Longrightarrow> foldl seg_step [] ss = r # rest \<Longrightarrow> render [r] \<in> set (allowed cfg) \<Longrightarrow>
   allowed_path cfg (render ss)"
  using prefix_render_append [of "[r]" rest]
  by (auto simp: allowed_path_def is_path_allowed_def resolve_def resolve_segs_render_sep_free list_ex_iff)

subsection \<open>The raw string escapes the guard\<close>

text \<open>
  C2. \<open>create_directory\<close> escapes the allowed directories: for every well-formed
  store with an allowed directory \<open>/r\<close>, a missing \<open>/r/z\<close> and a missing \<open>/e\<close>,
  the path \<open>/r/z/../../e/../r\<close> passes the guard, and the call succeeds after
  creating \<open>/r/z\<close> and \<open>/e\<close>, since Node's recursive \<open>mkdir\<close> creates the
  directories along the unresolved string.
\<close>

theorem create_directory_escapes_roots:
  assumes wf: "wf_fs st" and seg: "wf_seg r" "wf_seg z" "wf_seg e"
    and lr: "lookup st [r] = Some Dir" and lz: "lookup st [r, z] = None" and le: "lookup st [e] = None"
    and a: "render [r] \<in> set (allowed cfg)"
  shows "allowed_path cfg (render [r, z, ''..'', ''..'', e, ''..'', r]) \<and>
         call_tool glob cfg (CreateDirectory (render [r, z, ''..'', ''..'', e, ''..'', r])) st =
           (Inr (ToolResult (PText (''Directory '' @ render [r, z, ''..'', ''..'', e, ''..'', r] @
                                    '' created or already exists''))),
            fs_put [e] Dir (fs_put [r, z] Dir st))"
proof -
  let ?c = "cwd cfg"
  let ?st1 = "fs_put [r, z] Dir st" and ?st2 = "fs_put [e] Dir (fs_put [r, z] Dir st)"
  have s: "r \<noteq> []" "CHR ''/'' \<notin> set r" "r \<noteq> ''.''" "r \<noteq> ''..''"
    "z \<noteq> []" "CHR ''/'' \<notin> set z" "z \<noteq> ''.''" "z \<noteq> ''..''"
    "e \<noteq> []" "CHR ''/'' \<notin> set e" "e \<noteq> ''.''" "e \<noteq> ''..''"
    using seg by (simp_all add: wf_seg_def)
  have root: "lookup st [] = Some Dir" using wf by (simp add: wf_fs_def)
  have ne: "e \<noteq> r" using lr le by auto
  note fp = fs_path_render_walk
  have p6: "mkdirp st ?c (render [r, z]) False = Inr ?st1"
    using s lr lz by (intro mkdirp_once mkdir_once_new [of _ _ _ "[r, z]"]) (simp_all add: fp)
  have p5: "mkdirp st ?c (render [r, z, ''..'']) False = Inr ?st1"
    using mkdirp_enoent_step [of "[r, z]" "''..''"] p6 s lr lz
    by (simp add: mkdir_once_enoent fp mkdir_retry_dir [of _ _ _ "[r]"] fs_simps)
  have p4: "mkdirp st ?c (render [r, z, ''..'', ''..'']) False = Inr ?st1"
    using mkdirp_enoent_step [of "[r, z, ''..'']" "''..''"] p5 s lr lz root
    by (simp add: mkdir_once_enoent fp mkdir_retry_dir [of _ _ _ "[]"] fs_simps)
  have p3: "mkdirp st ?c (render [r, z, ''..'', ''..'', e]) False = Inr ?st2"
    using mkdirp_enoent_step [of "[r, z, ''..'', ''..'']" e] p4 s lr lz le root ne
    by (simp add: mkdir_once_enoent fp mkdir_retry_once mkdir_once_new [of _ _ _ "[e]"] fs_simps)
  have p2: "mkdirp st ?c (render [r, z, ''..'', ''..'', e, ''..'']) False = Inr ?st2"
    using mkdirp_enoent_step [of "[r, z, ''..'', ''..'', e]" "''..''"] p3 s lr lz le root ne
    by (simp add: mkdir_once_enoent fp mkdir_retry_dir [of _ _ _ "[]"] fs_simps)
  have p1: "mkdirp st ?c (render [r, z, ''..'', ''..'', e, ''..'', r]) True = Inr ?st2"
    using mkdirp_enoent_step [of "[r, z, ''..'', ''..'', e, ''..'']" r] p2 s lr lz le root ne
    by (simp add: mkdir_once_enoent fp mkdir_retry_dir [of _ _ _ "[r]"] fs_simps)
  have ok: "allowed_path cfg (render [r, z, ''..'', ''..'', e, ''..'', r])"
    using s a by (intro allowed_path_render [of _ r "[]"]) (simp_all add: seg_step_def)
  with p1 show ?thesis by (simp add: handle_create_directory_def fs_mkdir_recursive_def)
qed


lemma wf_seg_facts: "wf_seg s \<Longrightarrow> s \<noteq> [] \<and> CHR ''/'' \<notin> set s \<and> s \<noteq> ''.'' \<and> s \<noteq> ''..''"
  by (simp add: wf_seg_def)

text \<open>The recursive \<open>mkdir\<close> of \<open>/r/n/..\<close> with \<open>/r/n\<close> missing creates \<open>/r/n\<close>.\<close>

lemma mkdirp_missing_dotdot:
  assumes "wf_seg r" "wf_seg n" "lookup st [r] = Some Dir" "lookup st [r, n] = None"
  shows "mkdirp st c (render [r, n, ''..'']) True = Inr (fs_put [r, n] Dir st)"
proof -
  have n: "mkdirp st c (render [r, n]) False = Inr (fs_put [r, n] Dir st)"
    using assms wf_seg_facts [OF assms(1)] wf_seg_facts [OF assms(2)]
    by (intro mkdirp_once mkdir_once_new [of _ _ _ "[r, n]"]) (simp_all add: fs_path_render_walk)
  show ?thesis
    using mkdirp_enoent_step [of "[r, n]" "''..''"] n assms wf_seg_facts [OF assms(1)] wf_seg_facts [OF assms(2)]
    by (simp add: mkdir_once_enoent fs_path_render_walk mkdir_retry_dir [of _ _ _ "[r]"] fs_simps)
qed

lemma fs_exists_missing_dotdot:
  assumes "wf_seg r" "wf_seg n" "wf_seg f" "lookup st [r] = Some Dir" "lookup st [r, n] = None"
  shows "\<not> fs_exists st c (render [r, n, ''..'', f])"
  using assms wf_seg_facts [OF assms(1)] wf_seg_facts [OF assms(2)] wf_seg_facts [OF assms(3)]
  by (simp add: fs_exists_def fs_path_render_walk)

text \<open>
  C3. The destination check of \<open>move_file\<close> can be bypassed: for every
  well-formed store with files \<open>/r/a\<close> and \<open>/r/f\<close> in an allowed \<open>/r\<close> and a
  missing \<open>/r/n\<close>, moving \<open>/r/a\<close> to \<open>/r/f\<close> is refused because the destination
  exists, but moving it to \<open>/r/n/../f\<close> succeeds: \<open>existsSync\<close> fails on the
  missing \<open>/r/n\<close>, \<open>mkdir\<close> of the \<open>dirname\<close> creates it, and \<open>rename\<close>
  replaces \<open>/r/f\<close>, whose old content is lost.
\<close>

theorem move_file_overwrites_existing:
  assumes wf: "wf_fs st" and seg: "wf_seg r" "wf_seg n" "wf_seg a" "wf_seg f" and af: "a \<noteq> f"
    and lr: "lookup st [r] = Some Dir" and ln: "lookup st [r, n] = None"
    and la: "lookup st [r, a] = Some (File ca)" and lf: "lookup st [r, f] = Some (File cf)"
    and al: "render [r] \<in> set (allowed cfg)"
  shows "fst (call_tool glob cfg (MoveFile (render [r, a]) (render [r, f])) st) =
           Inl (McpError InvalidRequest (''Destination '' @ render [r, f] @ '' already exists'')) \<and>
         (\<exists>st'. call_tool glob cfg (MoveFile (render [r, a]) (render [r, n, ''..'', f])) st =
                 (Inr (ToolResult (PText (''Successfully moved '' @ render [r, a] @ '' to '' @
                                          render [r, n, ''..'', f]))), st') \<and>
               lookup st' [r, f] = Some (File ca) \<and> lookup st' [r, a] = None \<and>
               lookup st' [r, n] = Some Dir)"
proof -
  let ?c = "cwd cfg" and ?st1 = "fs_put [r, n] Dir st"
  note s = wf_seg_facts [OF seg(1)] wf_seg_facts [OF seg(2)] wf_seg_facts [OF seg(3)] wf_seg_facts [OF seg(4)]
  have na: "n \<noteq> a" and nf: "n \<noteq> f" using ln la lf by auto
  have ok: "allowed_path cfg (render [r, a])" "allowed_path cfg (render [r, f])"
    "allowed_path cfg (render [r, n, ''..'', f])"
    using s al by (auto intro!: allowed_path_render [of _ r] simp: seg_step_def)
  have ex: "fs_exists st ?c (render [r, f])"
    using s lr lf by (simp add: fs_exists_def fs_path_render_walk)
  have dn: "dirname (render [r, n, ''..'', f]) = render [r, n, ''..'']"
    using dirname_render_snoc [of "[r, n, ''..'']" f] s by simp
  have wf1: "wf_fs ?st1" using mkdirp_wf [OF mkdirp_missing_dotdot [OF seg(1,2) lr ln] wf] .
  obtain st' where rn: "fs_rename ?st1 ?c (render [r, a]) (render [r, n, ''..'', f]) = Inr st'"
    using s lr la lf af na nf
    by (simp add: fs_rename_def fs_path_render_walk dir_suffix_named_last split_on_render_sep_free fs_simps)
  have rs: "resolve_segs ?c (render [r, a]) = [r, a]" "resolve_segs ?c (render [r, n, ''..'', f]) = [r, f]"
    using s by (simp_all add: resolve_segs_render_sep_free seg_step_def)
  have mv: "lookup st' [r, f] = Some (File ca) \<and> lookup st' [r, a] = None"
    using fs_rename_moves [OF wf1 rn] rs la na af by (simp add: fs_simps)
  have "lookup st' [r, n] = Some Dir"
    using fs_rename_changes [OF rn, of "[r, n]"] rs na nf by (auto simp: fs_simps)
  with ok ex dn mv rn fs_exists_missing_dotdot [OF seg(1,2,4) lr ln] mkdirp_missing_dotdot [OF seg(1,2) lr ln]
  show ?thesis by (simp add: handle_move_file_def fs_mkdir_recursive_def)
qed

text \<open>
  C23. A move whose source does not exist can succeed: for every well-formed store
  with \<open>/r/x\<close> and \<open>/r/y\<close> missing in an allowed \<open>/r\<close>, moving \<open>/r/x\<close> to
  \<open>/r/x/../y\<close> reports success: the \<open>mkdir\<close> of the destination's \<open>dirname\<close>
  creates \<open>/r/x\<close>, and \<open>rename\<close> moves that new empty directory to \<open>/r/y\<close>.
\<close>

theorem move_file_missing_source_succeeds:
  assumes wf: "wf_fs st" and seg: "wf_seg r" "wf_seg x" "wf_seg y" and xy: "x \<noteq> y"
    and lr: "lookup st [r] = Some Dir" and lx: "lookup st [r, x] = None" and ly: "lookup st [r, y] = None"
    and al: "render [r] \<in> set (allowed cfg)"
  shows "\<exists>st'. call_tool glob cfg (MoveFile (render [r, x]) (render [r, x, ''..'', y])) st =
                 (Inr (ToolResult (PText (''Successfully moved '' @ render [r, x] @ '' to '' @
                                          render [r, x, ''..'', y]))), st') \<and>
               lookup st' [r, y] = Some Dir \<and> lookup st' [r, x] = None"
proof -
  let ?c = "cwd cfg" and ?st1 = "fs_put [r, x] Dir st"
  note s = wf_seg_facts [OF seg(1)] wf_seg_facts [OF seg(2)] wf_seg_facts [OF seg(3)]
  have ok: "allowed_path cfg (render [r, x])" "allowed_path cfg (render [r, x, ''..'', y])"
    using s al by (auto intro!: allowed_path_render [of _ r] simp: seg_step_def)
  have dn: "dirname (render [r, x, ''..'', y]) = render [r, x, ''..'']"
    using dirname_render_snoc [of "[r, x, ''..'']" y] s by simp
  have wf1: "wf_fs ?st1" using mkdirp_wf [OF mkdirp_missing_dotdot [OF seg(1,2) lr lx] wf] .
  obtain st' where rn: "fs_rename ?st1 ?c (render [r, x]) (render [r, x, ''..'', y]) = Inr st'"
    using s lr lx ly xy
    by (simp add: fs_rename_def fs_path_render_walk dir_suffix_named_last split_on_render_sep_free fs_simps)
  have rs: "resolve_segs ?c (render [r, x]) = [r, x]" "resolve_segs ?c (render [r, x, ''..'', y]) = [r, y]"
    using s by (simp_all add: resolve_segs_render_sep_free seg_step_def)
  have "lookup st' [r, y] = Some Dir \<and> lookup st' [r, x] = None"
    using fs_rename_moves [OF wf1 rn] rs xy by (simp add: fs_simps)
  with ok dn rn fs_exists_missing_dotdot [OF seg(1,2,3) lr lx] mkdirp_missing_dotdot [OF seg(1,2) lr lx]
  show ?thesis by (simp add: handle_move_file_def fs_mkdir_recursive_def)
qed


subsection \<open>Witnesses\<close>

theorem create_directory_escapes_roots_witness:
  "allowed_path \<lparr>allowed = [''/r''], cwd = ''/''\<rparr> (render [''r'', ''z'', ''..'', ''..'', ''evil'', ''..'', ''r'']) \<and>
   call_tool (\<lambda>_ _ _. []) \<lparr>allowed = [''/r''], cwd = ''/''\<rparr>
     (CreateDirectory (render [''r'', ''z'', ''..'', ''..'', ''evil'', ''..'', ''r''])) sandbox_fs =
     (Inr (ToolResult (PText (''Directory '' @ render [''r'', ''z'', ''..'', ''..'', ''evil'', ''..'', ''r''] @
                              '' created or already exists''))),
      fs_put [''evil''] Dir (fs_put [''r'', ''z''] Dir sandbox_fs)) \<and>
   \<not> allowed_entry \<lparr>allowed = [''/r''], cwd = ''/''\<rparr> [''evil'']"
proof -
  have "wf_fs sandbox_fs" by code_simp
  moreover have "wf_seg ''r''" "wf_seg ''z''" "wf_seg ''evil''" by (simp_all add: wf_seg_def)
  moreover have "lookup sandbox_fs [''r''] = Some Dir" "lookup sandbox_fs [''r'', ''z''] = None"
    "lookup sandbox_fs [''evil''] = None" by code_simp+
  moreover have "render [''r''] \<in> set (allowed \<lparr>allowed = [''/r''], cwd = ''/''\<rparr>)"
    by (simp add: render_def)
  moreover have "\<not> allowed_entry \<lparr>allowed = [''/r''], cwd = ''/''\<rparr> [''evil'']"
    by (simp add: allowed_entry_def render_def)
  ultimately show ?thesis using create_directory_escapes_roots by blast
qed

theorem move_file_overwrites_existing_witness:
  "fst (call_tool (\<lambda>_ _ _. []) \<lparr>allowed = [''/r''], cwd = ''/''\<rparr> (MoveFile (render [''r'', ''a'']) (render [''r'', ''f''])) overwrite_fs) =
     Inl (McpError InvalidRequest (''Destination '' @ render [''r'', ''f''] @ '' already exists'')) \<and>
   (\<exists>st'. call_tool (\<lambda>_ _ _. []) \<lparr>allowed = [''/r''], cwd = ''/''\<rparr>
            (MoveFile (render [''r'', ''a'']) (render [''r'', ''n'', ''..'', ''f''])) overwrite_fs =
          (Inr (ToolResult (PText (''Successfully moved '' @ render [''r'', ''a''] @ '' to '' @
                                   render [''r'', ''n'', ''..'', ''f'']))), st') \<and>
          lookup st' [''r'', ''f''] = Some (File ''new'') \<and> lookup st' [''r'', ''a''] = None \<and>
          lookup st' [''r'', ''n''] = Some Dir)"
proof -
  have "wf_fs overwrite_fs" by code_simp
  moreover have "wf_seg ''r''" "wf_seg ''n''" "wf_seg ''a''" "wf_seg ''f''" by (simp_all add: wf_seg_def)
  moreover have "lookup overwrite_fs [''r''] = Some Dir" "lookup overwrite_fs [''r'', ''n''] = None"
    "lookup overwrite_fs [''r'', ''a''] = Some (File ''new'')"
    "lookup overwrite_fs [''r'', ''f''] = Some (File ''keep'')" by code_simp+
  moreover have "render [''r''] \<in> set (allowed \<lparr>allowed = [''/r''], cwd = ''/''\<rparr>)"
    by (simp add: render_def)
  moreover have "''a'' \<noteq> ''f''" by simp
  ultimately show ?thesis using move_file_overwrites_existing by blast
qed

theorem move_file_missing_source_succeeds_witness:
  "\<exists>st'. call_tool (\<lambda>_ _ _. []) \<lparr>allowed = [''/r''], cwd = ''/''\<rparr>
            (MoveFile (render [''r'', ''x'']) (render [''r'', ''x'', ''..'', ''y''])) sandbox_fs =
          (Inr (ToolResult (PText (''Successfully moved '' @ render [''r'', ''x''] @ '' to '' @
                                   render [''r'', ''x'', ''..'', ''y'']))), st') \<and>
          lookup st' [''r'', ''y''] = Some Dir \<and> lookup st' [''r'', ''x''] = None"
proof -
  have "wf_fs sandbox_fs" by code_simp
  moreover have "wf_seg ''r''" "wf_seg ''x''" "wf_seg ''y''" by (simp_all add: wf_seg_def)
  moreover have "lookup sandbox_fs [''r''] = Some Dir" "lookup sandbox_fs [''r'', ''x''] = None"
    "lookup sandbox_fs [''r'', ''y''] = None" by code_simp+
  moreover have "render [''r''] \<in> set (allowed \<lparr>allowed = [''/r''], cwd = ''/''\<rparr>)"
    by (simp add: render_def)
  moreover have "''x'' \<noteq> ''y''" by simp
  ultimately show ?thesis using move_file_missing_source_succeeds by blast
qed

end
